(* ===== verification/Rfc_Prelude.thy ===== *)
theory Rfc_Prelude
  imports Main "HOL-Library.Char_ord" "HOL-Library.List_Lexorder" "HOL-Library.Sublist"
begin

text \<open>
  Shared vocabulary of the development: the parts of the C and C++ standard library the sources
  use on strings (\<open>std::string::find\<close>, \<open>substr\<close>, \<open>std::getline\<close>, \<open>fgets\<close>, \<open>strncpy\<close>,
  \<open>snprintf\<close>, \<open>strcasecmp\<close>, \<open>std::stoi\<close>, \<open>std::to_string\<close>), the result type of operations
  that can fault, and the generic lemmas the components share.  A C string is a list of bytes;
  a fixed-size \<open>char\<close> array is modelled by the C string it holds, its size being written out
  where a copy may truncate or overrun it.
\<close>

section \<open>Lemma collections\<close>

named_theorems str_simps \<open>rewrite rules for the string library\<close>
named_theorems frame_simps \<open>what an operation leaves unchanged\<close>

section \<open>Faults\<close>

text \<open>
  What the code does not survive: an uncaught C++ exception ends the process, an access outside
  an array, to a released object, or an overflow of a signed integer is undefined behaviour.
\<close>

datatype fault = UncaughtException | OutOfBounds | NullDereference | UseAfterFree | SignedOverflow

type_synonym 'a res = "fault + 'a"

fun rbind :: "'a res \<Rightarrow> ('a \<Rightarrow> 'b res) \<Rightarrow> 'b res" where
  "rbind (Inl e) f = Inl e"
| "rbind (Inr x) f = f x"

lemma rbind_eq_Inr [simp]: "(rbind m f = Inr y) = (\<exists>x. m = Inr x \<and> f x = Inr y)"
  by (cases m) auto

lemma rbind_eq_Inl: "(rbind m f = Inl e) = (m = Inl e \<or> (\<exists>x. m = Inr x \<and> f x = Inl e))"
  by (cases m) auto

lemma rbind_cong [fundef_cong]:
  "m = m' \<Longrightarrow> (\<And>x. m' = Inr x \<Longrightarrow> f x = g x) \<Longrightarrow> rbind m f = rbind m' g"
  by (cases m') auto

section \<open>Characters\<close>

abbreviation NL :: char where "NL \<equiv> CHR 0x0A"
abbreviation CR :: char where "CR \<equiv> CHR 0x0D"
abbreviation TAB :: char where "TAB \<equiv> CHR 0x09"
abbreviation NUL :: char where "NUL \<equiv> CHR 0x00"
abbreviation DQ :: char where "DQ \<equiv> CHR 0x22"

definition isdigit :: "char \<Rightarrow> bool" where
  "isdigit c \<longleftrightarrow> (48::nat) \<le> of_char c \<and> of_char c \<le> (57::nat)"

definition isupper :: "char \<Rightarrow> bool" where
  "isupper c \<longleftrightarrow> (65::nat) \<le> of_char c \<and> of_char c \<le> (90::nat)"

definition islower :: "char \<Rightarrow> bool" where
  "islower c \<longleftrightarrow> (97::nat) \<le> of_char c \<and> of_char c \<le> (122::nat)"

definition isalnum :: "char \<Rightarrow> bool" where
  "isalnum c \<longleftrightarrow> isdigit c \<or> isupper c \<or> islower c"

definition isspace :: "char \<Rightarrow> bool" where
  "isspace c \<longleftrightarrow> c \<in> {CHR '' '', TAB, NL, CHR 0x0B, CHR 0x0C, CR}"

definition tolower :: "char \<Rightarrow> char" where
  "tolower c = (if isupper c then char_of (of_char c + (32::nat)) else c)"

lemma tolower_lt: "of_char c + (32::nat) < 256" if "isupper c"
  using that by (simp add: isupper_def)

lemma tolower_not_upper [simp]: "\<not> isupper (tolower c)"
proof (cases "isupper c")
  case True
  then have "of_char (tolower c) = of_char c + (32::nat)"
    using tolower_lt [OF True] by (simp add: tolower_def)
  with True show ?thesis by (simp add: isupper_def)
next
  case False
  then show ?thesis by (simp add: tolower_def)
qed

lemma tolower_idem [simp]: "tolower (tolower c) = tolower c"
  by (subst tolower_def) simp

section \<open>Searching in strings\<close>

text \<open>\<open>s.find(t)\<close>; \<open>npos\<close> is \<open>None\<close>.\<close>

fun str_find :: "string \<Rightarrow> string \<Rightarrow> nat option" where
  "str_find [] t = (if t = [] then Some 0 else None)"
| "str_find (c # s) t = (if prefix t (c # s) then Some 0 else map_option Suc (str_find s t))"

text \<open>\<open>s.find(t, pos)\<close>.\<close>

definition str_find_from :: "string \<Rightarrow> string \<Rightarrow> nat \<Rightarrow> nat option" where
  "str_find_from s t pos =
     (if length s < pos then None else map_option (\<lambda>i. pos + i) (str_find (drop pos s) t))"

text \<open>Position of the first character with a property: \<open>find(c)\<close>, \<open>find_first_of\<close>,
  \<open>find_first_not_of\<close>.\<close>

fun find_idx :: "(char \<Rightarrow> bool) \<Rightarrow> string \<Rightarrow> nat option" where
  "find_idx P [] = None"
| "find_idx P (c # s) = (if P c then Some 0 else map_option Suc (find_idx P s))"

abbreviation str_contains :: "string \<Rightarrow> string \<Rightarrow> bool" where
  "str_contains s t \<equiv> str_find s t \<noteq> None"

lemma str_find_prefix: "(str_find s t = Some 0) = prefix t s"
  by (cases s) auto

lemma str_find_split:
  "str_find s t = Some i \<Longrightarrow> s = take i s @ t @ drop (i + length t) s \<and> i + length t \<le> length s"
proof (induction s arbitrary: i)
  case Nil
  then show ?case by (simp split: if_splits)
next
  case (Cons c s)
  show ?case
  proof (cases "prefix t (c # s)")
    case True
    then have "length t \<le> length (c # s)" by (rule prefix_length_le)
    with True Cons.prems show ?thesis by (auto simp: prefix_def)
  next
    case False
    with Cons.prems obtain j where j: "str_find s t = Some j" "i = Suc j" by auto
    from Cons.IH [OF j(1)] j(2) show ?thesis by simp
  qed
qed

lemma str_find_None: "(str_find s t = None) = (\<not> sublist t s)"
  by (induction s) (auto simp: sublist_Cons_right)

lemma str_contains_sublist: "str_contains s t = sublist t s"
  by (simp add: str_find_None)

lemma str_find_None_drop: "str_find s t = None \<Longrightarrow> str_find (drop n s) t = None"
  by (meson str_find_None sublist_drop sublist_order.order.trans)

lemma find_idx_Some:
  "find_idx P s = Some i \<Longrightarrow> i < length s \<and> P (s ! i) \<and> (\<forall>j<i. \<not> P (s ! j))"
proof (induction s arbitrary: i)
  case (Cons c s)
  show ?case
  proof (cases "P c")
    case False
    with Cons.prems obtain j where j: "find_idx P s = Some j" "i = Suc j" by auto
    from Cons.IH [OF j(1)] j(2) False show ?thesis by (auto simp: less_Suc_eq_0_disj)
  qed (use Cons.prems in auto)
qed simp

lemma find_idx_None: "(find_idx P s = None) = (\<forall>c\<in>set s. \<not> P c)"
  by (induction s) auto

lemma find_idx_append [str_simps]:
  "\<forall>c\<in>set s. \<not> P c \<Longrightarrow> find_idx P (s @ t) = map_option (\<lambda>i. length s + i) (find_idx P t)"
  by (induction s) (auto simp: option.map_comp o_def option.map_ident [unfolded id_def] cong: map_option_cong)

lemma find_idx_append_Cons [str_simps]:
  "\<forall>c\<in>set s. \<not> P c \<Longrightarrow> P c \<Longrightarrow> find_idx P (s @ c # t) = Some (length s)"
  by (simp add: find_idx_append)

lemma find_idx_char [str_simps]: "c \<notin> set s \<Longrightarrow> find_idx (\<lambda>x. x = c) (s @ c # t) = Some (length s)"
  by (rule find_idx_append_Cons) auto

section \<open>Lines of a stream\<close>

text \<open>The lines a \<open>while (std::getline(f, line))\<close> loop sees.\<close>

function getlines :: "string \<Rightarrow> string list" where
  "getlines s = (if s = [] then []
     else (let l = takeWhile (\<lambda>c. c \<noteq> NL) s in l # getlines (drop (Suc (length l)) s)))"
  by pat_completeness auto
termination
  by (relation "measure length") auto

declare getlines.simps [simp del]

lemma getlines_Nil [simp]: "getlines [] = []"
  by (subst getlines.simps) simp

lemma takeWhile_line: "NL \<notin> set l \<Longrightarrow> takeWhile (\<lambda>c. c \<noteq> NL) (l @ NL # rest) = l"
  by (induction l) auto

lemma getlines_line [simp]: "NL \<notin> set l \<Longrightarrow> getlines (l @ NL # rest) = l # getlines rest"
  by (subst getlines.simps) (simp add: takeWhile_line Let_def)

lemma getlines_last: "NL \<notin> set l \<Longrightarrow> l \<noteq> [] \<Longrightarrow> getlines l = [l]"
proof -
  assume l: "NL \<notin> set l" "l \<noteq> []"
  then have t: "takeWhile (\<lambda>c. c \<noteq> NL) l = l" by (induction l) auto
  show ?thesis by (subst getlines.simps) (simp only: t l Let_def, simp)
qed

lemma getlines_no_NL: "l \<in> set (getlines s) \<Longrightarrow> NL \<notin> set l"
proof (induction s rule: getlines.induct)
  case (1 s)
  show ?case
  proof (cases "s = []")
    case False
    let ?l = "takeWhile (\<lambda>c. c \<noteq> NL) s"
    have "getlines s = ?l # getlines (drop (Suc (length ?l)) s)"
      using False by (subst getlines.simps) (simp add: Let_def)
    moreover have "NL \<notin> set ?l" by (auto dest: set_takeWhileD)
    ultimately show ?thesis using 1 False by auto
  qed (use 1 in simp)
qed

text \<open>A file printed line by line reads back as those lines.\<close>

definition unlines :: "string list \<Rightarrow> string" where
  "unlines ls = concat (map (\<lambda>l. l @ [NL]) ls)"

lemma unlines_simps [simp]:
  "unlines [] = []" "unlines (l # ls) = l @ NL # unlines ls"
  by (simp_all add: unlines_def)

lemma getlines_unlines [str_simps]:
  "\<forall>l\<in>set ls. NL \<notin> set l \<Longrightarrow> getlines (unlines ls) = ls"
  by (induction ls) auto

text \<open>The first line, as one \<open>std::getline(f, line)\<close> leaves it.\<close>

definition first_line :: "string \<Rightarrow> string" where
  "first_line s = takeWhile (\<lambda>c. c \<noteq> NL) s"

lemma first_line_id [simp]: "NL \<notin> set s \<Longrightarrow> first_line s = s"
  unfolding first_line_def by (induction s) auto

text \<open>\<open>fgets(buf, n, f)\<close>: at most \<open>n - 1\<close> characters, up to and including a newline.\<close>

fun fgets :: "nat \<Rightarrow> string \<Rightarrow> string \<times> string" where
  "fgets 0 s = ([], s)"
| "fgets (Suc 0) s = ([], s)"
| "fgets (Suc (Suc n)) [] = ([], [])"
| "fgets (Suc (Suc n)) (c # s) =
     (if c = NL then ([c], s) else let (b, r) = fgets (Suc n) s in (c # b, r))"

lemma fgets_split: "fst (fgets n s) @ snd (fgets n s) = s"
  by (induction n s rule: fgets.induct) (auto simp: Let_def split: prod.splits)

lemma fgets_length: "length (fst (fgets n s)) \<le> n - 1"
  by (induction n s rule: fgets.induct) (auto simp: Let_def split: prod.splits)

lemma fgets_progress: "1 < n \<Longrightarrow> s \<noteq> [] \<Longrightarrow> length (snd (fgets n s)) < length s"
proof -
  assume a: "1 < n" "s \<noteq> []"
  then obtain m c t where "n = Suc (Suc m)" "s = c # t"
    by (metis less_numeral_extra(4) list.exhaust not_less_zero old.nat.exhaust One_nat_def)
  then have "fst (fgets n s) \<noteq> []" by (auto simp: Let_def split: prod.splits)
  moreover have "length s = length (fst (fgets n s)) + length (snd (fgets n s))"
    by (metis fgets_split length_append)
  ultimately show ?thesis by simp
qed

text \<open>The chunks a \<open>while (fgets(buf, n, f))\<close> loop sees, for \<open>n > 1\<close>.\<close>

function fgets_all :: "nat \<Rightarrow> string \<Rightarrow> string list" where
  "fgets_all n s = (if n \<le> 1 \<or> s = [] then []
     else fst (fgets n s) # fgets_all n (snd (fgets n s)))"
  by pat_completeness auto
termination
  by (relation "measure (\<lambda>(n, s). length s)") (auto simp: fgets_progress)

declare fgets_all.simps [simp del]

lemma fgets_all_Nil [simp]: "fgets_all n [] = []"
  by (subst fgets_all.simps) simp

lemma concat_fgets_all: "1 < n \<Longrightarrow> concat (fgets_all n s) = s"
proof (induction n s rule: fgets_all.induct)
  case (1 n s)
  show ?case
  proof (cases "s = []")
    case False
    with 1 show ?thesis
      by (subst fgets_all.simps) (simp add: fgets_split)
  qed simp
qed

section \<open>C strings and fixed-size buffers\<close>

definition cstr :: "string \<Rightarrow> string" where
  "cstr s = takeWhile (\<lambda>c. c \<noteq> NUL) s"

lemma cstr_id [simp]: "NUL \<notin> set s \<Longrightarrow> cstr s = s"
  unfolding cstr_def by (induction s) auto

lemma cstr_no_NUL [simp]: "NUL \<notin> set (cstr s)"
  unfolding cstr_def by (auto dest: set_takeWhileD)

text \<open>
  What an array of \<open>n\<close> characters holds after \<open>strncpy(buf, s, n); buf[n-1] = 0\<close> or
  \<open>snprintf(buf, n, "%s", s)\<close>.
\<close>

definition buf_copy :: "nat \<Rightarrow> string \<Rightarrow> string" where
  "buf_copy n s = take (n - 1) (cstr s)"

lemma buf_copy_fits [str_simps]: "NUL \<notin> set s \<Longrightarrow> length s < n \<Longrightarrow> buf_copy n s = s"
  by (simp add: buf_copy_def)

lemma buf_copy_length: "0 < n \<Longrightarrow> length (buf_copy n s) < n"
  by (simp add: buf_copy_def)

lemma buf_copy_no_NUL [simp]: "NUL \<notin> set (buf_copy n s)"
  unfolding buf_copy_def by (meson cstr_no_NUL in_set_takeD)

lemma buf_copy_idem [simp]: "buf_copy n (buf_copy n s) = buf_copy n s"
  by (simp add: buf_copy_def [of n "buf_copy n s"]) (simp add: buf_copy_def)

text \<open>\<open>strcasecmp(a, b) == 0\<close>, \<open>strncasecmp(a, b, n) == 0\<close>, \<open>strncmp(a, b, n) == 0\<close>.\<close>

definition strcasecmp_eq :: "string \<Rightarrow> string \<Rightarrow> bool" where
  "strcasecmp_eq a b \<longleftrightarrow> map tolower (cstr a) = map tolower (cstr b)"

definition strncasecmp_eq :: "string \<Rightarrow> string \<Rightarrow> nat \<Rightarrow> bool" where
  "strncasecmp_eq a b n \<longleftrightarrow> map tolower (take n (cstr a)) = map tolower (take n (cstr b))"

definition strncmp_eq :: "string \<Rightarrow> string \<Rightarrow> nat \<Rightarrow> bool" where
  "strncmp_eq a b n \<longleftrightarrow> take n (cstr a) = take n (cstr b)"

section \<open>Decimal numbers\<close>

definition digit_char :: "nat \<Rightarrow> char" where
  "digit_char d = char_of (48 + d)"

definition digit_val :: "char \<Rightarrow> nat" where
  "digit_val c = of_char c - 48"

fun nat_str :: "nat \<Rightarrow> string" where
  "nat_str n = (if n < 10 then [digit_char n] else nat_str (n div 10) @ [digit_char (n mod 10)])"

declare nat_str.simps [simp del]

text \<open>\<open>std::to_string\<close> on a signed integer.\<close>

definition int_str :: "int \<Rightarrow> string" where
  "int_str i = (if i < 0 then CHR ''-'' # nat_str (nat (- i)) else nat_str (nat i))"

definition digits_val :: "string \<Rightarrow> nat" where
  "digits_val ds = foldl (\<lambda>a c. 10 * a + digit_val c) 0 ds"

text \<open>The number at the head of a string, as \<open>strtol(s, 0, 10)\<close> reads it; \<open>None\<close> when there is
  no digit.\<close>

definition strtol10 :: "string \<Rightarrow> int option" where
  "strtol10 s =
     (let s1 = dropWhile isspace s;
          neg = (case s1 of [] \<Rightarrow> False | c # _ \<Rightarrow> c = CHR ''-'');
          sgned = (case s1 of [] \<Rightarrow> False | c # _ \<Rightarrow> c = CHR ''-'' \<or> c = CHR ''+'');
          ds = takeWhile isdigit (if sgned then tl s1 else s1)
      in if ds = [] then None
         else Some (if neg then - int (digits_val ds) else int (digits_val ds)))"

text \<open>\<open>std::stoi\<close>: \<open>None\<close> where it throws \<open>invalid_argument\<close> or \<open>out_of_range\<close>.\<close>

definition stoi :: "string \<Rightarrow> int option" where
  "stoi s = (case strtol10 s of None \<Rightarrow> None
     | Some i \<Rightarrow> if - (2 ^ 31) \<le> i \<and> i < 2 ^ 31 then Some i else None)"

lemma of_char_digit [simp]: "d < 10 \<Longrightarrow> of_char (digit_char d) = 48 + d"
  by (simp add: digit_char_def)

lemma digit_val_char [simp]: "d < 10 \<Longrightarrow> digit_val (digit_char d) = d"
  by (simp add: digit_val_def)

lemma isdigit_digit_char [simp]: "d < 10 \<Longrightarrow> isdigit (digit_char d)"
  by (simp add: isdigit_def)

lemma nat_str_ne [simp]: "nat_str n \<noteq> []"
  by (subst nat_str.simps) simp

lemma nat_str_digits: "c \<in> set (nat_str n) \<Longrightarrow> isdigit c"
proof (induction n rule: nat_str.induct)
  case (1 n)
  show ?case
  proof (cases "n < 10")
    case True
    with 1(2) show ?thesis by (simp add: nat_str.simps [of n])
  next
    case False
    with 1 show ?thesis by (auto simp: nat_str.simps [of n])
  qed
qed

lemma digits_val_snoc: "digits_val (ds @ [c]) = 10 * digits_val ds + digit_val c"
  by (simp add: digits_val_def)

lemma digits_val_nat_str [simp]: "digits_val (nat_str n) = n"
proof (induction n rule: nat_str.induct)
  case (1 n)
  show ?case
  proof (cases "n < 10")
    case True
    then show ?thesis by (subst nat_str.simps) (simp add: digits_val_def)
  next
    case False
    with 1 show ?thesis by (subst nat_str.simps) (simp add: digits_val_snoc)
  qed
qed

lemma isdigit_not_space: "isdigit c \<Longrightarrow> \<not> isspace c"
  by (auto simp: isdigit_def isspace_def)

lemma isdigit_not_sign: "isdigit c \<Longrightarrow> c \<noteq> CHR ''-'' \<and> c \<noteq> CHR ''+''"
  by (auto simp: isdigit_def)

lemma takeWhile_digits [simp]: "takeWhile isdigit (nat_str n) = nat_str n"
  by (simp add: nat_str_digits)

lemma nat_str_Cons: "\<exists>c t. nat_str n = c # t \<and> isdigit c"
  by (cases "nat_str n") (use nat_str_ne [of n] nat_str_digits [of _ n] in auto)

lemma strtol10_nat_str [simp]: "strtol10 (nat_str n) = Some (int n)"
proof -
  obtain c t where ct: "nat_str n = c # t" "isdigit c" using nat_str_Cons by blast
  then have c: "\<not> isspace c" "c \<noteq> CHR ''-''" "c \<noteq> CHR ''+''"
    using isdigit_not_space isdigit_not_sign by blast+
  have ds: "takeWhile isdigit (c # t) = c # t" "digits_val (c # t) = n"
    using takeWhile_digits [of n] digits_val_nat_str [of n] unfolding ct(1) by blast+
  show ?thesis
    unfolding strtol10_def Let_def ct(1) using c ds(1)
    by (simp add: ds(2) del: takeWhile_eq_all_conv)
qed

lemma strtol10_int_str: "strtol10 (int_str i) = Some i"
proof (cases "i < 0")
  case True
  have "\<not> isspace (CHR ''-'')" by (simp add: isspace_def)
  with True show ?thesis by (simp add: int_str_def strtol10_def Let_def)
next
  case False
  then show ?thesis by (simp add: int_str_def)
qed

lemma stoi_int_str: "- (2 ^ 31) \<le> i \<Longrightarrow> i < 2 ^ 31 \<Longrightarrow> stoi (int_str i) = Some i"
  by (simp add: stoi_def strtol10_int_str)

lemma nat_str_no_NL: "NL \<notin> set (nat_str n)"
  using nat_str_digits [of NL n] by (auto simp: isdigit_def)

lemma int_str_no_NL: "NL \<notin> set (int_str i)"
  by (auto simp: int_str_def nat_str_no_NL)

lemma int_str_not_star: "int_str i \<noteq> ''*''"
proof
  assume "int_str i = ''*''"
  then have "nat_str (nat i) = ''*''" by (simp add: int_str_def split: if_splits)
  then show False using nat_str_digits [of "CHR ''*''" "nat i"] by (simp add: isdigit_def)
qed

section \<open>Whitespace-separated words\<close>

text \<open>The words \<open>while (iss >> part)\<close> reads.\<close>

function ws_words :: "string \<Rightarrow> string list" where
  "ws_words s = (let t = dropWhile isspace s in
     if t = [] then []
     else takeWhile (\<lambda>c. \<not> isspace c) t # ws_words (dropWhile (\<lambda>c. \<not> isspace c) t))"
  by pat_completeness auto
termination
proof (relation "measure length", goal_cases)
  case (2 s t)
  have "length t \<le> length s" unfolding 2(1) by (rule length_dropWhile_le)
  moreover obtain c u where "t = c # u" using 2(2) by (cases t) auto
  moreover from this 2(1) have "\<not> isspace c"
    using hd_dropWhile [of isspace s] 2(2) by auto
  ultimately show ?case
    using length_dropWhile_le [of "\<lambda>c. \<not> isspace c" u] by simp
qed simp

declare ws_words.simps [simp del]

end
