(* ===== verification/Std_Map.thy ===== *)
theory Std_Map
  imports Rfc_Prelude
begin

text \<open>
  \<open>std::map<std::string, std::string>\<close> as the sources use it: the list of its entries in
  iteration order, which is the order of the keys.  The contract the users of a map rely on is
  the locale \<open>map_store\<close>; what follows from it for a sequence of insertions (the last write of a
  key wins, no key appears twice) is proved there once.
\<close>

section \<open>The contract of a map\<close>

locale map_store =
  fixes empty :: "'m"
    and put :: "'k \<Rightarrow> 'v \<Rightarrow> 'm \<Rightarrow> 'm"
    and get :: "'m \<Rightarrow> 'k \<Rightarrow> 'v option"
    and invar :: "'m \<Rightarrow> bool"
  assumes get_empty: "get empty k = None"
    and get_put: "invar m \<Longrightarrow> get (put k v m) k' = (if k' = k then Some v else get m k')"
    and invar_empty: "invar empty"
    and invar_put: "invar m \<Longrightarrow> invar (put k v m)"
begin

definition put_all :: "('k \<times> 'v) list \<Rightarrow> 'm \<Rightarrow> 'm" where
  "put_all kvs m = fold (\<lambda>(k, v). put k v) kvs m"

lemma invar_put_all: "invar m \<Longrightarrow> invar (put_all kvs m)"
  unfolding put_all_def by (induction kvs arbitrary: m) (auto intro: invar_put)

lemma get_put_all:
  "invar m \<Longrightarrow> get (put_all kvs m) k =
     (case map_of (rev kvs) k of None \<Rightarrow> get m k | Some v \<Rightarrow> Some v)"
proof (induction kvs arbitrary: m)
  case Nil
  then show ?case by (simp add: put_all_def)
next
  case (Cons p kvs)
  obtain a b where p: "p = (a, b)" by (cases p)
  have "get (put_all (p # kvs) m) k = get (put_all kvs (put a b m)) k"
    by (simp add: put_all_def p)
  also have "\<dots> = (case map_of (rev kvs) k of None \<Rightarrow> get (put a b m) k | Some v \<Rightarrow> Some v)"
    using Cons by (simp add: invar_put)
  also have "\<dots> = (case map_of (rev (p # kvs)) k of None \<Rightarrow> get m k | Some v \<Rightarrow> Some v)"
    using Cons.prems by (auto simp: p get_put map_add_def split: option.splits)
  finally show ?case .
qed

lemma get_put_all_last:
  "invar m \<Longrightarrow> k \<notin> fst ` set ys \<Longrightarrow> get (put_all (xs @ (k, v) # ys) m) k = Some v"
  by (subst get_put_all)
    (auto simp: map_add_def dest!: map_of_SomeD split: option.splits intro: rev_image_eqI)

end

section \<open>Entries in key order\<close>

type_synonym ('k, 'v) std_map = "('k \<times> 'v) list"

fun map_put :: "'k::linorder \<Rightarrow> 'v \<Rightarrow> ('k, 'v) std_map \<Rightarrow> ('k, 'v) std_map" where
  "map_put k v [] = [(k, v)]"
| "map_put k v ((a, b) # m) =
     (if k < a then (k, v) # (a, b) # m
      else if k = a then (k, v) # m
      else (a, b) # map_put k v m)"

definition map_wf :: "('k::linorder, 'v) std_map \<Rightarrow> bool" where
  "map_wf m \<longleftrightarrow> sorted_wrt (<) (map fst m)"

lemma map_put_keys [simp]: "fst ` set (map_put k v m) = insert k (fst ` set m)"
  by (induction k v m rule: map_put.induct) auto

lemma map_wf_put: "map_wf m \<Longrightarrow> map_wf (map_put k v m)"
proof (induction k v m rule: map_put.induct)
  case (2 k v a b m)
  then have m: "map_wf m" and a: "\<forall>x\<in>fst ` set m. a < x" by (simp_all add: map_wf_def)
  consider "k < a" | "k = a" | "a < k" by (rule linorder_cases)
  then show ?case
  proof cases
    case 1
    with a m show ?thesis by (auto simp: map_wf_def)
  next
    case 2
    with a m show ?thesis by (auto simp: map_wf_def)
  next
    case 3
    then have "map_put k v ((a, b) # m) = (a, b) # map_put k v m" by auto
    moreover have "map_wf (map_put k v m)" using 2 3 m by auto
    moreover have "\<forall>x\<in>fst ` set (map_put k v m). a < x" using a 3 by simp
    ultimately show ?thesis by (simp add: map_wf_def)
  qed
qed (simp add: map_wf_def)

lemma map_of_put: "map_of (map_put k v m) k' = (if k' = k then Some v else map_of m k')"
  by (induction k v m rule: map_put.induct) auto

interpretation std_map: map_store "[]" map_put map_of map_wf
  by unfold_locales (auto simp: map_of_put map_wf_put map_wf_def [of "[]"])

text \<open>\<open>m[k]\<close> inserts a default-constructed value when the key is absent.\<close>

definition map_index :: "'k::linorder \<Rightarrow> 'v \<Rightarrow> ('k, 'v) std_map \<Rightarrow> 'v \<times> ('k, 'v) std_map" where
  "map_index k d m = (case map_of m k of Some v \<Rightarrow> (v, m) | None \<Rightarrow> (d, map_put k d m))"

lemma map_index_fst: "fst (map_index k d m) = (case map_of m k of Some v \<Rightarrow> v | None \<Rightarrow> d)"
  by (auto simp: map_index_def split: option.splits)

lemma map_index_wf: "map_wf m \<Longrightarrow> map_wf (snd (map_index k d m))"
  by (auto simp: map_index_def map_wf_put split: option.splits)

lemma map_wf_distinct: "map_wf m \<Longrightarrow> distinct (map fst m)"
  unfolding map_wf_def by (induction m) auto

end
