(* ===== verification/Rfc_World.thy ===== *)
theory Rfc_World
  imports Std_Map
begin

text \<open>
  The world the programs run in.  A \<open>world\<close> holds the files, the state of everything outside the
  process (\<open>env\<close>: the tr69hostif or rbus data model, the Xconf server, the device), the
  process-wide static of rfcapi and the trace of the externally visible actions.  Code that is not
  part of the repository (cJSON, cURL, rbus, the device API, shell commands) is a field of the
  record \<open>sys\<close>, which every operation that uses such code takes as its first argument; nothing is
  assumed of these functions here, and a statement that relies on what one of them is documented to
  do says so in a hypothesis.  Platform conditionals (\<open>RDKB_SUPPORT\<close>, \<open>RDKC\<close>,
  \<open>RDKB_EXTENDER_SUPPORT\<close>) are tests of the field \<open>plat\<close>.
\<close>

section \<open>JSON values as cJSON delivers them\<close>

text \<open>
  Strings and names are the C strings of the struct's \<open>valuestring\<close> and \<open>string\<close>.
  \<open>JNumber i t\<close> is a number with the struct's \<open>valueint\<close> \<open>i\<close> whose \<open>valuedouble\<close> prints as
  \<open>t\<close> under \<open>%f\<close>.
\<close>

datatype json =
    JNull
  | JBool bool
  | JNumber int string
  | JString string
  | JArray "json list"
  | JObject "(string \<times> json) list"

fun json_children :: "json \<Rightarrow> (string option \<times> json) list" where
  "json_children (JArray xs) = map (\<lambda>x. (None, x)) xs"
| "json_children (JObject kvs) = map (\<lambda>(k, v). (Some k, v)) kvs"
| "json_children _ = []"

fun json_valuestring :: "json \<Rightarrow> string option" where
  "json_valuestring (JString s) = Some s"
| "json_valuestring _ = None"

fun json_valueint :: "json \<Rightarrow> int" where
  "json_valueint (JNumber i _) = i"
| "json_valueint (JBool True) = 1"
| "json_valueint _ = 0"

fun json_is_array :: "json \<Rightarrow> bool" where
  "json_is_array (JArray _) = True"
| "json_is_array _ = False"

section \<open>Platform, requests, effects\<close>

datatype platform = STB | RDKB | RDKB_EXTENDER | RDKC

definition is_rdkb :: "platform \<Rightarrow> bool" where
  "is_rdkb p \<longleftrightarrow> p = RDKB \<or> p = RDKB_EXTENDER"

text \<open>The guard \<open>defined(RDKB_SUPPORT) || defined(RDKC)\<close>: parameters go through rbus.\<close>

definition uses_rbus :: "platform \<Rightarrow> bool" where
  "uses_rbus p \<longleftrightarrow> is_rdkb p \<or> p = RDKC"

lemma uses_rbus_iff [simp]: "uses_rbus p \<longleftrightarrow> p \<noteq> STB"
  by (cases p) (auto simp: uses_rbus_def is_rdkb_def)

lemma is_rdkb_simps [simp]:
  "\<not> is_rdkb STB" "is_rdkb RDKB" "is_rdkb RDKB_EXTENDER" "\<not> is_rdkb RDKC"
  by (auto simp: is_rdkb_def)

datatype http_method = HttpGet | HttpPost

record http_req =
  req_method :: http_method
  req_header :: string
  req_body :: string

datatype rbus_value =
    RbString string
  | RbNullString
  | RbBool bool
  | RbInt32 int
  | RbUInt32 int
  | RbInt64 int
  | RbUInt64 int
  | RbSingle string
  | RbDouble string
  | RbOther

text \<open>The device-identity queries of the device API.\<close>

datatype device_query =
    QEstbMac | QFirmwareVersion | QBuildType | QModelNum | QMFRName | QPartnerId
  | QErouterMac | QeCMMac | QCameraMac | QCameraPartnerId

datatype build_type = eUNKNOWN | eDEV | eVBN | ePROD | eQA

text \<open>
  \<open>Telemetry m v\<close> is a run of telemetry2_0_client, \<open>System c\<close> any other command, \<open>MaintEvent\<close>
  an IARM broadcast to the maintenance manager, \<open>XconfRequest\<close> a download from the Xconf server
  with its URL and its two configset headers.
\<close>

datatype effect =
    Telemetry string string
  | System string
  | SleepSec nat
  | MaintEvent int
  | XconfRequest string string string

record 'e world =
  files :: "string \<rightharpoonup> string"
  env :: 'e
  log :: "effect list"
  http_ready :: bool

section \<open>Code outside the repository\<close>

record 'e sys =
  plat :: platform
  fopen_w :: "'e \<Rightarrow> string \<Rightarrow> bool"
  readdir :: "(string \<rightharpoonup> string) \<Rightarrow> string \<Rightarrow> string list option"
  popen_out :: "'e \<Rightarrow> string \<Rightarrow> string option"
  system_rc :: "'e \<Rightarrow> string \<Rightarrow> int"
  sleep_step :: "nat \<Rightarrow> 'e \<Rightarrow> (string \<rightharpoonup> string) \<Rightarrow> 'e \<times> (string \<rightharpoonup> string)"
  clock :: "'e \<Rightarrow> int"
  mtime :: "'e \<Rightarrow> string \<Rightarrow> int"
  curl_init :: "'e \<Rightarrow> bool"
  http :: "'e \<Rightarrow> http_req \<Rightarrow> 'e \<times> int \<times> string"
  sem_open_ok :: "'e \<Rightarrow> bool"
  unordered_iter :: "'e \<Rightarrow> (string \<times> string) list \<Rightarrow> (string \<times> string) list"
  cJSON_Parse :: "string \<Rightarrow> json option"
  cJSON_GetObjectItem :: "json \<Rightarrow> string \<Rightarrow> json option"
  cJSON_GetArraySize :: "json \<Rightarrow> nat"
  cJSON_GetArrayItem :: "json \<Rightarrow> nat \<Rightarrow> json option"
  rbus_open :: "'e \<Rightarrow> bool"
  rbus_get :: "'e \<Rightarrow> string \<Rightarrow> rbus_value option"
  rbus_set :: "'e \<Rightarrow> string \<Rightarrow> rbus_value \<Rightarrow> 'e \<times> bool"
  stof_text :: "string \<Rightarrow> string option"
  stod_text :: "string \<Rightarrow> string option"
  getDevicePropertyData :: "'e \<Rightarrow> string \<Rightarrow> nat \<Rightarrow> int \<times> string"
  device_info :: "'e \<Rightarrow> device_query \<Rightarrow> nat \<Rightarrow> nat \<times> string"
  device_build :: "'e \<Rightarrow> build_type"
  alloc_ok :: "'e \<Rightarrow> nat \<Rightarrow> bool"
  xconf_download :: "'e \<Rightarrow> string \<Rightarrow> string \<Rightarrow> string \<Rightarrow> 'e \<times> int \<times> int \<times> string \<times> string"
  jsonrpc :: "'e \<Rightarrow> string \<Rightarrow> string option"
  urlEncodeString :: "string \<Rightarrow> string option"
  camera_account_hash :: "'e \<Rightarrow> string"
  camera_reboot :: "string \<Rightarrow> string list \<Rightarrow> string \<Rightarrow> string \<Rightarrow> bool"

section \<open>Files and actions\<close>

definition file_present :: "string \<Rightarrow> ('e, 'z) world_scheme \<Rightarrow> bool" where
  "file_present path w \<longleftrightarrow> files w path \<noteq> None"

text \<open>A file opened for writing, written and closed; nothing happens when it cannot be opened.\<close>

definition write_file :: "'e sys \<Rightarrow> string \<Rightarrow> string \<Rightarrow> ('e, 'z) world_scheme \<Rightarrow> ('e, 'z) world_scheme" where
  "write_file S path content w =
     (if fopen_w S (env w) path then w\<lparr>files := (files w)(path \<mapsto> content)\<rparr> else w)"

definition append_file :: "'e sys \<Rightarrow> string \<Rightarrow> string \<Rightarrow> ('e, 'z) world_scheme \<Rightarrow> ('e, 'z) world_scheme" where
  "append_file S path content w =
     write_file S path ((case files w path of None \<Rightarrow> [] | Some old \<Rightarrow> old) @ content) w"

definition remove_file :: "string \<Rightarrow> ('e, 'z) world_scheme \<Rightarrow> ('e, 'z) world_scheme" where
  "remove_file path w = w\<lparr>files := (files w)(path := None)\<rparr>"

definition emit :: "effect \<Rightarrow> ('e, 'z) world_scheme \<Rightarrow> ('e, 'z) world_scheme" where
  "emit a w = w\<lparr>log := log w @ [a]\<rparr>"

text \<open>While the process sleeps the outside moves on and may change any file.\<close>

definition do_sleep :: "'e sys \<Rightarrow> nat \<Rightarrow> ('e, 'z) world_scheme \<Rightarrow> ('e, 'z) world_scheme" where
  "do_sleep S n w =
     (let (e, f) = sleep_step S n (env w) (files w)
      in emit (SleepSec n) (w\<lparr>env := e, files := f\<rparr>))"

definition do_system :: "'e sys \<Rightarrow> string \<Rightarrow> ('e, 'z) world_scheme \<Rightarrow> int \<times> ('e, 'z) world_scheme" where
  "do_system S c w = (system_rc S (env w) c, emit (System c) w)"

lemma write_file_simps [simp, frame_simps]:
  "env (write_file S p c w) = env w" "log (write_file S p c w) = log w"
  "http_ready (write_file S p c w) = http_ready w" "world.more (write_file S p c w) = world.more w"
  by (simp_all add: write_file_def)

lemma append_file_simps [simp, frame_simps]:
  "env (append_file S p c w) = env w" "log (append_file S p c w) = log w"
  "http_ready (append_file S p c w) = http_ready w" "world.more (append_file S p c w) = world.more w"
  by (simp_all add: append_file_def)

lemma write_file_files:
  "files (write_file S p c w) = (if fopen_w S (env w) p then (files w)(p \<mapsto> c) else files w)"
  by (simp add: write_file_def)

lemma write_file_other [simp]: "q \<noteq> p \<Longrightarrow> files (write_file S p c w) q = files w q"
  by (simp add: write_file_files)

lemma append_file_other [simp]: "q \<noteq> p \<Longrightarrow> files (append_file S p c w) q = files w q"
  by (simp add: append_file_def)

lemma emit_simps [simp, frame_simps]:
  "env (emit a w) = env w" "files (emit a w) = files w" "log (emit a w) = log w @ [a]"
  "http_ready (emit a w) = http_ready w" "world.more (emit a w) = world.more w"
  by (simp_all add: emit_def)

lemma remove_file_simps [simp, frame_simps]:
  "env (remove_file p w) = env w" "log (remove_file p w) = log w"
  "http_ready (remove_file p w) = http_ready w" "world.more (remove_file p w) = world.more w"
  "files (remove_file p w) = (files w)(p := None)"
  by (simp_all add: remove_file_def)

lemma do_sleep_simps [simp, frame_simps]:
  "log (do_sleep S n w) = log w @ [SleepSec n]" "http_ready (do_sleep S n w) = http_ready w"
  "world.more (do_sleep S n w) = world.more w"
  "env (do_sleep S n w) = fst (sleep_step S n (env w) (files w))"
  "files (do_sleep S n w) = snd (sleep_step S n (env w) (files w))"
  by (simp_all add: do_sleep_def split: prod.splits)

section \<open>A reference outside\<close>

text \<open>
  One concrete outside, on which the hypotheses of the statements below can be evaluated: every
  file can be written, JSON access behaves as the cJSON documentation says, the data model is the
  association of parameter names with values, and the Xconf server answers from a queue.
\<close>

record refenv =
  re_params :: "(string \<times> string) list"
  re_replies :: "(int \<times> int \<times> string \<times> string) list"
  re_now :: int
  re_props :: "(string \<times> string) list"

definition ref_json_item :: "json \<Rightarrow> string \<Rightarrow> json option" where
  "ref_json_item j k = (case j of
       JObject kvs \<Rightarrow> map_of (map (\<lambda>(a, v). (map tolower a, v)) kvs) (map tolower k)
     | _ \<Rightarrow> None)"

definition ref_array_size :: "json \<Rightarrow> nat" where
  "ref_array_size j = length (json_children j)"

definition ref_array_item :: "json \<Rightarrow> nat \<Rightarrow> json option" where
  "ref_array_item j i =
     (if i < length (json_children j) then Some (snd (json_children j ! i)) else None)"

definition ref_download ::
    "refenv \<Rightarrow> string \<Rightarrow> string \<Rightarrow> string \<Rightarrow> refenv \<times> int \<times> int \<times> string \<times> string" where
  "ref_download e url h t = (case re_replies e of
       [] \<Rightarrow> (e, 28, 0, [], [])
     | r # rs \<Rightarrow> (e\<lparr>re_replies := rs\<rparr>, r))"

definition ref_sys :: "platform \<Rightarrow> (string \<Rightarrow> json option) \<Rightarrow> refenv sys" where
  "ref_sys p parse = \<lparr>
     plat = p,
     fopen_w = (\<lambda>_ _. True),
     readdir = (\<lambda>_ _. Some []),
     popen_out = (\<lambda>_ _. None),
     system_rc = (\<lambda>_ _. 0),
     sleep_step = (\<lambda>_ e f. (e, f)),
     clock = re_now,
     mtime = (\<lambda>_ _. 0),
     curl_init = (\<lambda>_. True),
     http = (\<lambda>e _. (e, 7, [])),
     sem_open_ok = (\<lambda>_. True),
     unordered_iter = (\<lambda>_. rev),
     cJSON_Parse = parse,
     cJSON_GetObjectItem = ref_json_item,
     cJSON_GetArraySize = ref_array_size,
     cJSON_GetArrayItem = ref_array_item,
     rbus_open = (\<lambda>_. True),
     rbus_get = (\<lambda>e k. map_option RbString (map_of (re_params e) k)),
     rbus_set = (\<lambda>e k v. (case v of
         RbString s \<Rightarrow> (e\<lparr>re_params := (k, s) # re_params e\<rparr>, True) | _ \<Rightarrow> (e, False))),
     stof_text = (\<lambda>_. None),
     stod_text = (\<lambda>_. None),
     getDevicePropertyData = (\<lambda>e k n. (case map_of (re_props e) k of
         None \<Rightarrow> (0, []) | Some v \<Rightarrow> (1, buf_copy n v))),
     device_info = (\<lambda>_ _ _. (0, [])),
     device_build = (\<lambda>_. ePROD),
     alloc_ok = (\<lambda>_ _. True),
     xconf_download = ref_download,
     jsonrpc = (\<lambda>_ _. None),
     urlEncodeString = Some,
     camera_account_hash = (\<lambda>_. []),
     camera_reboot = (\<lambda>_ _ _ _. False) \<rparr>"

definition ref_env0 :: refenv where
  "ref_env0 = \<lparr>re_params = [], re_replies = [], re_now = 0, re_props = []\<rparr>"

definition ref_world :: "refenv world" where
  "ref_world = \<lparr>files = Map.empty, env = ref_env0, log = [], http_ready = False\<rparr>"

abbreviation ref_stb :: "refenv sys" where
  "ref_stb \<equiv> ref_sys STB (\<lambda>_. None)"

end
