(* ===== verification/Ini_File.thy ===== *)
theory Ini_File
  imports Rfc_World
begin

text \<open>
  The \<open>key=value\<close> files of the repository.  rfcapi and tr181api each scan such a file line by line
  for the first line with a given key; they differ in how a line is taken apart.  The contract
  between a writer and a reader of such a file is the locale \<open>ini_format\<close>: if the reader's
  \<open>entry\<close> takes apart what the writer's \<open>render\<close> printed, then looking a key up in a printed
  file is looking it up in the printed association.
\<close>

section \<open>Taking lines apart\<close>

text \<open>\<open>find('=')\<close>, \<open>substr(0, pos)\<close>, \<open>substr(pos + 1, length)\<close>.\<close>

definition split_eq :: "string \<Rightarrow> (string \<times> string) option" where
  "split_eq line = (case find_idx (\<lambda>c. c = CHR ''='') line of
       None \<Rightarrow> None
     | Some i \<Rightarrow> Some (take i line, drop (Suc i) line))"

text \<open>\<open>line.substr(line.find_first_of(" \t") + 1)\<close>; when there is no blank \<open>npos + 1\<close> is 0.\<close>

definition drop_word :: "string \<Rightarrow> string" where
  "drop_word line = (case find_idx (\<lambda>c. c = CHR '' '' \<or> c = TAB) line of
       None \<Rightarrow> line
     | Some i \<Rightarrow> drop (Suc i) line)"

text \<open>The loop of the \<open>getValue\<close> functions: the value of the first line with the key.\<close>

fun ini_lookup ::
    "(string \<Rightarrow> (string \<times> string) option) \<Rightarrow> string \<Rightarrow> string list \<Rightarrow> string option" where
  "ini_lookup entry key [] = None"
| "ini_lookup entry key (l # ls) = (case entry l of
       None \<Rightarrow> ini_lookup entry key ls
     | Some (k, v) \<Rightarrow> if k = key then Some v else ini_lookup entry key ls)"

lemma split_eq_render [str_simps]: "CHR ''='' \<notin> set k \<Longrightarrow> split_eq (k @ CHR ''='' # v) = Some (k, v)"
  by (auto simp: split_eq_def str_simps)

lemma split_eq_SomeD: "split_eq l = Some (k, v) \<Longrightarrow> l = k @ CHR ''='' # v \<and> CHR ''='' \<notin> set k"
proof -
  assume "split_eq l = Some (k, v)"
  then obtain i where i: "find_idx (\<lambda>c. c = CHR ''='') l = Some i" "k = take i l" "v = drop (Suc i) l"
    by (auto simp: split_eq_def split: option.splits)
  from find_idx_Some [OF i(1)] have "i < length l" "l ! i = CHR ''=''" "\<forall>j<i. l ! j \<noteq> CHR ''=''"
    by auto
  with i show ?thesis by (auto simp: id_take_nth_drop [symmetric] in_set_conv_nth)
      (metis id_take_nth_drop)
qed

lemma drop_word_no_blank: "CHR '' '' \<notin> set l \<Longrightarrow> TAB \<notin> set l \<Longrightarrow> drop_word l = l"
proof -
  assume "CHR '' '' \<notin> set l" "TAB \<notin> set l"
  then have "find_idx (\<lambda>c. c = CHR '' '' \<or> c = TAB) l = None" by (auto simp: find_idx_None)
  then show ?thesis by (simp add: drop_word_def)
qed

lemma drop_word_word:
  "CHR '' '' \<notin> set w \<Longrightarrow> TAB \<notin> set w \<Longrightarrow> drop_word (w @ CHR '' '' # l) = l"
  by (subst drop_word_def, subst find_idx_append_Cons) auto

lemma ini_lookup_None_iff:
  "(ini_lookup entry key ls = None) = (\<forall>l\<in>set ls. \<forall>v. entry l \<noteq> Some (key, v))"
  by (induction ls) (auto split: option.splits)

lemma ini_lookup_first:
  "ini_lookup entry key ls = Some v \<Longrightarrow>
     \<exists>xs l ys. ls = xs @ l # ys \<and> entry l = Some (key, v) \<and> ini_lookup entry key xs = None"
proof (induction ls)
  case (Cons a ls)
  show ?case
  proof (cases "\<exists>v. entry a = Some (key, v)")
    case True
    with Cons.prems have "entry a = Some (key, v)" by auto
    then have "a # ls = [] @ a # ls \<and> entry a = Some (key, v) \<and> ini_lookup entry key [] = None"
      by simp
    then show ?thesis by blast
  next
    case False
    with Cons.prems have "ini_lookup entry key ls = Some v" by (auto split: option.splits if_splits)
    then obtain xs l ys where *: "ls = xs @ l # ys" "entry l = Some (key, v)"
        "ini_lookup entry key xs = None"
      using Cons.IH by blast
    then have "a # ls = (a # xs) @ l # ys" "ini_lookup entry key (a # xs) = None"
      using False by (auto split: option.splits)
    with *(2) show ?thesis by blast
  qed
qed simp

section \<open>Writers and readers\<close>

locale ini_format =
  fixes entry :: "string \<Rightarrow> (string \<times> string) option"
    and render :: "string \<Rightarrow> string \<Rightarrow> string"
    and ok :: "string \<Rightarrow> string \<Rightarrow> bool"
  assumes entry_render: "ok k v \<Longrightarrow> entry (render k v) = Some (k, v)"
    and render_line: "ok k v \<Longrightarrow> NL \<notin> set (render k v)"
begin

definition printed :: "(string \<times> string) list \<Rightarrow> string" where
  "printed kvs = unlines (map (\<lambda>(k, v). render k v) kvs)"

lemma getlines_printed:
  "\<forall>(k, v)\<in>set kvs. ok k v \<Longrightarrow> getlines (printed kvs) = map (\<lambda>(k, v). render k v) kvs"
  unfolding printed_def by (rule getlines_unlines) (auto dest: render_line)

lemma lookup_printed:
  "\<forall>(k, v)\<in>set kvs. ok k v \<Longrightarrow> ini_lookup entry key (getlines (printed kvs)) = map_of kvs key"
proof (induction kvs)
  case Nil
  then show ?case by (simp add: printed_def)
next
  case (Cons p kvs)
  obtain k v where p: "p = (k, v)" by (cases p)
  from Cons.prems have ok: "ok k v" "\<forall>(k, v)\<in>set kvs. ok k v" by (auto simp: p)
  have "getlines (printed (p # kvs)) = render k v # getlines (printed kvs)"
    using getlines_printed [OF Cons.prems] getlines_printed [OF ok(2)] by (simp add: p)
  with Cons.IH [OF ok(2)] entry_render [OF ok(1)] show ?case by (simp add: p)
qed

lemma entries_printed:
  "\<forall>(k, v)\<in>set kvs. ok k v \<Longrightarrow> List.map_filter entry (getlines (printed kvs)) = kvs"
  by (subst getlines_printed, assumption, induction kvs)
    (auto simp: List.map_filter_def entry_render)

end

text \<open>The line \<open>k=v\<close> read by a plain split (tr181api), by rfcapi's scanner, and the line
  \<open>export k=v\<close> read by rfcapi's scanner.\<close>

definition rfc_entry :: "string \<Rightarrow> (string \<times> string) option" where
  "rfc_entry line = split_eq (drop_word line)"

definition render_plain :: "string \<Rightarrow> string \<Rightarrow> string" where
  "render_plain k v = k @ CHR ''='' # v"

definition render_export :: "string \<Rightarrow> string \<Rightarrow> string" where
  "render_export k v = ''export '' @ k @ CHR ''='' # v"

definition key_ok :: "string \<Rightarrow> bool" where
  "key_ok k \<longleftrightarrow> CHR ''='' \<notin> set k \<and> NL \<notin> set k"

definition no_blank :: "string \<Rightarrow> bool" where
  "no_blank s \<longleftrightarrow> CHR '' '' \<notin> set s \<and> TAB \<notin> set s"

interpretation plain_ini: ini_format split_eq render_plain "\<lambda>k v. key_ok k \<and> NL \<notin> set v"
  by unfold_locales (auto simp: render_plain_def key_ok_def split_eq_render)

interpretation rfc_ini: ini_format rfc_entry render_plain
    "\<lambda>k v. key_ok k \<and> NL \<notin> set v \<and> no_blank k \<and> no_blank v"
  by unfold_locales
    (auto simp: render_plain_def rfc_entry_def key_ok_def no_blank_def drop_word_no_blank split_eq_render)

lemma rfc_entry_export: "CHR ''='' \<notin> set k \<Longrightarrow> rfc_entry (render_export k v) = Some (k, v)"
  using drop_word_word [of "''export''" "k @ CHR ''='' # v"]
  by (simp add: rfc_entry_def render_export_def split_eq_render)

interpretation export_ini: ini_format rfc_entry render_export "\<lambda>k v. key_ok k \<and> NL \<notin> set v"
  by unfold_locales (simp_all add: rfc_entry_export key_ok_def, simp add: render_export_def)

end
