(* ===== verification/Rfc_Api.thy ===== *)
theory Rfc_Api
  imports Ini_File
begin

text \<open>
  rfcapi/rfcapi.cpp: reading and writing RFC parameters.  On a set-top box parameters are served
  by tr69hostif over HTTP and, before that service is up, from the ini files; the broadband and
  camera builds read the ini files only.  Shown here: what a file scan returns, in which order the
  files are searched and that the first file with a usable value wins, that the parameter record
  never holds more than its arrays, and how the answers of the service are turned into results.
\<close>

section \<open>Codes and paths\<close>

type_synonym wdmp_status = int
type_synonym data_type = int

abbreviation "WDMP_SUCCESS \<equiv> (0::wdmp_status)"
abbreviation "WDMP_FAILURE \<equiv> (1::wdmp_status)"
abbreviation "WDMP_ERR_VALUE_IS_EMPTY \<equiv> (22::wdmp_status)"
abbreviation "WDMP_ERR_DEFAULT_VALUE \<equiv> (38::wdmp_status)"

abbreviation "WDMP_STRING \<equiv> (0::data_type)"
abbreviation "WDMP_INT \<equiv> (1::data_type)"
abbreviation "WDMP_BOOLEAN \<equiv> (3::data_type)"
abbreviation "WDMP_NONE \<equiv> (11::data_type)"

abbreviation "CURLE_OK \<equiv> (0::int)"
abbreviation "CURLE_FAILED_INIT \<equiv> (2::int)"

named_theorems path_defs \<open>file names and parameter names\<close>

definition RFCVAR_FILE :: string where
  [path_defs]: "RFCVAR_FILE = ''/opt/secure/RFC/rfcVariable.ini''"
definition TR181STORE_FILE :: string where
  [path_defs]: "TR181STORE_FILE = ''/opt/secure/RFC/tr181store.ini''"
definition BOOTSTRAP_FILE :: string where
  [path_defs]: "BOOTSTRAP_FILE = ''/opt/secure/RFC/bootstrap.ini''"
definition RFCDEFAULTS_FILE :: string where
  [path_defs]: "RFCDEFAULTS_FILE = ''/tmp/rfcdefaults.ini''"
definition RFCDEFAULTS_ETC_DIR :: string where
  [path_defs]: "RFCDEFAULTS_ETC_DIR = ''/etc/rfcdefaults/''"
definition RFC_FEATURE_DIR :: string where
  [path_defs]: "RFC_FEATURE_DIR = ''/opt/secure/RFC/''"
definition HTTP_READY_FILE :: string where
  [path_defs]: "HTTP_READY_FILE = ''/tmp/.tr69hostif_http_server_ready''"

definition MAX_PARAM_LEN :: nat where
  "MAX_PARAM_LEN = 2 * 1024"

record RFC_ParamData =
  prm_name :: string
  prm_value :: string
  prm_type :: data_type

definition param0 :: RFC_ParamData where
  "param0 = \<lparr>prm_name = [], prm_value = [], prm_type = 0\<rparr>"

section \<open>The combined defaults file\<close>

text \<open>
  Copying the directory's ini files.  Inserting an empty stream buffer into an output stream sets
  its fail bit, after which nothing more is written; the first component of the pair is the
  stream's state.
\<close>

fun combine_inis :: "(string \<rightharpoonup> string) \<Rightarrow> string list \<Rightarrow> bool \<times> string \<Rightarrow> bool \<times> string" where
  "combine_inis fs [] acc = acc"
| "combine_inis fs (d # ds) (good, out) =
     (if \<not> str_contains d ''.ini'' then combine_inis fs ds (good, out)
      else if \<not> good then combine_inis fs ds (good, out)
      else case fs (RFCDEFAULTS_ETC_DIR @ d) of
             None \<Rightarrow> combine_inis fs ds (False, out)
           | Some c \<Rightarrow> if c = [] then combine_inis fs ds (False, out)
                       else combine_inis fs ds (True, out @ c @ [NL]))"

definition init_rfcdefaults :: "'e sys \<Rightarrow> ('e, 'z) world_scheme \<Rightarrow> bool \<times> ('e, 'z) world_scheme" where
  "init_rfcdefaults S w = (case readdir S (files w) RFCDEFAULTS_ETC_DIR of
       None \<Rightarrow> (False, w)
     | Some ents \<Rightarrow>
         (True, write_file S RFCDEFAULTS_FILE (snd (combine_inis (files w) ents (True, []))) w))"

section \<open>Looking a parameter up in a file\<close>

datatype ini_result = IniFound string | IniEmpty | IniFailed

text \<open>
  The body shared by the two \<open>getValue\<close> functions: open the file (creating the combined defaults
  file when that is the one missing), scan it, and tell a found value from an empty one.
\<close>

definition open_ini ::
    "'e sys \<Rightarrow> string \<Rightarrow> ('e, 'z) world_scheme \<Rightarrow> string option \<times> ('e, 'z) world_scheme" where
  "open_ini S fileName w = (case files w fileName of
       Some c \<Rightarrow> (Some c, w)
     | None \<Rightarrow>
         if fileName = RFCDEFAULTS_FILE
         then (let (created, w') = init_rfcdefaults S w
               in if created then (files w' RFCDEFAULTS_FILE, w') else (None, w'))
         else (None, w))"

definition scan_ini :: "string \<Rightarrow> string \<Rightarrow> ini_result" where
  "scan_ini pname content = (case ini_lookup rfc_entry pname (getlines content) of
       None \<Rightarrow> IniFailed
     | Some v \<Rightarrow> if 0 < length v then IniFound v else IniEmpty)"

definition getValue_scan ::
    "'e sys \<Rightarrow> string \<Rightarrow> string \<Rightarrow> ('e, 'z) world_scheme \<Rightarrow> ini_result \<times> ('e, 'z) world_scheme" where
  "getValue_scan S fileName pname w = (case open_ini S fileName w of
       (None, w') \<Rightarrow> (IniFailed, w')
     | (Some c, w') \<Rightarrow> (scan_ini pname c, w'))"

definition fill_param :: "string \<Rightarrow> string \<Rightarrow> data_type \<Rightarrow> RFC_ParamData \<Rightarrow> RFC_ParamData" where
  "fill_param pname v t prm =
     prm\<lparr>prm_name := buf_copy MAX_PARAM_LEN pname, prm_type := t, prm_value := buf_copy MAX_PARAM_LEN v\<rparr>"

text \<open>\<open>getValue\<close> of the WDMP build.\<close>

definition getValue ::
    "'e sys \<Rightarrow> string \<Rightarrow> string \<Rightarrow> RFC_ParamData \<Rightarrow> ('e, 'z) world_scheme
       \<Rightarrow> wdmp_status \<times> RFC_ParamData \<times> ('e, 'z) world_scheme" where
  "getValue S fileName pname prm w = (case getValue_scan S fileName pname w of
       (IniFound v, w') \<Rightarrow> (WDMP_SUCCESS, fill_param pname v WDMP_NONE prm, w')
     | (IniEmpty, w') \<Rightarrow> (WDMP_ERR_VALUE_IS_EMPTY, prm, w')
     | (IniFailed, w') \<Rightarrow> (WDMP_FAILURE, prm, w'))"

text \<open>\<open>getValue\<close> of the RDKB and RDKC builds: \<open>SUCCESS\<close> 0, \<open>FAILURE\<close> 1, \<open>NONE\<close> 2, \<open>EMPTY\<close> 3.\<close>

definition getValue_b ::
    "'e sys \<Rightarrow> string \<Rightarrow> string \<Rightarrow> RFC_ParamData \<Rightarrow> ('e, 'z) world_scheme
       \<Rightarrow> int \<times> RFC_ParamData \<times> ('e, 'z) world_scheme" where
  "getValue_b S fileName pname prm w = (case getValue_scan S fileName pname w of
       (IniFound v, w') \<Rightarrow> (0, fill_param pname v 2 prm, w')
     | (IniEmpty, w') \<Rightarrow> (3, prm, w')
     | (IniFailed, w') \<Rightarrow> (1, prm, w'))"

section \<open>Parameters over HTTP\<close>

definition caller_header :: "string option \<Rightarrow> string" where
  "caller_header caller = (case caller of
       Some c \<Rightarrow> buf_copy 128 (''CallerID: '' @ c)
     | None \<Rightarrow> ''CallerID: Unknown'')"

text \<open>One element of the answer's \<open>parameters\<close> array.\<close>

definition apply_subitem :: "'e sys \<Rightarrow> json option \<Rightarrow> RFC_ParamData \<Rightarrow> RFC_ParamData res" where
  "apply_subitem S sub prm =
     (let item = (\<lambda>k. case sub of None \<Rightarrow> None | Some j \<Rightarrow> cJSON_GetObjectItem S j k) in
      rbind (case item ''name'' of None \<Rightarrow> Inr prm
               | Some n \<Rightarrow> (case json_valuestring n of None \<Rightarrow> Inl NullDereference
                   | Some s \<Rightarrow> Inr (prm\<lparr>prm_name := buf_copy MAX_PARAM_LEN s\<rparr>)))
      (\<lambda>p1. let p2 = (case item ''dataType'' of None \<Rightarrow> p1
                        | Some t \<Rightarrow> p1\<lparr>prm_type := json_valueint t\<rparr>) in
       case item ''value'' of None \<Rightarrow> Inr p2
         | Some v \<Rightarrow> (case json_valuestring v of None \<Rightarrow> Inl NullDereference
             | Some s \<Rightarrow> Inr (p2\<lparr>prm_value := buf_copy MAX_PARAM_LEN s\<rparr>))))"

fun apply_items :: "'e sys \<Rightarrow> json \<Rightarrow> nat list \<Rightarrow> RFC_ParamData \<Rightarrow> RFC_ParamData res" where
  "apply_items S items [] prm = Inr prm"
| "apply_items S items (i # is) prm =
     rbind (apply_subitem S (cJSON_GetArrayItem S items i) prm) (apply_items S items is)"

definition response_status :: "'e sys \<Rightarrow> json \<Rightarrow> wdmp_status" where
  "response_status S j = (case cJSON_GetObjectItem S j ''statusCode'' of
       None \<Rightarrow> WDMP_FAILURE | Some c \<Rightarrow> json_valueint c)"

definition get_response ::
    "'e sys \<Rightarrow> string \<Rightarrow> RFC_ParamData \<Rightarrow> (wdmp_status \<times> RFC_ParamData) res" where
  "get_response S response prm = (case cJSON_Parse S (cstr response) of
       None \<Rightarrow> Inr (WDMP_FAILURE, prm)
     | Some j \<Rightarrow>
         rbind (case cJSON_GetObjectItem S j ''parameters'' of
                  None \<Rightarrow> Inr prm
                | Some items \<Rightarrow> apply_items S items [0..<cJSON_GetArraySize S items] prm)
           (\<lambda>p. Inr (response_status S j, p)))"

text \<open>The request itself: \<open>res\<close> stays \<open>CURLE_FAILED_INIT\<close> when no handle is available.\<close>

definition hostif_request ::
    "'e sys \<Rightarrow> http_method \<Rightarrow> string option \<Rightarrow> string \<Rightarrow> ('e, 'z) world_scheme
       \<Rightarrow> int \<times> string \<times> ('e, 'z) world_scheme" where
  "hostif_request S meth caller data w =
     (if curl_init S (env w)
      then (let (e, rc, body) = http S (env w)
                  \<lparr>req_method = meth, req_header = caller_header caller, req_body = data\<rparr>
            in (rc, body, w\<lparr>env := e\<rparr>))
      else (CURLE_FAILED_INIT, [], w))"

definition get_request_body :: "string \<Rightarrow> string" where
  "get_request_body pname = CHR ''{'' # DQ # ''names'' @ DQ # '' : ['' @ DQ # pname @ DQ # '']}''"

definition set_request_body :: "string \<Rightarrow> string \<Rightarrow> data_type \<Rightarrow> string" where
  "set_request_body pname v t =
     CHR ''{'' # DQ # ''parameters'' @ DQ # '' : [{'' @ DQ # ''name'' @ DQ # '':'' @ DQ # pname @
     DQ # '','' @ DQ # ''value'' @ DQ # '':'' @ DQ # v @ DQ # '','' @ DQ # ''dataType'' @ DQ # '':'' @
     int_str t @ ''}]}''"

text \<open>Before the service is up: shell variables from rfcVariable.ini, everything else from the
  override store, then bootstrap.ini, then the defaults.\<close>

definition is_rfc_variable :: "string \<Rightarrow> bool" where
  "is_rfc_variable pname \<longleftrightarrow> strncmp_eq pname ''RFC_'' 4 \<and> CHR ''.'' \<notin> set pname"

definition get_from_files ::
    "'e sys \<Rightarrow> string \<Rightarrow> RFC_ParamData \<Rightarrow> ('e, 'z) world_scheme
       \<Rightarrow> wdmp_status \<times> RFC_ParamData \<times> ('e, 'z) world_scheme" where
  "get_from_files S pname prm w =
     (if is_rfc_variable pname then getValue S RFCVAR_FILE pname prm w
      else
        let (r1, p1, w1) = getValue S TR181STORE_FILE pname prm w in
        if r1 = WDMP_SUCCESS then (WDMP_SUCCESS, p1, w1)
        else
          let (r2, p2, w2) = getValue S BOOTSTRAP_FILE pname p1 w1 in
          if r2 = WDMP_SUCCESS then (WDMP_SUCCESS, p2, w2)
          else getValue S RFCDEFAULTS_FILE pname p2 w2)"

definition is_wildcard :: "string \<Rightarrow> bool" where
  "is_wildcard pname \<longleftrightarrow> pname \<noteq> [] \<and> last pname = CHR ''.''"

text \<open>The read of the last character is out of range for an empty name.\<close>

definition getRFCParameter ::
    "'e sys \<Rightarrow> string option \<Rightarrow> string \<Rightarrow> RFC_ParamData \<Rightarrow> ('e, 'z) world_scheme
       \<Rightarrow> (wdmp_status \<times> RFC_ParamData \<times> ('e, 'z) world_scheme) res" where
  "getRFCParameter S caller pname prm w =
     (if pname = [] then Inl OutOfBounds
      else if is_wildcard pname then Inr (WDMP_FAILURE, prm, w)
      else if \<not> http_ready w \<and> \<not> file_present HTTP_READY_FILE w
      then Inr (get_from_files S pname prm w)
      else
        let (rc, response, w1) = hostif_request S HttpGet caller (get_request_body pname)
                                   (w\<lparr>http_ready := True\<rparr>) in
        if rc = CURLE_OK
        then rbind (get_response S response prm) (\<lambda>(st, p). Inr (st, p, w1))
        else Inr (WDMP_FAILURE, prm, w1))"

definition setRFCParameter ::
    "'e sys \<Rightarrow> string option \<Rightarrow> string \<Rightarrow> string option \<Rightarrow> data_type \<Rightarrow> ('e, 'z) world_scheme
       \<Rightarrow> (wdmp_status \<times> ('e, 'z) world_scheme) res" where
  "setRFCParameter S caller pname pvalue t w =
     (if pname = [] then Inl OutOfBounds
      else if is_wildcard pname \<and> pvalue = None then Inr (WDMP_FAILURE, w)
      else case pvalue of None \<Rightarrow> Inl NullDereference
        | Some v \<Rightarrow>
          let (rc, response, w1) = hostif_request S HttpPost caller (set_request_body pname v t) w in
          if rc = CURLE_OK
          then (case cJSON_Parse S (cstr response) of
                  None \<Rightarrow> Inr (WDMP_FAILURE, w1)
                | Some j \<Rightarrow> Inr (response_status S j, w1))
          else Inr (WDMP_FAILURE, w1))"

text \<open>\<open>getRFCParameter\<close> of the RDKB and RDKC builds; a wildcard name is only logged.\<close>

definition getRFCParameter_b ::
    "'e sys \<Rightarrow> string \<Rightarrow> RFC_ParamData \<Rightarrow> ('e, 'z) world_scheme
       \<Rightarrow> (int \<times> RFC_ParamData \<times> ('e, 'z) world_scheme) res" where
  "getRFCParameter_b S pname prm w =
     (if pname = [] then Inl OutOfBounds
      else if is_rfc_variable pname then Inr (getValue_b S RFCVAR_FILE pname prm w)
      else
        let (r1, p1, w1) = getValue_b S TR181STORE_FILE pname prm w in
        if r1 = 0 then Inr (0, p1, w1)
        else Inr (getValue_b S RFCDEFAULTS_FILE pname p1 w1))"

definition isRFCEnabled :: "string \<Rightarrow> ('e, 'z) world_scheme \<Rightarrow> bool" where
  "isRFCEnabled feature w = file_present (RFC_FEATURE_DIR @ ''.RFC_'' @ feature @ ''.ini'') w"

definition rfc_error_strings :: "(wdmp_status \<times> string) list" where
  "rfc_error_strings =
    [(0, '' Success''), (1, '' Request Failed''), (2, '' Request Timeout''),
     (4, '' Invalid Parameter Name''), (5, '' Invalid Parameter Type''),
     (6, '' Invalid Parameter Value''), (7, '' Not writable''), (8, '' SetAttribute Rejected''),
     (10, '' Namespace Overlap''), (11, '' Unknown Component''), (12, '' Namespace Mismatch''),
     (13, '' Unsupported Namespace''), (14, '' Component Version Mismatch''),
     (15, '' Invalid Param''), (16, '' Unsupported Datatype''), (17, '' Resources''),
     (18, '' Wifi Busy''), (19, '' Invalid Attributes''), (20, '' Wildcard Not Supported''),
     (21, '' Set of CMC or CID Not Supported''), (22, '' Value is Empty''), (23, '' Value is Null''),
     (24, '' Datatype is Null''), (25, '' CMC Test Failed''), (26, '' New CID is Missing''),
     (27, '' CID Test Failed''), (28, '' Setting CMC or CID''), (29, '' Invalid Input Parameter''),
     (30, '' Attributes is Null''), (31, '' Notify is Null''), (32, '' Invalid Wifi Index''),
     (33, '' Invalid Radio Index''), (34, '' Atomic Get Set Failed''),
     (35, '' Method Not Supported''), (37, '' Internal Error''), (38, '' Default Value'')]"

definition getRFCErrorString :: "wdmp_status \<Rightarrow> string" where
  "getRFCErrorString code = (case map_of rfc_error_strings code of
       None \<Rightarrow> '' Unknown error code'' | Some s \<Rightarrow> s)"

section \<open>The combined defaults file\<close>

lemma combine_inis_stopped: "combine_inis fs ds (False, out) = (False, out)"
  by (induction ds) auto

lemma combine_inis_append:
  "combine_inis fs (ds @ es) acc = combine_inis fs es (combine_inis fs ds acc)"
  by (induction fs ds acc rule: combine_inis.induct) (auto split: option.splits)

lemma combine_inis_upto:
  "snd (combine_inis fs ds (True, out)) =
     out @ concat (map (\<lambda>d. the (fs (RFCDEFAULTS_ETC_DIR @ d)) @ [NL])
       (takeWhile (\<lambda>d. fs (RFCDEFAULTS_ETC_DIR @ d) \<noteq> None \<and> fs (RFCDEFAULTS_ETC_DIR @ d) \<noteq> Some [])
         (filter (\<lambda>d. str_contains d ''.ini'') ds)))"
  by (induction ds arbitrary: out) (auto simp: combine_inis_stopped split: option.splits)

lemma init_rfcdefaults_simps [simp, frame_simps]:
  "env (snd (init_rfcdefaults S w)) = env w" "log (snd (init_rfcdefaults S w)) = log w"
  "http_ready (snd (init_rfcdefaults S w)) = http_ready w"
  "world.more (snd (init_rfcdefaults S w)) = world.more w"
  by (auto simp: init_rfcdefaults_def split: option.splits)

lemma init_rfcdefaults_other: "q \<noteq> RFCDEFAULTS_FILE \<Longrightarrow> files (snd (init_rfcdefaults S w)) q = files w q"
  by (auto simp: init_rfcdefaults_def split: option.splits)

section \<open>What a lookup changes and returns\<close>

text \<open>A lookup changes at most the combined defaults file, and that only by creating it.\<close>

definition lookup_frame :: "('e, 'z) world_scheme \<Rightarrow> ('e, 'z) world_scheme \<Rightarrow> bool" where
  "lookup_frame w w' \<longleftrightarrow>
     env w' = env w \<and> log w' = log w \<and> http_ready w' = http_ready w \<and> world.more w' = world.more w \<and>
     (\<forall>q. q \<noteq> RFCDEFAULTS_FILE \<or> files w q \<noteq> None \<longrightarrow> files w' q = files w q)"

lemma lookup_frame_refl [simp]: "lookup_frame w w"
  by (simp add: lookup_frame_def)

lemma lookup_frame_trans: "lookup_frame w w' \<Longrightarrow> lookup_frame w' w'' \<Longrightarrow> lookup_frame w w''"
  by (auto simp: lookup_frame_def)

lemma open_ini_frame: "lookup_frame w (snd (open_ini S f w))"
proof (cases "files w f")
  case None
  have "lookup_frame w (snd (init_rfcdefaults S w))" if "f = RFCDEFAULTS_FILE"
    using None that by (auto simp: lookup_frame_def init_rfcdefaults_other)
  with None show ?thesis by (auto simp: open_ini_def split: prod.splits)
qed (simp add: open_ini_def)

lemma getValue_frame: "lookup_frame w (snd (snd (getValue S f pname prm w)))"
  using open_ini_frame [of w S f]
  by (auto simp: getValue_def getValue_scan_def split: prod.splits option.splits ini_result.splits)

text \<open>The non-empty value of the first line with the key, where the file exists.\<close>

definition usable_value :: "(string \<rightharpoonup> string) \<Rightarrow> string \<Rightarrow> string \<Rightarrow> string option" where
  "usable_value fs f pname = (case fs f of None \<Rightarrow> None
     | Some c \<Rightarrow> (case ini_lookup rfc_entry pname (getlines c) of
           None \<Rightarrow> None | Some v \<Rightarrow> if v = [] then None else Some v))"

text \<open>The status a file gives: found, present but empty, or absent.\<close>

definition file_status :: "(string \<rightharpoonup> string) \<Rightarrow> string \<Rightarrow> string \<Rightarrow> wdmp_status" where
  "file_status fs f pname = (case usable_value fs f pname of Some _ \<Rightarrow> WDMP_SUCCESS
     | None \<Rightarrow> (case fs f of None \<Rightarrow> WDMP_FAILURE
         | Some c \<Rightarrow> (if ini_lookup rfc_entry pname (getlines c) = Some []
                      then WDMP_ERR_VALUE_IS_EMPTY else WDMP_FAILURE)))"

lemma getValue_no_create:
  assumes "f \<noteq> RFCDEFAULTS_FILE \<or> files w f \<noteq> None"
  shows "getValue S f pname prm w =
     (file_status (files w) f pname,
      (case usable_value (files w) f pname of None \<Rightarrow> prm | Some v \<Rightarrow> fill_param pname v WDMP_NONE prm),
      w)"
  using assms
  by (auto simp: getValue_def getValue_scan_def open_ini_def scan_ini_def usable_value_def file_status_def
      split: option.splits)

lemma file_status_success [simp]:
  "(file_status fs f pname = WDMP_SUCCESS) = (usable_value fs f pname \<noteq> None)"
  by (auto simp: file_status_def split: option.splits)

lemma paths_distinct [simp]:
  "TR181STORE_FILE \<noteq> RFCDEFAULTS_FILE" "BOOTSTRAP_FILE \<noteq> RFCDEFAULTS_FILE"
  "RFCVAR_FILE \<noteq> RFCDEFAULTS_FILE" "TR181STORE_FILE \<noteq> BOOTSTRAP_FILE" "RFCVAR_FILE \<noteq> TR181STORE_FILE"
  by (simp_all add: path_defs)

text \<open>The search order as a list: the first file with a usable value decides.\<close>

definition param_files :: "string \<Rightarrow> string list" where
  "param_files pname = (if is_rfc_variable pname then [RFCVAR_FILE]
     else [TR181STORE_FILE, BOOTSTRAP_FILE, RFCDEFAULTS_FILE])"

fun first_usable :: "(string \<rightharpoonup> string) \<Rightarrow> string \<Rightarrow> string list \<Rightarrow> string option" where
  "first_usable fs pname [] = None"
| "first_usable fs pname (f # rest) = (case usable_value fs f pname of
       Some v \<Rightarrow> Some v | None \<Rightarrow> first_usable fs pname rest)"

lemma get_from_files_value:
  assumes "files w RFCDEFAULTS_FILE \<noteq> None"
  shows "get_from_files S pname prm w =
     (file_status (files w) (if is_rfc_variable pname then RFCVAR_FILE
         else if usable_value (files w) TR181STORE_FILE pname \<noteq> None then TR181STORE_FILE
         else if usable_value (files w) BOOTSTRAP_FILE pname \<noteq> None then BOOTSTRAP_FILE
         else RFCDEFAULTS_FILE) pname,
      (case first_usable (files w) pname (param_files pname) of
         None \<Rightarrow> prm | Some v \<Rightarrow> fill_param pname v WDMP_NONE prm),
      w)"
  using assms
  by (auto simp: get_from_files_def getValue_no_create param_files_def split: option.splits)

text \<open>A search that reaches the combined defaults and finds them missing creates them first.\<close>

definition searched_world :: "'e sys \<Rightarrow> string \<Rightarrow> ('e, 'z) world_scheme \<Rightarrow> ('e, 'z) world_scheme" where
  "searched_world S pname w =
     (if files w RFCDEFAULTS_FILE = None \<and> \<not> is_rfc_variable pname \<and>
         first_usable (files w) pname [TR181STORE_FILE, BOOTSTRAP_FILE] = None
      then snd (init_rfcdefaults S w) else w)"

lemma getValue_create:
  assumes "files w RFCDEFAULTS_FILE = None" "w1 = snd (init_rfcdefaults S w)"
  shows "getValue S RFCDEFAULTS_FILE pname prm w =
     (file_status (files w1) RFCDEFAULTS_FILE pname,
      (case usable_value (files w1) RFCDEFAULTS_FILE pname of None \<Rightarrow> prm | Some v \<Rightarrow> fill_param pname v WDMP_NONE prm),
      w1)"
proof -
  have "open_ini S RFCDEFAULTS_FILE w = (files w1 RFCDEFAULTS_FILE, w1)"
    using assms by (auto simp: open_ini_def init_rfcdefaults_def split: option.splits)
  then show ?thesis
    by (auto simp: getValue_def getValue_scan_def scan_ini_def usable_value_def file_status_def split: option.splits)
qed

lemma get_from_files_searched:
  fixes S w pname
  defines "w1 \<equiv> searched_world S pname w"
  shows "\<exists>st. get_from_files S pname prm w = (st,
      (case first_usable (files w1) pname (param_files pname) of
         None \<Rightarrow> prm | Some v \<Rightarrow> fill_param pname v WDMP_NONE prm), w1) \<and>
    (st = WDMP_SUCCESS) = (first_usable (files w1) pname (param_files pname) \<noteq> None)"
proof (cases "files w RFCDEFAULTS_FILE = None \<and> \<not> is_rfc_variable pname \<and>
    first_usable (files w) pname [TR181STORE_FILE, BOOTSTRAP_FILE] = None")
  case True
  then have w1: "w1 = snd (init_rfcdefaults S w)" by (simp add: w1_def searched_world_def)
  have kept: "usable_value (files w1) f pname = usable_value (files w) f pname" if "f \<noteq> RFCDEFAULTS_FILE" for f
    using that by (simp add: w1 usable_value_def init_rfcdefaults_other)
  from True have empty: "usable_value (files w) TR181STORE_FILE pname = None" "usable_value (files w) BOOTSTRAP_FILE pname = None"
    by (auto split: option.splits)
  have "get_from_files S pname prm w = getValue S RFCDEFAULTS_FILE pname prm w"
    using True empty by (simp add: get_from_files_def getValue_no_create)
  moreover have "first_usable (files w1) pname (param_files pname) = usable_value (files w1) RFCDEFAULTS_FILE pname"
    using True empty by (simp add: param_files_def kept split: option.splits)
  ultimately show ?thesis using True by (simp add: getValue_create [OF _ w1])
next
  case False
  then have w1: "w1 = w" unfolding w1_def searched_world_def by (rule if_not_P)
  show ?thesis
  proof (cases "files w RFCDEFAULTS_FILE = None")
    case True
    with False show ?thesis
      by (auto simp: w1 get_from_files_def getValue_no_create param_files_def split: option.splits)
  next
    case False
    then show ?thesis by (auto simp: w1 get_from_files_value param_files_def split: option.splits)
  qed
qed

section \<open>The parameter record stays within its arrays\<close>

definition param_wf :: "RFC_ParamData \<Rightarrow> bool" where
  "param_wf p \<longleftrightarrow> length (prm_name p) < MAX_PARAM_LEN \<and> length (prm_value p) < MAX_PARAM_LEN"

lemma max_param_pos [simp]: "0 < MAX_PARAM_LEN"
  by (simp add: MAX_PARAM_LEN_def)

lemma fill_param_wf [simp]: "param_wf (fill_param pname v t prm)"
  by (simp add: param_wf_def fill_param_def buf_copy_length)

lemma getValue_wf: "param_wf prm \<Longrightarrow> param_wf (fst (snd (getValue S f pname prm w)))"
  by (auto simp: getValue_def split: prod.splits ini_result.splits)

lemma get_from_files_wf: "param_wf prm \<Longrightarrow> param_wf (fst (snd (get_from_files S pname prm w)))"
proof -
  assume wf: "param_wf prm"
  obtain r1 p1 w1 where 1: "getValue S TR181STORE_FILE pname prm w = (r1, p1, w1)" by (metis prod_cases3)
  obtain r2 p2 w2 where 2: "getValue S BOOTSTRAP_FILE pname p1 w1 = (r2, p2, w2)" by (metis prod_cases3)
  have p1: "param_wf p1" using getValue_wf [OF wf, of S TR181STORE_FILE pname w] 1 by simp
  have p2: "param_wf p2" using getValue_wf [OF p1, of S BOOTSTRAP_FILE pname w1] 2 by simp
  show ?thesis
    using p1 p2 getValue_wf [OF p2, of S RFCDEFAULTS_FILE pname w2] getValue_wf [OF wf, of S RFCVAR_FILE pname w]
    by (simp add: get_from_files_def 1 2)
qed

lemma apply_subitem_wf: "param_wf prm \<Longrightarrow> apply_subitem S sub prm = Inr p \<Longrightarrow> param_wf p"
  by (auto simp: apply_subitem_def Let_def param_wf_def buf_copy_length split: option.splits)

lemma apply_items_wf: "param_wf prm \<Longrightarrow> apply_items S items is prm = Inr p \<Longrightarrow> param_wf p"
  by (induction "is" arbitrary: prm) (auto dest: apply_subitem_wf)

lemma get_response_wf: "param_wf prm \<Longrightarrow> get_response S r prm = Inr (st, p) \<Longrightarrow> param_wf p"
  by (auto simp: get_response_def dest: apply_items_wf split: option.splits)

lemma hostif_request_frame:
  "hostif_request S m c d w = (rc, b, w') \<Longrightarrow>
     files w' = files w \<and> log w' = log w \<and> http_ready w' = http_ready w \<and> world.more w' = world.more w"
  by (auto simp: hostif_request_def split: if_splits prod.splits)

text \<open>What reading a parameter can change: the service's state, the ready flag and the creation of
  the combined defaults file.\<close>

definition param_frame :: "('e, 'z) world_scheme \<Rightarrow> ('e, 'z) world_scheme \<Rightarrow> bool" where
  "param_frame w w' \<longleftrightarrow>
     log w' = log w \<and> world.more w' = world.more w \<and>
     (\<forall>q. q \<noteq> RFCDEFAULTS_FILE \<or> files w q \<noteq> None \<longrightarrow> files w' q = files w q)"

lemma param_frame_refl [simp]: "param_frame w w"
  by (simp add: param_frame_def)

lemma param_frame_trans: "param_frame w w' \<Longrightarrow> param_frame w' w'' \<Longrightarrow> param_frame w w''"
  by (auto simp: param_frame_def)

lemma lookup_param_frame: "lookup_frame w w' \<Longrightarrow> param_frame w w'"
  by (auto simp: lookup_frame_def param_frame_def)

lemma get_from_files_frame: "lookup_frame w (snd (snd (get_from_files S pname prm w)))"
proof -
  obtain r1 p1 w1 where 1: "getValue S TR181STORE_FILE pname prm w = (r1, p1, w1)" by (metis prod_cases3)
  obtain r2 p2 w2 where 2: "getValue S BOOTSTRAP_FILE pname p1 w1 = (r2, p2, w2)" by (metis prod_cases3)
  have f1: "lookup_frame w w1" using getValue_frame [of w S TR181STORE_FILE pname prm] 1 by simp
  have f2: "lookup_frame w1 w2" using getValue_frame [of w1 S BOOTSTRAP_FILE pname p1] 2 by simp
  have f3: "lookup_frame w2 (snd (snd (getValue S RFCDEFAULTS_FILE pname p2 w2)))"
    by (rule getValue_frame)
  show ?thesis
    using f1 f2 f3 getValue_frame [of w S RFCVAR_FILE pname prm]
    by (auto simp: get_from_files_def 1 2 intro: lookup_frame_trans)
qed

lemma getRFCParameter_frame:
  "getRFCParameter S c pname prm w = Inr (st, p, w') \<Longrightarrow> param_frame w w'"
  using lookup_param_frame [OF get_from_files_frame [of w S pname prm]]
  by (auto simp: getRFCParameter_def Let_def param_frame_def split: if_splits prod.splits
      dest!: hostif_request_frame)

lemma getRFCParameter_wf:
  "param_wf prm \<Longrightarrow> getRFCParameter S c pname prm w = Inr (st, p, w') \<Longrightarrow> param_wf p"
  using get_from_files_wf [of prm S pname w]
  by (auto simp: getRFCParameter_def Let_def dest: get_response_wf split: if_splits prod.splits)

lemma setRFCParameter_frame:
  "setRFCParameter S c pname v t w = Inr (st, w') \<Longrightarrow>
     log w' = log w \<and> files w' = files w \<and> http_ready w' = http_ready w \<and> world.more w' = world.more w"
  by (auto simp: setRFCParameter_def Let_def split: if_splits prod.splits option.splits
      dest!: hostif_request_frame)

section \<open>Properties\<close>

text \<open>C6: before the service is up a parameter comes from the first of the override store,
  bootstrap.ini and the defaults (rfcVariable.ini alone for a shell variable) that has a non-empty
  value for it; when none has one the read fails and leaves the record as it was.  Reading it changes
  nothing, except that a search which reaches the combined defaults creates them when they are missing.\<close>

theorem parameter_precedence:
  assumes "pname \<noteq> []" "last pname \<noteq> CHR ''.''" "\<not> http_ready w" "files w HTTP_READY_FILE = None"
  shows "\<exists>st. getRFCParameter S caller pname prm w =
     Inr (st, case first_usable (files (searched_world S pname w)) pname (param_files pname) of
            None \<Rightarrow> prm | Some v \<Rightarrow> fill_param pname v WDMP_NONE prm, searched_world S pname w) \<and>
     (st = WDMP_SUCCESS) = (first_usable (files (searched_world S pname w)) pname (param_files pname) \<noteq> None)"
  using assms get_from_files_searched [of S pname prm w]
  by (auto simp: getRFCParameter_def is_wildcard_def file_present_def)

lemma scan_single:
  "key_ok k \<Longrightarrow> no_blank k \<Longrightarrow> NL \<notin> set v \<Longrightarrow> no_blank v \<Longrightarrow>
     ini_lookup rfc_entry k (getlines (k @ CHR ''='' # v)) = Some v"
  by (subst getlines_last)
    (auto simp: key_ok_def rfc_entry_def drop_word_no_blank no_blank_def split_eq_render)

text \<open>Two files have the parameter; the defaults, which are missing, are not reached and not created.\<close>

definition two_stores :: "refenv world" where
  "two_stores = ref_world\<lparr>files := [TR181STORE_FILE \<mapsto> ''a.b=1'', BOOTSTRAP_FILE \<mapsto> ''a.b=0'']\<rparr>"

theorem parameter_precedence_witness:
  "getRFCParameter ref_stb None ''a.b'' param0 two_stores =
     Inr (WDMP_SUCCESS, fill_param ''a.b'' ''1'' WDMP_NONE param0, two_stores)"
proof -
  have "ini_lookup rfc_entry ''a.b'' (getlines ''a.b=1'') = Some ''1''"
    using scan_single [of "''a.b''" "''1''"] by (simp add: key_ok_def no_blank_def)
  then have v: "usable_value (files two_stores) TR181STORE_FILE ''a.b'' = Some ''1''"
    by (simp add: two_stores_def usable_value_def)
  then have w: "searched_world ref_stb ''a.b'' two_stores = two_stores" by (simp add: searched_world_def)
  have "first_usable (files two_stores) ''a.b'' (param_files ''a.b'') = Some ''1''"
    using v by (simp add: param_files_def is_rfc_variable_def strncmp_eq_def)
  moreover have "\<not> http_ready two_stores" "files two_stores HTTP_READY_FILE = None"
    by (simp_all add: two_stores_def ref_world_def path_defs)
  ultimately show ?thesis
    using parameter_precedence [of "''a.b''" two_stores ref_stb None param0] unfolding w by simp
qed

text \<open>C35: whatever the service or a file answers, a parameter read never overruns the record's two
  arrays.\<close>

theorem getRFCParameter_bounds:
  assumes "length (prm_name prm) < MAX_PARAM_LEN" "length (prm_value prm) < MAX_PARAM_LEN"
    "getRFCParameter S caller pname prm w = Inr (st, p, w')"
  shows "length (prm_name p) < MAX_PARAM_LEN \<and> length (prm_value p) < MAX_PARAM_LEN"
  using getRFCParameter_wf [OF _ assms(3)] assms(1,2) by (simp add: param_wf_def)

text \<open>A value longer than the array.\<close>

definition long_store :: "refenv world" where
  "long_store = ref_world\<lparr>files := [TR181STORE_FILE \<mapsto> ''a.b='' @ replicate 3000 CHR ''x'']\<rparr>"

lemma long_store_read: "getRFCParameter ref_stb None ''a.b'' param0 long_store =
    Inr (WDMP_SUCCESS, fill_param ''a.b'' (replicate 3000 CHR ''x'') WDMP_NONE param0, long_store)"
proof -
  have "no_blank (replicate 3000 CHR ''x'')" by (simp add: no_blank_def)
  then have "ini_lookup rfc_entry ''a.b'' (getlines (''a.b'' @ CHR ''='' # replicate 3000 CHR ''x'')) = Some (replicate 3000 CHR ''x'')"
    by (intro scan_single) (simp_all add: key_ok_def no_blank_def)
  then have "usable_value (files long_store) TR181STORE_FILE ''a.b'' = Some (replicate 3000 CHR ''x'')"
    by (simp add: long_store_def usable_value_def)
  then have "get_from_files ref_stb ''a.b'' param0 long_store =
      (WDMP_SUCCESS, fill_param ''a.b'' (replicate 3000 CHR ''x'') WDMP_NONE param0, long_store)"
    by (simp add: get_from_files_def is_rfc_variable_def strncmp_eq_def getValue_no_create)
  moreover have "\<not> http_ready long_store" "files long_store HTTP_READY_FILE = None"
    by (simp_all add: long_store_def ref_world_def path_defs)
  ultimately show ?thesis by (simp add: getRFCParameter_def is_wildcard_def file_present_def)
qed

theorem getRFCParameter_bounds_witness:
  "\<exists>p. getRFCParameter ref_stb None ''a.b'' param0 long_store = Inr (WDMP_SUCCESS, p, long_store) \<and>
   length (prm_name p) < MAX_PARAM_LEN \<and> length (prm_value p) < MAX_PARAM_LEN \<and> MAX_PARAM_LEN < 3000"
  using getRFCParameter_bounds [OF _ _ long_store_read] long_store_read
  by (auto simp: param0_def MAX_PARAM_LEN_def)

text \<open>The combined defaults file is the concatenation of the directory's ini files, each
  followed by a newline, up to the first one that is empty or unreadable; the files after that one
  are lost.\<close>

lemma init_rfcdefaults_content:
  assumes "readdir S (files w) RFCDEFAULTS_ETC_DIR = Some ents" "fopen_w S (env w) RFCDEFAULTS_FILE"
  shows "files (snd (init_rfcdefaults S w)) RFCDEFAULTS_FILE =
     Some (concat (map (\<lambda>d. the (files w (RFCDEFAULTS_ETC_DIR @ d)) @ [NL])
       (takeWhile (\<lambda>d. files w (RFCDEFAULTS_ETC_DIR @ d) \<noteq> None \<and> files w (RFCDEFAULTS_ETC_DIR @ d) \<noteq> Some [])
         (filter (\<lambda>d. str_contains d ''.ini'') ents))))"
  using assms by (simp add: init_rfcdefaults_def write_file_files combine_inis_upto)

text \<open>Rfcapi's scanner drops everything up to the first blank of a line, so a plain entry whose
  value holds a blank is not found under its own name.\<close>

lemma blank_value_hidden:
  assumes "fileName \<noteq> RFCDEFAULTS_FILE" "files w fileName = Some (k @ CHR ''='' # a @ CHR '' '' # b)"
    "no_blank k" "no_blank a" "NL \<notin> set (k @ a @ b)" "CHR ''='' \<notin> set b"
  shows "getValue S fileName k prm w = (WDMP_FAILURE, prm, w)"
proof -
  have "drop_word ((k @ CHR ''='' # a) @ CHR '' '' # b) = b"
    using assms(3,4) by (intro drop_word_word) (auto simp: no_blank_def)
  moreover have "find_idx (\<lambda>c. c = CHR ''='') b = None" using assms(6) by (auto simp: find_idx_None)
  ultimately have "rfc_entry (k @ CHR ''='' # a @ CHR '' '' # b) = None" by (simp add: rfc_entry_def split_eq_def)
  with assms(1,2,5) show ?thesis
    by (subst getValue_no_create) (auto simp: file_status_def usable_value_def getlines_last split: option.splits)
qed

end
