(* ===== verification/Rfc_Common.thy ===== *)
theory Rfc_Common
  imports Rfc_Api
begin

text \<open>
  rfcMgr/rfc_common.cpp: the helpers of the RFC manager.  Reading a parameter into a caller's
  buffer (\<open>read_RFCProperty\<close>, over rbus or over rfcapi), collecting the output of a command with a
  growing buffer, the string helpers, and the wait for the webconfig agent.  Shown here: when the
  read stays inside the caller's buffer and what it leaves there, that the command output is
  collected whole, that substring removal ends and removes every occurrence, and that the wait is
  bounded.
\<close>

section \<open>Codes\<close>

abbreviation "FAILURE \<equiv> (-1::int)"
abbreviation "SUCCESS \<equiv> (0::int)"
abbreviation "NO_RFC_UPDATE_REQUIRED \<equiv> (1::int)"
abbreviation "READ_RFC_SUCCESS \<equiv> (1::int)"
abbreviation "READ_RFC_FAILURE \<equiv> (-1::int)"
abbreviation "WRITE_RFC_SUCCESS \<equiv> (1::int)"
abbreviation "WRITE_RFC_FAILURE \<equiv> (-1::int)"

definition RFC_VALUE_BUF_SIZE :: nat where "RFC_VALUE_BUF_SIZE = 512"
definition RETRY_COUNT :: nat where "RETRY_COUNT = 3"
definition RFC_MAX_LEN :: nat where "RFC_MAX_LEN = 64"

datatype SYSCMD = eRdkSsaCli | eWpeFrameworkSecurityUtility

section \<open>Waiting for the webconfig agent\<close>

definition getSyseventValue :: "'e sys \<Rightarrow> string \<Rightarrow> ('e, 'z) world_scheme \<Rightarrow> string" where
  "getSyseventValue S key w = (case popen_out S (env w) (''sysevent get '' @ key) of
       None \<Rightarrow> []
     | Some out \<Rightarrow>
         let r = cstr (fst (fgets 128 out))
         in if r \<noteq> [] \<and> last r = NL then butlast r else r)"

function wait_loop :: "'e sys \<Rightarrow> nat \<Rightarrow> ('e, 'z) world_scheme \<Rightarrow> ('e, 'z) world_scheme" where
  "wait_loop S retry w =
     (if getSyseventValue S ''rfc_blob_processing'' w = ''Completed'' then w
      else if retry > 6 then w
      else wait_loop S (Suc retry) (do_sleep S 100 w))"
  by pat_completeness auto
termination
  by (relation "measure (\<lambda>(S, retry, w). 7 - retry)") auto

declare wait_loop.simps [simp del]

definition RFC_AGENT_FILE :: string where
  [path_defs]: "RFC_AGENT_FILE = ''/tmp/rfc_agent_initialized''"

definition waitForRfcCompletion :: "'e sys \<Rightarrow> ('e, 'z) world_scheme \<Rightarrow> ('e, 'z) world_scheme" where
  "waitForRfcCompletion S w =
     (let st = getSyseventValue S ''rfc_blob_processing'' w in
      if st \<noteq> [] \<and> st \<noteq> ''Completed'' \<and> file_present RFC_AGENT_FILE w then wait_loop S 1 w else w)"

section \<open>Reading a parameter into a buffer\<close>

definition quoted :: "string \<Rightarrow> bool" where
  "quoted s \<longleftrightarrow> 2 \<le> length s \<and> hd s = DQ \<and> last s = DQ"

text \<open>The rbus branch: both copies are cut to the buffer.\<close>

definition copy_rbus_string :: "string \<Rightarrow> nat \<Rightarrow> string" where
  "copy_rbus_string s datasize =
     (if quoted s then take (min (length s - 2) (datasize - 1)) (tl s)
      else take (min (length s) (datasize - 1)) s)"

text \<open>The rfcapi branch: a bounded copy of what follows the first quote, then a terminator at the
  position of the last quote, which may lie outside the buffer.\<close>

definition copy_quoted :: "string \<Rightarrow> nat \<Rightarrow> string res" where
  "copy_quoted s datasize =
     (if datasize \<le> length s - 2 then Inl OutOfBounds
      else Inr (take (length s - 2) (buf_copy datasize (tl s))))"

text \<open>\<open>old\<close> is what the caller's buffer of \<open>datasize\<close> bytes holds before.\<close>

definition read_RFCProperty ::
    "'e sys \<Rightarrow> string \<Rightarrow> string \<Rightarrow> string \<Rightarrow> nat \<Rightarrow> ('e, 'z) world_scheme
       \<Rightarrow> (int \<times> string \<times> ('e, 'z) world_scheme) res" where
  "read_RFCProperty S ty key old datasize w =
     (if datasize = 0 then Inr (READ_RFC_FAILURE, old, w)
      else if uses_rbus (plat S) then
        (if \<not> rbus_open S (env w) then Inr (READ_RFC_FAILURE, old, w)
         else case rbus_get S (env w) key of
             None \<Rightarrow> Inr (READ_RFC_FAILURE, [], w)
           | Some (RbString s) \<Rightarrow> Inr (READ_RFC_SUCCESS, copy_rbus_string (cstr s) datasize, w)
           | Some (RbBool b) \<Rightarrow> Inr (READ_RFC_SUCCESS, buf_copy datasize (if b then ''true'' else ''false''), w)
           | Some (RbInt32 i) \<Rightarrow> Inr (READ_RFC_SUCCESS, buf_copy datasize (int_str i), w)
           | Some _ \<Rightarrow> Inr (READ_RFC_FAILURE, [], w))
      else rbind (getRFCParameter S (Some ty) key param0 w)
        (\<lambda>(st, p, w').
           if st = WDMP_SUCCESS \<or> st = WDMP_ERR_DEFAULT_VALUE then
             (if quoted (prm_value p)
              then rbind (copy_quoted (prm_value p) datasize) (\<lambda>out. Inr (READ_RFC_SUCCESS, out, w'))
              else Inr (READ_RFC_SUCCESS, buf_copy datasize (prm_value p), w'))
           else Inr (READ_RFC_FAILURE, [], w')))"

section \<open>Commands\<close>

text \<open>The collecting loop; \<open>n\<close> is the current size of the buffer, which grows with the result.\<close>

function collect_output :: "nat \<Rightarrow> string \<Rightarrow> string \<Rightarrow> string" where
  "collect_output n rest result =
     (if n \<le> 1 \<or> rest = [] then result
      else let (chunk, rest') = fgets n rest; r = result @ cstr chunk
           in collect_output (if n - 1 \<le> length r then 2 * n else n) rest' r)"
  by pat_completeness auto
termination
  by (relation "measure (\<lambda>(n, rest, result). length rest)")
    (auto, metis fgets_progress not_le snd_conv One_nat_def)

declare collect_output.simps [simp del]

definition executeCommandAndGetOutput ::
    "'e sys \<Rightarrow> SYSCMD \<Rightarrow> string option \<Rightarrow> string \<Rightarrow> ('e, 'z) world_scheme \<Rightarrow> int \<times> string" where
  "executeCommandAndGetOutput S cmd args result w =
     (case (case cmd of
              eRdkSsaCli \<Rightarrow> (case args of None \<Rightarrow> None
                  | Some a \<Rightarrow> popen_out S (env w) (''/usr/bin/rdkssacli '' @ a))
            | eWpeFrameworkSecurityUtility \<Rightarrow> popen_out S (env w) ''/usr/bin/WPEFrameworkSecurityUtility'') of
       None \<Rightarrow> (FAILURE, result)
     | Some out \<Rightarrow> (SUCCESS, collect_output 256 out result))"

section \<open>Strings\<close>

fun CheckSpecialCharacters :: "string \<Rightarrow> bool" where
  "CheckSpecialCharacters [] = False"
| "CheckSpecialCharacters (c # s) = (if \<not> isalnum c then True else CheckSpecialCharacters s)"

definition StringCaseCompare :: "string \<Rightarrow> string \<Rightarrow> bool" where
  "StringCaseCompare a b \<longleftrightarrow> length a = length b \<and> list_all2 (\<lambda>x y. tolower x = tolower y) a b"

text \<open>The loop of \<open>RemoveSubstring\<close>; \<open>None\<close> when it never ends.\<close>

partial_function (option) RemoveSubstring :: "string \<Rightarrow> string \<Rightarrow> string option" where
  "RemoveSubstring s toRemove = (case str_find s toRemove of
       None \<Rightarrow> Some s
     | Some pos \<Rightarrow> RemoveSubstring (take pos s @ drop (pos + length toRemove) s) toRemove)"

section \<open>The reboot schedule of DCMSettings.conf\<close>

definition DCM_SETTINGS :: string where
  [path_defs]: "DCM_SETTINGS = ''/tmp/DCMSettings.conf''"
definition TMP_DCM_SETTINGS :: string where
  [path_defs]: "TMP_DCM_SETTINGS = ''/nvram/tmpDCMSettings.conf''"

definition cron_of_line :: "string \<Rightarrow> string" where
  "cron_of_line line = (case find_idx (\<lambda>c. c = CHR ''='') line of
       None \<Rightarrow> [] | Some pos \<Rightarrow> if pos + 1 < length line then drop (pos + 1) line else [])"

definition find_cron_line :: "string \<Rightarrow> string option" where
  "find_cron_line content =
     find (\<lambda>line. str_contains line ''urn:settings:CheckSchedule:cron'') (getlines content)"

definition getCronFromDCMSettings :: "'e sys \<Rightarrow> ('e, 'z) world_scheme \<Rightarrow> string \<times> ('e, 'z) world_scheme" where
  "getCronFromDCMSettings S w = (case files w DCM_SETTINGS of
       Some c \<Rightarrow> (case find_cron_line c of
           None \<Rightarrow> ([], w)
         | Some line \<Rightarrow> (cron_of_line line, write_file S TMP_DCM_SETTINGS (line @ [NL]) w))
     | None \<Rightarrow> (case files w TMP_DCM_SETTINGS of
           None \<Rightarrow> ([], w)
         | Some c \<Rightarrow> (case find_cron_line c of None \<Rightarrow> ([], w) | Some line \<Rightarrow> (cron_of_line line, w))))"

section \<open>Shared facts\<close>

lemma StringCaseCompare_iff: "StringCaseCompare a b \<longleftrightarrow> map tolower a = map tolower b"
  by (auto simp: StringCaseCompare_def list_all2_conv_all_nth list_eq_iff_nth_eq)

lemma CheckSpecialCharacters_iff: "CheckSpecialCharacters s \<longleftrightarrow> (\<exists>c\<in>set s. \<not> isalnum c)"
  by (induction s) auto

lemma quoted_split: "quoted s \<Longrightarrow> s = DQ # butlast (tl s) @ [DQ]"
proof -
  assume q: "quoted s"
  then obtain c t where s: "s = c # t" "t \<noteq> []" by (cases s; cases "tl s") (auto simp: quoted_def)
  then have "t = butlast t @ [last t]" by simp
  with q s show ?thesis by (simp add: quoted_def)
qed

lemma copy_quoted_eq:
  "copy_quoted (DQ # v @ [DQ]) datasize =
     (if length v < datasize then Inr (take (length v) (buf_copy datasize (v @ [DQ]))) else Inl OutOfBounds)"
  by (simp add: copy_quoted_def)

lemma read_RFCProperty_frame:
  "read_RFCProperty S ty key old n w = Inr (r, out, w') \<Longrightarrow> param_frame w w'"
  by (auto simp: read_RFCProperty_def split: if_splits option.splits rbus_value.splits prod.splits
      dest: getRFCParameter_frame)

text \<open>Whatever is read, the buffer holds a C string that fits it.\<close>

lemma copy_rbus_string_length: "0 < n \<Longrightarrow> length (copy_rbus_string s n) < n"
  by (auto simp: copy_rbus_string_def)

lemma copy_quoted_length: "copy_quoted s n = Inr out \<Longrightarrow> length out < n"
  by (auto simp: copy_quoted_def split: if_splits)

lemma collect_output_all: "1 < n \<Longrightarrow> NUL \<notin> set rest \<Longrightarrow> collect_output n rest result = result @ rest"
proof (induction n rest result rule: collect_output.induct)
  case (1 n rest result)
  show ?case
  proof (cases "rest = []")
    case True
    then show ?thesis by (subst collect_output.simps) simp
  next
    case False
    obtain chunk rest' where f: "fgets n rest = (chunk, rest')" by (cases "fgets n rest")
    have split: "chunk @ rest' = rest" using fgets_split [of n rest] f by simp
    then have nul: "NUL \<notin> set chunk" "NUL \<notin> set rest'" using 1(3) by auto
    with 1(1) [OF _ f [symmetric] refl refl] 1(2) False split show ?thesis
      by (subst collect_output.simps) (auto simp: f Let_def)
  qed
qed

lemma subseq_cut: "subseq (xs @ ys) (xs @ t @ ys)"
  by (metis append_Nil list_emb_Nil list_emb_append_mono subseq_order.order_refl)

lemma erase_found:
  assumes "str_find s t = Some pos" "t \<noteq> []"
  shows "length (take pos s @ drop (pos + length t) s) < length s"
    "subseq (take pos s @ drop (pos + length t) s) s"
proof -
  from str_find_split [OF assms(1)]
  have s: "s = take pos s @ t @ drop (pos + length t) s" and l: "pos + length t \<le> length s" by auto
  show "subseq (take pos s @ drop (pos + length t) s) s"
    using subseq_cut [of "take pos s" "drop (pos + length t) s" t] s by metis
  show "length (take pos s @ drop (pos + length t) s) < length s" using l assms(2) by (cases t) auto
qed

lemma RemoveSubstring_ends:
  "t \<noteq> [] \<Longrightarrow> \<exists>r. RemoveSubstring s t = Some r \<and> \<not> sublist t r \<and> subseq r s"
proof (induction s rule: measure_induct_rule [where f = length])
  case (less s)
  show ?case
  proof (cases "str_find s t")
    case None
    then have "RemoveSubstring s t = Some s" by (subst RemoveSubstring.simps) simp
    with None show ?thesis by (simp add: str_find_None)
  next
    case (Some pos)
    let ?s = "take pos s @ drop (pos + length t) s"
    have step: "RemoveSubstring s t = RemoveSubstring ?s t"
      using Some by (subst RemoveSubstring.simps) simp
    note cut = erase_found [OF Some less.prems]
    from less.IH [OF cut(1) less.prems] cut(2) show ?thesis
      unfolding step by (meson subseq_order.trans)
  qed
qed

lemma RemoveSubstring_diverges: "RemoveSubstring s [] = None"
proof -
  have "t \<noteq> []" if "RemoveSubstring s t = Some r" for r t
    using _ that
  proof (rule RemoveSubstring.raw_induct [where P = "\<lambda>s t r. t \<noteq> []"])
    fix rec s t r
    assume "\<And>s t r. rec s t = Some r \<Longrightarrow> t \<noteq> ([] :: string)"
      and "(case str_find s t of None \<Rightarrow> Some s
              | Some pos \<Rightarrow> rec (take pos s @ drop (pos + length t) s) t) = Some r"
    then show "t \<noteq> []" by (cases "str_find s t") (auto simp: str_find_None)
  qed
  then show ?thesis by (metis not_None_eq)
qed

lemma wait_loop_bounded:
  "retry \<le> 7 \<Longrightarrow> \<exists>k. k \<le> 7 - retry \<and> log (wait_loop S retry w) = log w @ replicate k (SleepSec 100) \<and>
     (getSyseventValue S ''rfc_blob_processing'' (wait_loop S retry w) = ''Completed'' \<or> k = 7 - retry)"
proof (induction S retry w rule: wait_loop.induct)
  case (1 S retry w)
  let ?done = "getSyseventValue S ''rfc_blob_processing'' w = ''Completed''"
  show ?case
  proof (cases "?done \<or> retry > 6")
    case True
    then have "wait_loop S retry w = w" by (subst wait_loop.simps) auto
    with True show ?thesis by (intro exI [of _ 0]) auto
  next
    case False
    then have step: "wait_loop S retry w = wait_loop S (Suc retry) (do_sleep S 100 w)"
      by (subst wait_loop.simps) auto
    from 1 False obtain k where "k \<le> 7 - Suc retry"
      "log (wait_loop S (Suc retry) (do_sleep S 100 w)) = log w @ SleepSec 100 # replicate k (SleepSec 100)"
      "getSyseventValue S ''rfc_blob_processing'' (wait_loop S (Suc retry) (do_sleep S 100 w)) = ''Completed''
         \<or> k = 7 - Suc retry"
      by auto
    then show ?thesis unfolding step using False by (intro exI [of _ "Suc k"]) auto
  qed
qed

section \<open>Properties\<close>

text \<open>A successful or failed read leaves a string in the caller's buffer that fits it,
  terminator included, on every platform.\<close>

lemma read_RFCProperty_fits:
  assumes "0 < datasize" "length old < datasize" "read_RFCProperty S ty key old datasize w = Inr (r, out, w')"
  shows "length out < datasize \<and> (r = READ_RFC_SUCCESS \<or> r = READ_RFC_FAILURE)"
  using assms
  by (auto simp: read_RFCProperty_def buf_copy_length copy_rbus_string_length
      split: if_splits option.splits rbus_value.splits dest: copy_quoted_length)

text \<open>A value in double quotes is handed over without them.\<close>

lemma read_RFCProperty_unquotes:
  assumes "\<not> uses_rbus (plat S)" "getRFCParameter S (Some ty) key param0 w = Inr (WDMP_SUCCESS, p, w')"
    "prm_value p = DQ # v @ [DQ]" "length v < datasize" "NUL \<notin> set v"
  shows "read_RFCProperty S ty key old datasize w = Inr (READ_RFC_SUCCESS, v, w')"
proof -
  have "take (length v) (buf_copy datasize (v @ [DQ])) = v"
    using assms(4,5) by (simp add: buf_copy_def)
  with assms copy_quoted_eq [of v datasize] show ?thesis
    by (auto simp: read_RFCProperty_def quoted_def)
qed

text \<open>C38: with the rfcapi build a quoted value that is longer than the caller's buffer is cut by
  the copy, but the terminator is then written at the position of the closing quote, outside the
  buffer.\<close>

theorem read_RFCProperty_overrun:
  assumes "\<not> uses_rbus (plat S)" "getRFCParameter S (Some ty) key param0 w = Inr (WDMP_SUCCESS, p, w')"
    "prm_value p = DQ # v @ [DQ]" "0 < datasize" "datasize \<le> length v"
  shows "read_RFCProperty S ty key old datasize w = Inl OutOfBounds"
  using assms copy_quoted_eq [of v datasize] by (auto simp: read_RFCProperty_def quoted_def)

text \<open>One override store with a quoted value, read before the service is up.\<close>

definition quoted_store :: "refenv world" where
  "quoted_store = ref_world\<lparr>files := [TR181STORE_FILE \<mapsto> ''a.b='' @ DQ # ''abc'' @ [DQ],
     RFCDEFAULTS_FILE \<mapsto> []]\<rparr>"

lemma quoted_store_read:
  "getRFCParameter ref_stb (Some t) ''a.b'' param0 quoted_store =
     Inr (WDMP_SUCCESS, fill_param ''a.b'' (DQ # ''abc'' @ [DQ]) WDMP_NONE param0, quoted_store)"
proof -
  have "ini_lookup rfc_entry ''a.b'' (getlines (''a.b='' @ DQ # ''abc'' @ [DQ])) = Some (DQ # ''abc'' @ [DQ])"
    using scan_single [of "''a.b''" "DQ # ''abc'' @ [DQ]"] by (simp add: key_ok_def no_blank_def)
  then show ?thesis
    by (simp add: getRFCParameter_def is_wildcard_def get_from_files_value file_present_def
        quoted_store_def ref_world_def param_files_def is_rfc_variable_def path_defs
        usable_value_def strncmp_eq_def file_status_def)
qed

lemma quoted_store_value:
  "prm_value (fill_param ''a.b'' (DQ # ''abc'' @ [DQ]) WDMP_NONE param0) = DQ # ''abc'' @ [DQ]"
  by (simp add: fill_param_def MAX_PARAM_LEN_def buf_copy_def cstr_def)

theorem read_RFCProperty_overrun_witness:
  "read_RFCProperty ref_stb ''t'' ''a.b'' [] 3 quoted_store = Inl OutOfBounds"
  by (rule read_RFCProperty_overrun [OF _ quoted_store_read quoted_store_value]) (simp_all add: ref_sys_def)

text \<open>The output of a command is collected whole, however long its lines are.\<close>

lemma command_output_whole:
  assumes "popen_out S (env w) (''/usr/bin/rdkssacli '' @ a) = Some out" "NUL \<notin> set out"
  shows "executeCommandAndGetOutput S eRdkSsaCli (Some a) result w = (SUCCESS, result @ out)"
  using assms by (simp add: executeCommandAndGetOutput_def collect_output_all)

text \<open>Removing a non-empty substring ends, leaves no occurrence of it and only deletes
  characters; with an empty substring the loop never ends.\<close>

lemma RemoveSubstring_removes_all:
  "if t = [] then RemoveSubstring s t = None
   else (\<exists>r. RemoveSubstring s t = Some r \<and> \<not> sublist t r \<and> subseq r s)"
proof (cases "t = []")
  case True
  then show ?thesis by (simp add: RemoveSubstring_diverges)
qed (simp add: RemoveSubstring_ends)

text \<open>The wait for the webconfig agent ends after at most six pauses of 100 seconds, and ends
  with fewer only when the agent has reported completion.\<close>

lemma waitForRfcCompletion_bounded:
  "\<exists>k. k \<le> 6 \<and> log (waitForRfcCompletion S w) = log w @ replicate k (SleepSec 100) \<and>
     (k = 0 \<or> k = 6 \<or> getSyseventValue S ''rfc_blob_processing'' (waitForRfcCompletion S w) = ''Completed'')"
  using wait_loop_bounded [of 1 S w]
  by (cases "waitForRfcCompletion S w = w") (auto simp: waitForRfcCompletion_def Let_def split: if_splits)

end
