(* ===== verification/Rfc_Json.thy ===== *)
theory Rfc_Json
  imports Rfc_Common
begin

text \<open>
  The JSON answer of the Xconf server: the accessors of json_parse.c the processor calls, the
  fields of one feature (rfc_xconf_handler.cpp: \<open>getRFCName\<close>, \<open>getRFCEnableParam\<close>,
  \<open>getEffectiveImmediateParam\<close>, \<open>getFeatureInstance\<close>) and the feature array of the answer,
  which is released with the whole document when it has no feature array.
  Shown here: values never overrun the caller's buffer, and which texts count as true.
\<close>

section \<open>Accessors\<close>

text \<open>The text of a number: \<open>%f\<close> without trailing zeros and without a trailing dot; the code
  positions itself at the end of a 50-byte buffer by the untruncated length.\<close>

definition number_text :: "string \<Rightarrow> string" where
  "number_text t = (case t of [] \<Rightarrow> []
     | c # s \<Rightarrow> (let z = c # rev (dropWhile (\<lambda>x. x = CHR ''0'') (rev s))
                 in if last z = CHR ''.'' then butlast z else z))"

definition getitemval :: "json \<Rightarrow> nat \<Rightarrow> (nat \<times> string) res" where
  "getitemval item n = (case item of
       JString s \<Rightarrow> Inr (length (cstr s), buf_copy n s)
     | JBool b \<Rightarrow> (let t = (if b then ''true'' else ''false'') in Inr (length t, buf_copy n t))
     | JNumber _ t \<Rightarrow>
         (if 50 < length t then Inl OutOfBounds
          else (let v = (if length t = 50 then take 49 t else number_text t)
                in Inr (length v, buf_copy n v)))
     | _ \<Rightarrow> Inr (0, []))"

definition GetJsonItem :: "'e sys \<Rightarrow> json option \<Rightarrow> string \<Rightarrow> json option" where
  "GetJsonItem S j k = (case j of None \<Rightarrow> None
     | Some v \<Rightarrow> if k = [] then None else cJSON_GetObjectItem S v k)"

definition GetJsonVal :: "'e sys \<Rightarrow> json option \<Rightarrow> string \<Rightarrow> nat \<Rightarrow> (nat \<times> string) res" where
  "GetJsonVal S j k maxlen = (if maxlen = 0 then Inr (0, [])
     else (case j of None \<Rightarrow> Inr (0, [])
       | Some v \<Rightarrow> if k = [] then Inr (0, [])
           else (case cJSON_GetObjectItem S v k of None \<Rightarrow> Inr (0, [])
               | Some item \<Rightarrow> getitemval item maxlen)))"

definition IsJsonArray :: "json \<Rightarrow> bool" where
  "IsJsonArray j = json_is_array j"

definition GetJsonArraySize :: "'e sys \<Rightarrow> json option \<Rightarrow> nat" where
  "GetJsonArraySize S j = (case j of None \<Rightarrow> 0
     | Some v \<Rightarrow> if json_is_array v then cJSON_GetArraySize S v else 0)"

definition GetJsonArrayItem :: "'e sys \<Rightarrow> json \<Rightarrow> nat \<Rightarrow> json option" where
  "GetJsonArrayItem S j i = cJSON_GetArrayItem S j i"

section \<open>One feature\<close>

record feature_obj =
  ft_name :: string
  ft_instance :: string
  ft_enable :: bool
  ft_immediate :: bool

definition feature0 :: feature_obj where
  "feature0 = \<lparr>ft_name = [], ft_instance = [], ft_enable = False, ft_immediate = False\<rparr>"

definition flag_true :: "string \<Rightarrow> bool" where
  "flag_true b \<longleftrightarrow> strcasecmp_eq b ''true'' \<or> cstr b = ''1''"

definition getRFCName :: "'e sys \<Rightarrow> json \<Rightarrow> feature_obj \<Rightarrow> (int \<times> feature_obj) res" where
  "getRFCName S feature obj = rbind (GetJsonVal S (Some feature) ''name'' RFC_MAX_LEN)
     (\<lambda>(size, b). Inr (if size \<noteq> 0 then (SUCCESS, obj\<lparr>ft_name := b\<rparr>) else (FAILURE, obj)))"

definition getFeatureInstance :: "'e sys \<Rightarrow> json \<Rightarrow> feature_obj \<Rightarrow> (int \<times> feature_obj) res" where
  "getFeatureInstance S feature obj = rbind (GetJsonVal S (Some feature) ''featureInstance'' RFC_MAX_LEN)
     (\<lambda>(size, b). Inr (if size \<noteq> 0 then (SUCCESS, obj\<lparr>ft_instance := b\<rparr>) else (FAILURE, obj)))"

definition getRFCEnableParam :: "'e sys \<Rightarrow> json \<Rightarrow> feature_obj \<Rightarrow> (int \<times> feature_obj) res" where
  "getRFCEnableParam S feature obj = rbind (GetJsonVal S (Some feature) ''enable'' 6)
     (\<lambda>(size, b). Inr (if size \<noteq> 0 then (SUCCESS, obj\<lparr>ft_enable := flag_true b\<rparr>) else (FAILURE, obj)))"

definition getEffectiveImmediateParam :: "'e sys \<Rightarrow> json \<Rightarrow> feature_obj \<Rightarrow> (int \<times> feature_obj) res" where
  "getEffectiveImmediateParam S feature obj = rbind (GetJsonVal S (Some feature) ''effectiveImmediate'' 6)
     (\<lambda>(size, b). Inr (if size \<noteq> 0 then (SUCCESS, obj\<lparr>ft_immediate := flag_true b\<rparr>) else (FAILURE, obj)))"

definition isFeatureEffectiveImmediate :: "'e sys \<Rightarrow> json \<Rightarrow> bool res" where
  "isFeatureEffectiveImmediate S feature = rbind (GetJsonVal S (Some feature) ''effectiveImmediate'' 6)
     (\<lambda>(size, b). Inr (size \<noteq> 0 \<and> flag_true b))"

section \<open>The feature array\<close>

text \<open>A parsed document is allocated by the parser and released with \<open>FreeJson\<close>; releasing it a second time
  is undefined.\<close>

datatype doc = Live | Freed

definition release_doc :: "doc \<Rightarrow> doc res" where
  "release_doc d = (case d of Live \<Rightarrow> Inr Freed | Freed \<Rightarrow> Inl UseAfterFree)"

text \<open>The lookup releases the document of the caller when it does not find the array.\<close>

definition GetRuntimeFeatureControlJSON :: "'e sys \<Rightarrow> json \<Rightarrow> doc \<Rightarrow> (json option \<times> doc) res" where
  "GetRuntimeFeatureControlJSON S j d = (case GetJsonItem S (Some j) ''featureControl'' of
       None \<Rightarrow> rbind (release_doc d) (\<lambda>d1. Inr (None, d1))
     | Some fc \<Rightarrow> (case GetJsonItem S (Some fc) ''features'' of
           None \<Rightarrow> rbind (release_doc d) (\<lambda>d1. Inr (None, d1))
         | Some fs \<Rightarrow> if \<not> IsJsonArray fs then rbind (release_doc d) (\<lambda>d1. Inr (None, d1))
                      else Inr (Some fs, d)))"

text \<open>The array that is looked up.\<close>

definition feature_array :: "'e sys \<Rightarrow> json \<Rightarrow> json option" where
  "feature_array S j = (case GetJsonItem S (Some j) ''featureControl'' of
       None \<Rightarrow> None
     | Some fc \<Rightarrow> (case GetJsonItem S (Some fc) ''features'' of
           None \<Rightarrow> None
         | Some fs \<Rightarrow> if \<not> IsJsonArray fs then None else Some fs))"

lemma release_doc_simps [simp]: "release_doc Live = Inr Freed" "release_doc Freed = Inl UseAfterFree"
  by (simp_all add: release_doc_def)

lemma GetRuntimeFeatureControlJSON_live [simp]:
  "GetRuntimeFeatureControlJSON S j Live =
     Inr (feature_array S j, if feature_array S j = None then Freed else Live)"
  by (auto simp: GetRuntimeFeatureControlJSON_def feature_array_def split: option.splits)

text \<open>The features the index loops visit.\<close>

definition feature_list :: "'e sys \<Rightarrow> json \<Rightarrow> json list" where
  "feature_list S fs = List.map_filter (GetJsonArrayItem S fs) [0..<GetJsonArraySize S (Some fs)]"

section \<open>Buffers and reference access\<close>

lemma getitemval_fits: "0 < n \<Longrightarrow> getitemval item n = Inr (len, out) \<Longrightarrow> length out < n"
  by (auto simp: getitemval_def buf_copy_length Let_def split: json.splits if_splits)

lemma GetJsonVal_fits: "0 < n \<Longrightarrow> GetJsonVal S j k n = Inr (len, out) \<Longrightarrow> length out < n"
  by (auto simp: GetJsonVal_def dest: getitemval_fits split: option.splits if_splits)

lemma getRFCName_fits:
  "getRFCName S f obj = Inr (r, obj') \<Longrightarrow> length (ft_name obj) < RFC_MAX_LEN \<Longrightarrow>
     length (ft_name obj') < RFC_MAX_LEN"
  using GetJsonVal_fits [of RFC_MAX_LEN S "Some f" "''name''"]
  by (auto simp: getRFCName_def RFC_MAX_LEN_def split: if_splits prod.splits)

lemma map_filter_nth:
  "List.map_filter (\<lambda>i. if i < length xs then Some (xs ! i) else None) [0..<length xs] = xs"
proof -
  have "List.map_filter (\<lambda>i. if i < length xs then Some (xs ! i) else None) [0..<length xs] =
      map (\<lambda>i. xs ! i) [0..<length xs]"
    by (simp add: List.map_filter_def)
  then show ?thesis by (simp add: map_nth)
qed

text \<open>With the documented cJSON accessors the loops visit the array's elements in order.\<close>

definition cjson_arrays :: "'e sys \<Rightarrow> bool" where
  "cjson_arrays S \<longleftrightarrow> (\<forall>xs. cJSON_GetArraySize S (JArray xs) = length xs \<and>
     (\<forall>i. cJSON_GetArrayItem S (JArray xs) i = (if i < length xs then Some (xs ! i) else None)))"

lemma feature_list_array: "cjson_arrays S \<Longrightarrow> feature_list S (JArray fs) = fs"
proof -
  assume a: "cjson_arrays S"
  then have "GetJsonArrayItem S (JArray fs) = (\<lambda>i. if i < length fs then Some (fs ! i) else None)"
    by (simp add: fun_eq_iff GetJsonArrayItem_def cjson_arrays_def)
  with a show ?thesis by (simp add: feature_list_def GetJsonArraySize_def cjson_arrays_def map_filter_nth)
qed

lemma ref_cjson_arrays [simp]: "cjson_arrays (ref_sys p parse)"
  by (simp add: cjson_arrays_def ref_sys_def ref_array_size_def ref_array_item_def)

end
