(* ===== verification/Rfc_Processor.thy ===== *)
theory Rfc_Processor
  imports Rfc_Json
begin

text \<open>
  The state of \<open>RuntimeFeatureControlProcessor\<close> (with its base class \<open>XconfHandler\<close>) and its
  initialisation: device identity, partner and account ids, server URL, debug-services unlock.  The
  record extends \<open>world\<close>, so every operation on the world applies to it.  Shown here: what the
  initialisation leaves in the state machine, that waiting for the bootstrap URL is bounded, when
  debug services unlock, and where the server URL comes from.
\<close>

section \<open>State\<close>

datatype RfcState = Invalid | Init | Local | Redo | Redo_With_Valid_Data | Finish

record 'e proc = "'e world" +
  estb_mac_address :: string
  firmware_version :: string
  ebuild_type :: build_type
  build_type_str :: string
  model_number :: string
  manufacturer :: string
  ecm_mac_address :: string
  partner_id :: string
  accountId :: string
  experience :: string
  osclass :: string
  xconf_server_url :: string
  rfcSelectOpt :: string
  bkup_hash :: string
  rfcRebootCronNeeded :: bool
  effectiveImmediateParams :: "string list"
  RFCKeyAndValueMap :: "(string, string) std_map"
  rfc_state :: RfcState
  last_firmware :: string
  boot_strap_xconf_url :: string
  valid_accountId :: string
  valid_partnerId :: string
  stashAccountId :: string
  partnerId :: string
  serialNumber :: string
  extendermacAddress :: string
  isRebootRequired :: bool
  is_first_request :: bool
  url_validation_in_progress :: bool
  rfcSelectorSlot :: string

section \<open>Keys and paths\<close>

definition XCONF_SELECTOR_KEY_STR :: string where
  [path_defs]: "XCONF_SELECTOR_KEY_STR = ''Device.DeviceInfo.X_RDKCENTRAL-COM_RFC.Control.XconfSelector''"
definition XCONF_URL_KEY_STR :: string where
  [path_defs]: "XCONF_URL_KEY_STR = ''Device.DeviceInfo.X_RDKCENTRAL-COM_RFC.Control.XconfUrl''"
definition RFC_ACCOUNT_ID_KEY_STR :: string where
  [path_defs]: "RFC_ACCOUNT_ID_KEY_STR = ''Device.DeviceInfo.X_RDKCENTRAL-COM_RFC.Feature.AccountInfo.AccountID''"
definition RFC_PARTNER_ID_KEY_STR :: string where
  [path_defs]: "RFC_PARTNER_ID_KEY_STR = ''Device.DeviceInfo.X_RDKCENTRAL-COM_Syndication.PartnerId''"
definition RFC_OSCLASS_KEY_STR :: string where
  [path_defs]: "RFC_OSCLASS_KEY_STR = ''Device.DeviceInfo.X_RDKCENTRAL-COM_RFC.Bootstrap.OsClass''"
definition RFC_PARTNERNAME_KEY_STR :: string where
  [path_defs]: "RFC_PARTNERNAME_KEY_STR = ''Device.DeviceInfo.X_RDKCENTRAL-COM_RFC.Bootstrap.PartnerName''"
definition RFC_CONFIG_SET_HASH :: string where
  [path_defs]: "RFC_CONFIG_SET_HASH = ''Device.DeviceInfo.X_RDKCENTRAL-COM_RFC.Control.ConfigSetHash''"
definition RFC_CONFIG_SET_TIME :: string where
  [path_defs]: "RFC_CONFIG_SET_TIME = ''Device.DeviceInfo.X_RDKCENTRAL-COM_RFC.Control.ConfigSetTime''"
definition TELEMETRY_CONFIG_URL :: string where
  [path_defs]: "TELEMETRY_CONFIG_URL = ''Device.DeviceInfo.X_RDKCENTRAL-COM_RFC.Feature.Telemetry.ConfigURL''"
definition RFC_DEBUGSRV :: string where
  [path_defs]: "RFC_DEBUGSRV = ''Device.DeviceInfo.X_RDKCENTRAL-COM_RFC.Identity.DbgServices.Enable''"
definition RFC_DEVICETYPE :: string where
  [path_defs]: "RFC_DEVICETYPE = ''Device.DeviceInfo.X_RDKCENTRAL-COM_RFC.Identity.DeviceType''"

definition BOOTSTRAP_XCONF_URL_KEY_STR :: "platform \<Rightarrow> string" where
  "BOOTSTRAP_XCONF_URL_KEY_STR p =
     (if is_rdkb p then ''Device.DeviceInfo.X_RDKCENTRAL-COM_Syndication.XconfURL''
      else ''Device.DeviceInfo.X_RDKCENTRAL-COM_RFC.Bootstrap.XconfUrl'')"

definition RFC_PROPERTIES_FILE :: string where
  [path_defs]: "RFC_PROPERTIES_FILE = ''/etc/rfc.properties''"
definition RFC_PROPERTIES_PERSISTENCE_FILE :: "platform \<Rightarrow> string" where
  "RFC_PROPERTIES_PERSISTENCE_FILE p = (if is_rdkb p then ''/nvram/rfc.properties'' else ''/opt/rfc.properties'')"
definition DEVICE_PROPERTIES_FILE :: string where
  [path_defs]: "DEVICE_PROPERTIES_FILE = ''/etc/device.properties''"
definition RFC_LAST_VERSION :: string where
  [path_defs]: "RFC_LAST_VERSION = ''/opt/secure/RFC/.version''"
definition TIME_VALUE_FILE :: string where
  [path_defs]: "TIME_VALUE_FILE = ''/tmp/RFC/.timeValue''"
definition HASH_VALUE_FILE :: string where
  [path_defs]: "HASH_VALUE_FILE = ''/tmp/RFC/.hashValue''"
definition PARAM_RFC_FILE :: string where
  [path_defs]: "PARAM_RFC_FILE = ''/tmp/.paramRFC''"

section \<open>Telemetry\<close>

definition NotifyTelemetry2Count :: "string \<Rightarrow> ('e, 'z) world_scheme \<Rightarrow> ('e, 'z) world_scheme" where
  "NotifyTelemetry2Count marker w = emit (Telemetry marker ''1'') w"

definition NotifyTelemetry2Value :: "string \<Rightarrow> string \<Rightarrow> ('e, 'z) world_scheme \<Rightarrow> ('e, 'z) world_scheme" where
  "NotifyTelemetry2Value marker v w = emit (Telemetry marker v) w"

section \<open>Device identity\<close>

text \<open>A string copied into the 200-byte buffer, with its length; nothing is copied when it is empty.\<close>

definition buf200 :: "string \<Rightarrow> nat \<times> string" where
  "buf200 s = (if s \<noteq> [] then (length (buf_copy 200 s), buf_copy 200 s) else (0, []))"

definition if_len :: "nat \<times> string \<Rightarrow> string \<Rightarrow> string" where
  "if_len r old = (if fst r \<noteq> 0 then snd r else old)"

definition initializeXconfHandler :: "'e sys \<Rightarrow> 'e proc \<Rightarrow> int \<times> 'e proc" where
  "initializeXconfHandler S p =
     (let e = env p; q = (\<lambda>i. device_info S e i 200);
          mac = (if is_rdkb (plat S) then buf200 (snd (q QErouterMac))
                 else if plat S = RDKC then buf200 (snd (q QCameraMac)) else q QEstbMac);
          p1 = p\<lparr>estb_mac_address := if_len mac (estb_mac_address p)\<rparr>;
          p2 = p1\<lparr>firmware_version := if_len (q QFirmwareVersion) (firmware_version p1)\<rparr>;
          p3 = p2\<lparr>ebuild_type := device_build S e, build_type_str := if_len (q QBuildType) (build_type_str p2)\<rparr>;
          p4 = p3\<lparr>model_number := if_len (q QModelNum) (model_number p3)\<rparr>;
          cm = buf200 (snd (q QeCMMac));
          p5 = (if is_rdkb (plat S)
                then p4\<lparr>ecm_mac_address := if_len (if snd (q QeCMMac) \<noteq> [] then fst cm else fst (q QModelNum), snd cm)
                          (ecm_mac_address p4)\<rparr>
                else if plat S = RDKC then p4
                else p4\<lparr>manufacturer := if_len (q QMFRName) (manufacturer p4)\<rparr>);
          p6 = (if plat S = RDKC then p5\<lparr>partner_id := snd (q QCameraPartnerId)\<rparr>
                else p5\<lparr>partner_id := if_len (q QPartnerId) ''Unknown''\<rparr>)
      in (0, p6))"

definition checkWhoamiSupport :: "'e sys \<Rightarrow> ('e, 'z) world_scheme \<Rightarrow> bool" where
  "checkWhoamiSupport S w =
     (let r = getDevicePropertyData S (env w) ''WHOAMI_SUPPORT'' 8
      in fst r = 1 \<and> strcasecmp_eq (snd r) ''true'')"

definition isDebugServicesEnabled :: "'e sys \<Rightarrow> 'e proc \<Rightarrow> (bool \<times> 'e proc) res" where
  "isDebugServicesEnabled S p =
     rbind (read_RFCProperty S ''DEBUGSRV'' RFC_DEBUGSRV [] RFC_VALUE_BUF_SIZE p)
       (\<lambda>(ret, data, p'). Inr (ret \<noteq> -1 \<and> strncmp_eq data ''true'' (RFC_VALUE_BUF_SIZE + 1), p'))"

definition getDeviceTypeRFC :: "'e sys \<Rightarrow> nat \<Rightarrow> 'e proc \<Rightarrow> (string \<times> 'e proc) res" where
  "getDeviceTypeRFC S n p =
     rbind (read_RFCProperty S ''LABSGND'' RFC_DEVICETYPE [] RFC_VALUE_BUF_SIZE p)
       (\<lambda>(ret, data, p'). Inr (buf_copy n
          (if ret = -1 then ''unknown''
           else if strncasecmp_eq data ''prod'' 4 then ''prod''
           else if strncasecmp_eq data ''test'' 4 then ''test'' else ''unknown''), p'))"

definition isSecureDbgSrvUnlocked :: "'e sys \<Rightarrow> 'e proc \<Rightarrow> (bool \<times> 'e proc) res" where
  "isSecureDbgSrvUnlocked S p =
     (if ebuild_type p \<noteq> ePROD \<and> ebuild_type p \<noteq> eUNKNOWN
      then Inr (True, NotifyTelemetry2Count ''SYST_INFO_RFC_DbgSrv'' p)
      else if ebuild_type p = ePROD then
        rbind (isDebugServicesEnabled S p) (\<lambda>(dbgServices, p1).
        rbind (getDeviceTypeRFC S 16 p1) (\<lambda>(deviceType, p2).
          let r = getDevicePropertyData S (env p2) ''LABSIGNED_ENABLED'' 8 in
          if fst r = 1 \<and> strcasecmp_eq (snd r) ''true'' \<and> strcasecmp_eq deviceType ''test'' \<and> dbgServices
          then Inr (True, NotifyTelemetry2Count ''SYST_INFO_RFC_DbgSrv'' p2)
          else Inr (False, p2)))
      else Inr (False, p))"

definition IsNewFirmwareFirstRequest :: "'e proc \<Rightarrow> bool" where
  "IsNewFirmwareFirstRequest p \<longleftrightarrow>
     last_firmware p = [] \<or> (firmware_version p \<noteq> [] \<and> last_firmware p \<noteq> firmware_version p)"

definition GetLastProcessedFirmware :: "string \<Rightarrow> 'e proc \<Rightarrow> int \<times> 'e proc" where
  "GetLastProcessedFirmware f p = (case files p f of
       None \<Rightarrow> (FAILURE, p)
     | Some c \<Rightarrow> (let p' = p\<lparr>last_firmware := first_line c\<rparr>
                 in if last_firmware p' = [] then (FAILURE, p') else (SUCCESS, p')))"

section \<open>Account, partner, class\<close>

definition saveAccountIdToFile ::
    "'e sys \<Rightarrow> string \<Rightarrow> string \<Rightarrow> string \<Rightarrow> ('e, 'z) world_scheme \<Rightarrow> ('e, 'z) world_scheme" where
  "saveAccountIdToFile S acc pname ptype w = write_file S PARAM_RFC_FILE
     (unlines [''name: '' @ pname @ '','', ''type: '' @ ptype @ '','', ''value: '' @ acc]) w"

definition trim_ws :: "string \<Rightarrow> string" where
  "trim_ws s = (let ws = (\<lambda>c. c = CHR '' '' \<or> c = TAB \<or> c = NL \<or> c = CR)
                in rev (dropWhile ws (rev (dropWhile ws s))))"

fun account_scan :: "string list \<Rightarrow> string" where
  "account_scan [] = []"
| "account_scan (l # ls) = (case str_find l ''value:'' of
       None \<Rightarrow> account_scan ls
     | Some i \<Rightarrow> trim_ws (drop (i + 6) l))"

definition readAccountIdFromFile :: "('e, 'z) world_scheme \<Rightarrow> string" where
  "readAccountIdFromFile w = (case files w PARAM_RFC_FILE of
       None \<Rightarrow> [] | Some c \<Rightarrow> account_scan (map cstr (fgets_all 1024 c)))"

definition rfcCheckAccountId :: "'e sys \<Rightarrow> 'e proc \<Rightarrow> (unit \<times> 'e proc) res" where
  "rfcCheckAccountId S p =
     rbind (read_RFCProperty S ''AccountID'' RFC_ACCOUNT_ID_KEY_STR [] 1024 p)
       (\<lambda>(i, buf, p1). Inr ((), saveAccountIdToFile S (if i = READ_RFC_FAILURE then ''Unknown'' else buf)
          RFC_ACCOUNT_ID_KEY_STR ''string'' p1))"

definition GetAccountID :: "'e sys \<Rightarrow> 'e proc \<Rightarrow> (unit \<times> 'e proc) res" where
  "GetAccountID S p =
     rbind (read_RFCProperty S ''AccountID'' RFC_ACCOUNT_ID_KEY_STR [] 1024 p)
       (\<lambda>(i, buf, p1).
          if i = READ_RFC_FAILURE then Inr ((), p1)
          else
            let p2 = p1\<lparr>accountId := buf\<rparr>;
                p3 = (if is_rdkb (plat S)
                      then (let a = (if \<not> file_present TIME_VALUE_FILE p2 then ''Unknown'' else accountId p2)
                            in saveAccountIdToFile S a RFC_ACCOUNT_ID_KEY_STR ''string'' (p2\<lparr>accountId := a\<rparr>))
                      else p2)
            in Inr ((), if accountId p3 = [] \<or> last_firmware p3 \<noteq> firmware_version p3
                        then p3\<lparr>accountId := ''Unknown''\<rparr> else p3))"

definition GetRFCPartnerID :: "'e sys \<Rightarrow> 'e proc \<Rightarrow> (unit \<times> 'e proc) res" where
  "GetRFCPartnerID S p =
     (if checkWhoamiSupport S p then
        rbind (read_RFCProperty S ''PartnerName'' RFC_PARTNERNAME_KEY_STR [] 1024 p)
          (\<lambda>(i, buf, p1). Inr ((), if i = READ_RFC_FAILURE then p1 else p1\<lparr>partnerId := buf\<rparr>))
      else Inr ((), p\<lparr>partnerId := partner_id p\<rparr>))"

text \<open>A file that cannot be opened makes the function return -1, which as a bool is true.\<close>

definition isMaintenanceEnabled :: "('e, 'z) world_scheme \<Rightarrow> bool" where
  "isMaintenanceEnabled w = (case files w DEVICE_PROPERTIES_FILE of
       None \<Rightarrow> True | Some c \<Rightarrow> ''ENABLE_MAINTENANCE=true'' \<in> set (getlines c))"

definition GetOsClass :: "'e sys \<Rightarrow> 'e proc \<Rightarrow> (unit \<times> 'e proc) res" where
  "GetOsClass S p =
     (if checkWhoamiSupport S p then
        rbind (read_RFCProperty S ''OsClass'' RFC_OSCLASS_KEY_STR [] 100 p)
          (\<lambda>(i, buf, p1). Inr ((), if i = READ_RFC_FAILURE then p1 else p1\<lparr>osclass := buf\<rparr>))
      else Inr ((), p))"

definition upto_crlf :: "string \<Rightarrow> string" where
  "upto_crlf s = takeWhile (\<lambda>c. c \<noteq> CR \<and> c \<noteq> NL) (cstr s)"

definition GetSerialNumber :: "'e sys \<Rightarrow> 'e proc \<Rightarrow> 'e proc" where
  "GetSerialNumber S p = (case popen_out S (env p) ''/usr/sbin/deviceinfo.sh -sn'' of
       None \<Rightarrow> p
     | Some out \<Rightarrow> if out = [] then p else p\<lparr>serialNumber := upto_crlf (fst (fgets 256 out))\<rparr>)"

definition EXTENDER_MAC_CMD :: string where
  "EXTENDER_MAC_CMD = ''cat /sys/class/net/eth0/address | tr '' @ CHR 0x27 # ''[a-f]'' @ CHR 0x27 # CHR '' '' #
     CHR 0x27 # ''[A-F]'' @ [CHR 0x27]"

definition GetExtenderMacAddress :: "'e sys \<Rightarrow> 'e proc \<Rightarrow> 'e proc" where
  "GetExtenderMacAddress S p = (case popen_out S (env p) EXTENDER_MAC_CMD of
       None \<Rightarrow> p
     | Some out \<Rightarrow> if out = [] then p else p\<lparr>extendermacAddress := upto_crlf (fst (fgets 32 out))\<rparr>)"

definition EXPERIENCE_REQUEST :: string where
  "EXPERIENCE_REQUEST = CHR ''{'' # DQ # ''jsonrpc'' @ DQ # '':'' @ DQ # ''2.0'' @ DQ # '','' @ DQ # ''id'' @ DQ #
     '':'' @ DQ # ''3'' @ DQ # '','' @ DQ # ''method'' @ DQ # '':'' @ DQ # ''org.rdk.AuthService.getExperience'' @
     DQ # '', '' @ DQ # ''params'' @ DQ # '':{}}''"

text \<open>The buffer the answer is written to starts empty; it stays so when no request can be made.\<close>

definition getJsonRpc :: "'e sys \<Rightarrow> string \<Rightarrow> ('e, 'z) world_scheme \<Rightarrow> string" where
  "getJsonRpc S post w = (if curl_init S (env w)
     then (case jsonrpc S (env w) post of None \<Rightarrow> [] | Some r \<Rightarrow> r) else [])"

definition query_experience :: "'e sys \<Rightarrow> ('e, 'z) world_scheme \<Rightarrow> (int \<times> string) res" where
  "query_experience S w =
     (if \<not> alloc_ok S (env w) 0 then Inr (-1, [])
      else (case cJSON_Parse S (cstr (getJsonRpc S EXPERIENCE_REQUEST w)) of
          None \<Rightarrow> Inr (-1, [])
        | Some j \<Rightarrow> (case GetJsonItem S (Some j) ''result'' of
              None \<Rightarrow> Inr (-1, [])
            | Some item \<Rightarrow> rbind (GetJsonVal S (Some item) ''experience'' 1024)
                (\<lambda>(n, b). Inr (int n, b)))))"

definition GetExperience :: "'e sys \<Rightarrow> 'e proc \<Rightarrow> (int \<times> 'e proc) res" where
  "GetExperience S p =
     rbind (query_experience S p) (\<lambda>(i, buf).
       if buf = []
       then (if is_rdkb (plat S) then Inr (0, p\<lparr>experience := []\<rparr>) else Inr (3, p\<lparr>experience := ''X1''\<rparr>))
       else Inr (i, p\<lparr>experience := buf\<rparr>))"

definition getJRPCTokenData :: "'e sys \<Rightarrow> string \<Rightarrow> nat \<Rightarrow> (int \<times> string) res" where
  "getJRPCTokenData S jsonStr token_size = (case cJSON_Parse S (cstr jsonStr) of
       None \<Rightarrow> Inr (-1, [])
     | Some j \<Rightarrow>
         rbind (GetJsonVal S (Some j) ''token'' token_size) (\<lambda>(_, token).
         rbind (GetJsonVal S (Some j) ''success'' 8) (\<lambda>_. Inr (0, token))))"

section \<open>The server URL\<close>

definition SYNDICATION_URL_CMD :: string where
  "SYNDICATION_URL_CMD = ''dmcli eRT getv Device.DeviceInfo.X_RDKCENTRAL-COM_Syndication.XconfURL | grep string | cut -d''
     @ DQ # '':'' @ DQ # '' -f3- | cut -d'' @ DQ # '' '' @ DQ # '' -f2- | tr -d '' @ CHR 0x27 # '' '' @ [CHR 0x27]"

definition rstrip_crlf :: "string \<Rightarrow> string" where
  "rstrip_crlf s = (let r = rev (dropWhile (\<lambda>c. c = CR \<or> c = NL) (rev s)) in if r = [] then s else r)"

definition syndication_url :: "'e sys \<Rightarrow> ('e, 'z) world_scheme \<Rightarrow> string" where
  "syndication_url S w = (case popen_out S (env w) SYNDICATION_URL_CMD of
       None \<Rightarrow> [] | Some out \<Rightarrow> if out = [] then [] else rstrip_crlf (cstr (fst (fgets 256 out))))"

definition prefix_values :: "string \<Rightarrow> string list \<Rightarrow> string list" where
  "prefix_values k ls = map (drop (length k)) (filter (prefix k) ls)"

definition GetServURL :: "'e sys \<Rightarrow> string \<Rightarrow> 'e proc \<Rightarrow> int \<times> 'e proc" where
  "GetServURL S f p = (case files p f of
       None \<Rightarrow> (FAILURE, p)
     | Some c \<Rightarrow>
         let ls = getlines c;
             urls = prefix_values ''RFC_CONFIG_SERVER_URL='' ls;
             eus = prefix_values ''RFC_CONFIG_SERVER_URL_EU='' ls;
             url = (if is_rdkb (plat S) then
                      (let u = (if urls = [] then [] else last urls); eu = (if eus = [] then [] else last eus);
                           alt = (if partnerId p = ''sky-uk'' \<and> eu \<noteq> [] then eu else u) in
                       if rfc_state p \<noteq> Local then
                         (let t = syndication_url S p in
                          if t \<noteq> [] then t @ ''/featureControl/getSettings'' else alt)
                       else alt)
                    else (if urls = [] then [] else hd urls));
             p' = p\<lparr>xconf_server_url := url\<rparr>
         in if url = [] then (FAILURE, p') else (SUCCESS, p'))"

text \<open>Up to ten reads, ten seconds apart; the buffer is kept between the reads.\<close>

function bootstrap_url_loop ::
    "'e sys \<Rightarrow> nat \<Rightarrow> string \<Rightarrow> 'e proc \<Rightarrow> (int \<times> string option \<times> 'e proc) res" where
  "bootstrap_url_loop S retryCount buf p =
     (if \<not> retryCount < 10 then Inr (-1, None, p)
      else rbind (read_RFCProperty S ''XconfUrl'' (BOOTSTRAP_XCONF_URL_KEY_STR (plat S)) buf 1024 p)
        (\<lambda>(i, buf', p1).
           if i = READ_RFC_FAILURE
           then (if retryCount < 9 then bootstrap_url_loop S (Suc retryCount) buf' (do_sleep S 10 p1)
                 else Inr (-1, None, p1))
           else Inr (0, Some buf', p1)))"
  by pat_completeness auto
termination
  by (relation "measure (\<lambda>(S, n, b, p). 10 - n)") auto

declare bootstrap_url_loop.simps [simp del]

definition GetBootstrapXconfUrl :: "'e sys \<Rightarrow> 'e proc \<Rightarrow> (int \<times> 'e proc) res" where
  "GetBootstrapXconfUrl S p =
     rbind (bootstrap_url_loop S 0 [] p) (\<lambda>(rc, url, p1).
       Inr (rc, case url of None \<Rightarrow> p1 | Some u \<Rightarrow> p1\<lparr>boot_strap_xconf_url := u\<rparr>))"

text \<open>The initialisation in three parts: choosing the properties file, the server URL with the
  experience, and the ids that go into the request.\<close>

definition init_choose :: "'e sys \<Rightarrow> 'e proc \<Rightarrow> (string \<times> 'e proc) res" where
  "init_choose S p =
     (let over = RFC_PROPERTIES_PERSISTENCE_FILE (plat S) in
      rbind (if file_present over p then isSecureDbgSrvUnlocked S p else Inr (False, p)) (\<lambda>(use_local, p1).
        Inr (if use_local then (over, p1\<lparr>rfc_state := Local\<rparr>)
             else (RFC_PROPERTIES_FILE, p1\<lparr>rfc_state := Init\<rparr>))))"

definition init_ids :: "'e sys \<Rightarrow> 'e proc \<Rightarrow> (int \<times> 'e proc) res" where
  "init_ids S p =
     (let (_, p1) = GetLastProcessedFirmware RFC_LAST_VERSION p in
      rbind (GetAccountID S p1) (\<lambda>(_, p2).
      rbind (GetOsClass S p2) (\<lambda>(_, p3).
        let p4 = (if plat S = RDKB_EXTENDER then GetSerialNumber S (GetExtenderMacAddress S p3) else p3)
        in Inr (SUCCESS, p4\<lparr>is_first_request :=
             (if is_rdkb (plat S) then \<not> file_present TIME_VALUE_FILE p4
              else IsNewFirmwareFirstRequest p4)\<rparr>))))"

definition init_server :: "'e sys \<Rightarrow> string \<Rightarrow> 'e proc \<Rightarrow> (int \<times> 'e proc) res" where
  "init_server S rfc_file p =
     (let (rc1, p1) = GetServURL S rfc_file p in
      if rc1 \<noteq> SUCCESS then Inr (FAILURE, p1)
      else rbind (GetExperience S p1) (\<lambda>(rc2, p2).
        if rc2 = -1 then Inr (FAILURE, p2) else init_ids S p2))"

definition InitializeRuntimeFeatureControlProcessor :: "'e sys \<Rightarrow> 'e proc \<Rightarrow> (int \<times> 'e proc) res" where
  "InitializeRuntimeFeatureControlProcessor S p0 =
     rbind (if plat S = RDKC then Inr (0, p0) else GetBootstrapXconfUrl S p0) (\<lambda>(_, p1).
     let (rc, p2) = initializeXconfHandler S p1 in
     if rc \<noteq> 0 then Inr (FAILURE, p2)
     else rbind (GetRFCPartnerID S p2) (\<lambda>(_, p3).
          rbind (init_choose S p3) (\<lambda>(rfc_file, p4). init_server S rfc_file p4)))"

section \<open>What the identity operations leave alone\<close>

lemma NotifyTelemetry2_simps [simp, frame_simps]:
  "files (NotifyTelemetry2Count m w) = files w" "env (NotifyTelemetry2Count m w) = env w"
  "files (NotifyTelemetry2Value m v w) = files w" "env (NotifyTelemetry2Value m v w) = env w"
  "world.more (NotifyTelemetry2Count m w) = world.more w" "world.more (NotifyTelemetry2Value m v w) = world.more w"
  "log (NotifyTelemetry2Count m w) = log w @ [Telemetry m ''1'']"
  "log (NotifyTelemetry2Value m v w) = log w @ [Telemetry m v]"
  by (simp_all add: NotifyTelemetry2Count_def NotifyTelemetry2Value_def)

text \<open>The extension part of two states determines every field of the processor.\<close>

lemma proc_more_eq:
  "world.more p = world.more q \<Longrightarrow> boot_strap_xconf_url p = boot_strap_xconf_url q"
  "world.more p = world.more q \<Longrightarrow> ebuild_type p = ebuild_type q"
  "world.more p = world.more q \<Longrightarrow> rfc_state p = rfc_state q"
  "world.more p = world.more q \<Longrightarrow> xconf_server_url p = xconf_server_url q"
  "world.more p = world.more q \<Longrightarrow> is_first_request p = is_first_request q"
  "world.more p = world.more q \<Longrightarrow> accountId p = accountId q"
  "world.more p = world.more q \<Longrightarrow> partner_id p = partner_id q"
  "world.more p = world.more q \<Longrightarrow> rfcSelectOpt p = rfcSelectOpt q"
  "world.more p = world.more q \<Longrightarrow> RFCKeyAndValueMap p = RFCKeyAndValueMap q"
  "world.more p = world.more q \<Longrightarrow> url_validation_in_progress p = url_validation_in_progress q"
  "world.more p = world.more q \<Longrightarrow> last_firmware p = last_firmware q"
  "world.more p = world.more q \<Longrightarrow> firmware_version p = firmware_version q"
  for p q :: "'e proc"
  by (cases p; cases q; simp)+

lemma bootstrap_url_loop_bounded:
  "bootstrap_url_loop S n buf p = Inr (rc, url, p') \<Longrightarrow> n < 10 \<Longrightarrow>
     \<exists>k. k + n \<le> 9 \<and> log p' = log p @ replicate k (SleepSec 10) \<and> world.more p' = world.more p \<and>
         (url = None \<longrightarrow> rc = -1 \<and> k + n = 9) \<and> (url \<noteq> None \<longrightarrow> rc = 0)"
proof (induction "9 - n" arbitrary: n buf p)
  case 0
  then have n: "n = 9" by simp
  with 0(2) obtain i buf' where rd:
      "read_RFCProperty S ''XconfUrl'' (BOOTSTRAP_XCONF_URL_KEY_STR (plat S)) buf 1024 p = Inr (i, buf', p')"
      "if url = None then rc = -1 else rc = 0"
    by (subst (asm) bootstrap_url_loop.simps) (auto split: if_splits)
  from read_RFCProperty_frame [OF rd(1)] rd(2) n show ?case by (auto simp: param_frame_def)
next
  case (Suc m)
  then have n: "n < 9" by simp
  with Suc(3) obtain i buf' p1 where rd:
      "read_RFCProperty S ''XconfUrl'' (BOOTSTRAP_XCONF_URL_KEY_STR (plat S)) buf 1024 p = Inr (i, buf', p1)"
      "if i = READ_RFC_FAILURE then bootstrap_url_loop S (Suc n) buf' (do_sleep S 10 p1) = Inr (rc, url, p')
       else rc = 0 \<and> url = Some buf' \<and> p' = p1"
    by (subst (asm) bootstrap_url_loop.simps) (auto split: if_splits)
  from read_RFCProperty_frame [OF rd(1)] have l: "log p1 = log p" "world.more p1 = world.more p"
    by (simp_all add: param_frame_def)
  show ?case
  proof (cases "i = READ_RFC_FAILURE")
    case True
    with Suc(1) [of "Suc n" buf' "do_sleep S 10 p1"] Suc(2) n rd(2) obtain k where
        "k + Suc n \<le> 9" "log p' = log (do_sleep S 10 p1) @ replicate k (SleepSec 10)"
        "world.more p' = world.more p1" "url = None \<longrightarrow> rc = -1 \<and> k + Suc n = 9" "url \<noteq> None \<longrightarrow> rc = 0" by fastforce
    then show ?thesis using l by (intro exI [of _ "Suc k"]) auto
  next
    case False
    with rd(2) l n show ?thesis by (intro exI [of _ 0]) auto
  qed
qed

lemma fgets_line: "NL \<notin> set l \<Longrightarrow> length l + 1 < n \<Longrightarrow> fgets n (l @ NL # rest) = (l @ [NL], rest)"
proof (induction n "l @ NL # rest" arbitrary: l rule: fgets.induct)
  case (4 n c s)
  then show ?case by (cases l) auto
qed auto

lemma fgets_all_lines:
  "\<forall>l\<in>set ls. NL \<notin> set l \<and> length l + 1 < n \<Longrightarrow> fgets_all n (unlines ls) = map (\<lambda>l. l @ [NL]) ls"
proof (induction ls)
  case (Cons l ls)
  then have "fgets n (l @ NL # unlines ls) = (l @ [NL], unlines ls)" by (intro fgets_line) auto
  with Cons show ?case by (subst fgets_all.simps) auto
qed simp

lemma trim_ws_id:
  "s \<noteq> [] \<Longrightarrow> \<not> isspace (hd s) \<Longrightarrow> \<not> isspace (last s) \<Longrightarrow> trim_ws (CHR '' '' # s @ [NL]) = s"
proof -
  assume a: "s \<noteq> []" "\<not> isspace (hd s)" "\<not> isspace (last s)"
  obtain c t where s: "s = c # t" using a(1) by (cases s) auto
  obtain u d where s': "rev s = d # u" "d = last s" using a(1) by (cases s rule: rev_cases) auto
  have "c \<noteq> CHR '' '' \<and> c \<noteq> TAB \<and> c \<noteq> NL \<and> c \<noteq> CR" "d \<noteq> CHR '' '' \<and> d \<noteq> TAB \<and> d \<noteq> NL \<and> d \<noteq> CR"
    using a(2,3) s s'(2) by (auto simp: isspace_def)
  then show ?thesis using s s'(1) by (auto simp: trim_ws_def Let_def) (metis append_is_Nil_conv rev.simps(2) rev_rev_ident)
qed

text \<open>Reading identity data leaves the state machine and the server URL alone.\<close>

definition same_control :: "'e proc \<Rightarrow> 'e proc \<Rightarrow> bool" where
  "same_control p q \<longleftrightarrow> rfc_state q = rfc_state p \<and> xconf_server_url q = xconf_server_url p"

lemma same_control_more: "world.more q = world.more p \<Longrightarrow> same_control p q" for p q :: "'e proc"
  unfolding same_control_def using proc_more_eq(3) [of q p] proc_more_eq(4) [of q p] by blast

lemma same_control_trans: "same_control p q \<Longrightarrow> same_control q r \<Longrightarrow> same_control p r"
  by (simp add: same_control_def)

lemma read_same_control: "read_RFCProperty S t k b n p = Inr (i, buf, q) \<Longrightarrow> same_control p q"
  by (rule same_control_more) (simp add: read_RFCProperty_frame [unfolded param_frame_def])

lemma same_control_world [simp]:
  "same_control p (write_file S f c q) = same_control p q" "same_control p (emit a q) = same_control p q"
  "same_control p (remove_file f q) = same_control p q"
  by (simp_all add: same_control_def write_file_def emit_def remove_file_def)

lemma saveAccountId_control [simp]: "same_control q (saveAccountIdToFile S a n t p) = same_control q p"
  by (simp add: saveAccountIdToFile_def)

lemma same_control_updates [simp]:
  "same_control p (q\<lparr>accountId := a\<rparr>) = same_control p q" "same_control p (q\<lparr>experience := a\<rparr>) = same_control p q"
  "same_control p (q\<lparr>osclass := a\<rparr>) = same_control p q" "same_control p (q\<lparr>last_firmware := a\<rparr>) = same_control p q"
  "same_control p (q\<lparr>serialNumber := a\<rparr>) = same_control p q"
  "same_control p (q\<lparr>extendermacAddress := a\<rparr>) = same_control p q"
  "same_control p (q\<lparr>is_first_request := b\<rparr>) = same_control p q" "same_control p p"
  by (simp_all add: same_control_def)

lemma GetExperience_control: "GetExperience S p = Inr (i, q) \<Longrightarrow> same_control p q"
  unfolding GetExperience_def rbind_eq_Inr by (elim exE conjE) (auto split: prod.splits if_splits)

lemma GetLastProcessedFirmware_control: "same_control p (snd (GetLastProcessedFirmware f p))"
  by (simp add: GetLastProcessedFirmware_def Let_def split: option.splits)

lemma GetAccountID_control: "GetAccountID S p = Inr (u, q) \<Longrightarrow> same_control p q"
  by (auto simp: GetAccountID_def Let_def dest: read_same_control split: if_splits)

lemma GetOsClass_control: "GetOsClass S p = Inr (u, q) \<Longrightarrow> same_control p q"
  by (auto simp: GetOsClass_def dest: read_same_control split: if_splits)

lemma extender_control: "same_control p (GetSerialNumber S (GetExtenderMacAddress S p))"
  by (simp add: GetSerialNumber_def GetExtenderMacAddress_def split: option.splits)

lemma init_choose_state: "init_choose S p = Inr (f, q) \<Longrightarrow> rfc_state q = Init \<or> rfc_state q = Local"
  unfolding init_choose_def Let_def rbind_eq_Inr by (elim exE conjE) (auto split: prod.splits if_splits)

lemma init_ids_control: "init_ids S p = Inr (rc, q) \<Longrightarrow> same_control p q"
proof -
  assume a: "init_ids S p = Inr (rc, q)"
  let ?p1 = "snd (GetLastProcessedFirmware RFC_LAST_VERSION p)"
  from a obtain p2 p3 where s: "GetAccountID S ?p1 = Inr ((), p2)" "GetOsClass S p2 = Inr ((), p3)"
      "same_control (if plat S = RDKB_EXTENDER then GetSerialNumber S (GetExtenderMacAddress S p3) else p3) q"
    by (cases "GetLastProcessedFirmware RFC_LAST_VERSION p") (auto simp: init_ids_def Let_def)
  have "same_control p3 q" using s(3) extender_control same_control_trans by (metis (full_types))
  then show ?thesis
    using GetLastProcessedFirmware_control GetAccountID_control [OF s(1)] GetOsClass_control [OF s(2)]
    by (meson same_control_trans)
qed

lemma GetServURL_sets:
  "GetServURL S f p = (SUCCESS, q) \<Longrightarrow> xconf_server_url q \<noteq> [] \<and> rfc_state q = rfc_state p"
  by (auto simp: GetServURL_def Let_def split: option.splits if_splits)

section \<open>Properties\<close>

text \<open>Looking for the bootstrap URL pauses at most nine times ten seconds, gives up only
  after the tenth failed read, and stores a URL exactly when a read succeeded.\<close>

lemma GetBootstrapXconfUrl_bounded:
  assumes "GetBootstrapXconfUrl S p = Inr (rc, p')"
  shows "\<exists>k \<le> 9. log p' = log p @ replicate k (SleepSec 10) \<and>
     (rc = 0 \<or> rc = -1 \<and> k = 9 \<and> boot_strap_xconf_url p' = boot_strap_xconf_url p)"
proof -
  from assms obtain url p1 where b: "bootstrap_url_loop S 0 [] p = Inr (rc, url, p1)"
      "p' = (case url of None \<Rightarrow> p1 | Some u \<Rightarrow> p1\<lparr>boot_strap_xconf_url := u\<rparr>)"
    by (auto simp: GetBootstrapXconfUrl_def)
  from bootstrap_url_loop_bounded [OF b(1)] obtain k where "k \<le> 9"
      "log p1 = log p @ replicate k (SleepSec 10)" "world.more p1 = world.more p"
      "url = None \<longrightarrow> rc = -1 \<and> k = 9" "url \<noteq> None \<longrightarrow> rc = 0" by auto
  with b(2) show ?thesis by (intro exI [of _ k]) (auto split: option.splits dest: proc_more_eq(1))
qed

text \<open>C32: a production build unlocks debug services only when all three hold: the debug parameter reads
  \<open>true\<close>, the device-type parameter begins with \<open>test\<close> (in any case), and the device properties say
  \<open>LABSIGNED_ENABLED\<close>; a build of unknown type never does.\<close>

theorem debug_unlock_needs_labsigned:
  assumes "ebuild_type p = ePROD \<or> ebuild_type p = eUNKNOWN" "isSecureDbgSrvUnlocked S p = Inr (True, p')"
  shows "ebuild_type p = ePROD \<and>
     fst (getDevicePropertyData S (env p') ''LABSIGNED_ENABLED'' 8) = 1 \<and>
     strcasecmp_eq (snd (getDevicePropertyData S (env p') ''LABSIGNED_ENABLED'' 8)) ''true'' \<and>
     (\<exists>rc d p1 rc' t p2.
        read_RFCProperty S ''DEBUGSRV'' RFC_DEBUGSRV [] RFC_VALUE_BUF_SIZE p = Inr (rc, d, p1) \<and> rc \<noteq> -1 \<and>
        strncmp_eq d ''true'' (RFC_VALUE_BUF_SIZE + 1) \<and>
        read_RFCProperty S ''LABSGND'' RFC_DEVICETYPE [] RFC_VALUE_BUF_SIZE p1 = Inr (rc', t, p2) \<and> rc' \<noteq> -1 \<and>
        strncasecmp_eq t ''test'' 4)"
proof -
  from assms obtain p1 t p2 where u: "ebuild_type p = ePROD" "isDebugServicesEnabled S p = Inr (True, p1)"
    "getDeviceTypeRFC S 16 p1 = Inr (t, p2)" "strcasecmp_eq t ''test''"
    "fst (getDevicePropertyData S (env p') ''LABSIGNED_ENABLED'' 8) = 1"
    "strcasecmp_eq (snd (getDevicePropertyData S (env p') ''LABSIGNED_ENABLED'' 8)) ''true''"
    by (auto simp: isSecureDbgSrvUnlocked_def Let_def split: if_splits)
  from u(2) obtain rc d where d: "read_RFCProperty S ''DEBUGSRV'' RFC_DEBUGSRV [] RFC_VALUE_BUF_SIZE p = Inr (rc, d, p1)"
    "rc \<noteq> -1" "strncmp_eq d ''true'' (RFC_VALUE_BUF_SIZE + 1)"
    by (auto simp: isDebugServicesEnabled_def)
  from u(3) obtain rc' t' where t': "read_RFCProperty S ''LABSGND'' RFC_DEVICETYPE [] RFC_VALUE_BUF_SIZE p1 = Inr (rc', t', p2)"
    "t = buf_copy 16 (if rc' = -1 then ''unknown'' else if strncasecmp_eq t' ''prod'' 4 then ''prod''
       else if strncasecmp_eq t' ''test'' 4 then ''test'' else ''unknown'')"
    by (auto simp: getDeviceTypeRFC_def)
  have "\<not> strcasecmp_eq (buf_copy 16 ''unknown'') ''test''" "\<not> strcasecmp_eq (buf_copy 16 ''prod'') ''test''"
    by code_simp+
  with u(4) t'(2) have "rc' \<noteq> -1 \<and> strncasecmp_eq t' ''test'' 4" by (auto split: if_splits)
  with u d t'(1) show ?thesis by blast
qed

text \<open>C34: an initialisation that succeeds leaves the state machine in \<open>Init\<close> or, only when the
  override properties file is present, in \<open>Local\<close>, and leaves a server URL to ask.\<close>

theorem initialisation_ready:
  assumes "InitializeRuntimeFeatureControlProcessor S p = Inr (SUCCESS, p')"
  shows "(rfc_state p' = Init \<or> rfc_state p' = Local) \<and> xconf_server_url p' \<noteq> []"
proof -
  from assms obtain p3 f p4 where s: "init_choose S p3 = Inr (f, p4)" "init_server S f p4 = Inr (SUCCESS, p')"
    by (auto simp: InitializeRuntimeFeatureControlProcessor_def case_prod_beta Let_def split: if_splits)
  from s(2) obtain p5 i p6 where t: "GetServURL S f p4 = (SUCCESS, p5)" "GetExperience S p5 = Inr (i, p6)"
      "init_ids S p6 = Inr (SUCCESS, p')"
    by (cases "GetServURL S f p4") (auto simp: init_server_def split: if_splits)
  have "same_control p5 p'"
    using GetExperience_control [OF t(2)] init_ids_control [OF t(3)] by (rule same_control_trans)
  with init_choose_state [OF s(1)] GetServURL_sets [OF t(1)] show ?thesis by (simp add: same_control_def)
qed

text \<open>The account id saved in the parameter file is the one read back from it.\<close>

lemma account_file_roundtrip:
  assumes "acc \<noteq> []" "\<not> isspace (hd acc)" "\<not> isspace (last acc)" "NL \<notin> set acc" "NUL \<notin> set acc"
    "length acc < 1000" "fopen_w S (env w) PARAM_RFC_FILE"
  shows "readAccountIdFromFile (saveAccountIdToFile S acc RFC_ACCOUNT_ID_KEY_STR ''string'' w) = acc"
proof -
  let ?ls = "[''name: '' @ RFC_ACCOUNT_ID_KEY_STR @ '','', ''type: '' @ ''string'' @ '','', ''value: '' @ acc]"
  have "fgets_all 1024 (unlines ?ls) = map (\<lambda>l. l @ [NL]) ?ls"
    using assms(4,6) by (intro fgets_all_lines) (auto simp: RFC_ACCOUNT_ID_KEY_STR_def)
  then have "readAccountIdFromFile (saveAccountIdToFile S acc RFC_ACCOUNT_ID_KEY_STR ''string'' w) =
      trim_ws (CHR '' '' # acc @ [NL])"
    using assms(5,7)
    by (simp add: readAccountIdFromFile_def saveAccountIdToFile_def write_file_files
        RFC_ACCOUNT_ID_KEY_STR_def)
  then show ?thesis using trim_ws_id [OF assms(1-3)] by simp
qed

section \<open>A reference processor\<close>

definition ref_proc :: "refenv \<Rightarrow> (string \<rightharpoonup> string) \<Rightarrow> RfcState \<Rightarrow> refenv proc" where
  "ref_proc e fs st = \<lparr>files = fs, env = e, log = [], http_ready = False,
     estb_mac_address = [], firmware_version = ''fw'', ebuild_type = ePROD, build_type_str = [], model_number = [],
     manufacturer = [], ecm_mac_address = [], partner_id = ''p'', accountId = ''a'', experience = [], osclass = [],
     xconf_server_url = ''u'', rfcSelectOpt = ''prod'', bkup_hash = [], rfcRebootCronNeeded = False,
     effectiveImmediateParams = [], RFCKeyAndValueMap = [], rfc_state = st, last_firmware = ''fw'',
     boot_strap_xconf_url = [], valid_accountId = [], valid_partnerId = [], stashAccountId = [], partnerId = [],
     serialNumber = [], extendermacAddress = [], isRebootRequired = False, is_first_request = False,
     url_validation_in_progress = False, rfcSelectorSlot = []\<rparr>"

abbreviation ref_rdkb :: "refenv sys" where
  "ref_rdkb \<equiv> ref_sys RDKB (\<lambda>_. None)"

definition url_proc :: "refenv proc" where
  "url_proc = ref_proc (ref_env0\<lparr>re_params := [(''Device.DeviceInfo.X_RDKCENTRAL-COM_Syndication.XconfURL'', ''u'')]\<rparr>)
     Map.empty Init"

text \<open>A lab-signed production camera with debug services on.\<close>

definition lab_proc :: "refenv proc" where
  "lab_proc = ref_proc (ref_env0\<lparr>re_params := [(RFC_DEBUGSRV, ''true''), (RFC_DEVICETYPE, ''test'')],
     re_props := [(''LABSIGNED_ENABLED'', ''true'')]\<rparr>) Map.empty Init"

lemma lab_proc_unlocks:
  "isSecureDbgSrvUnlocked (ref_sys RDKC (\<lambda>_. None)) lab_proc =
     Inr (True, NotifyTelemetry2Count ''SYST_INFO_RFC_DbgSrv'' lab_proc)"
  by (simp add: isSecureDbgSrvUnlocked_def isDebugServicesEnabled_def getDeviceTypeRFC_def read_RFCProperty_def
      ref_sys_def lab_proc_def ref_proc_def copy_rbus_string_def quoted_def RFC_VALUE_BUF_SIZE_def path_defs
      strncmp_eq_def strncasecmp_eq_def strcasecmp_eq_def buf_copy_def cstr_def tolower_def isupper_def)

theorem debug_unlock_needs_labsigned_witness:
  "ebuild_type lab_proc = ePROD \<and>
   fst (getDevicePropertyData (ref_sys RDKC (\<lambda>_. None)) (env lab_proc) ''LABSIGNED_ENABLED'' 8) = 1"
  using debug_unlock_needs_labsigned [OF _ lab_proc_unlocks]
  by (simp add: lab_proc_def ref_proc_def)

text \<open>A camera with its properties file initialises.\<close>

definition cam_proc :: "refenv proc" where
  "cam_proc = ref_proc ref_env0 [RFC_PROPERTIES_FILE \<mapsto> ''RFC_CONFIG_SERVER_URL=h''] Invalid"

lemma cam_proc_starts:
  "\<exists>p'. InitializeRuntimeFeatureControlProcessor (ref_sys RDKC (\<lambda>_. None)) cam_proc = Inr (SUCCESS, p')"
proof -
  have "getlines ''RFC_CONFIG_SERVER_URL=h'' = [''RFC_CONFIG_SERVER_URL=h'']" by (rule getlines_last) simp_all
  then show ?thesis
    by (simp add: InitializeRuntimeFeatureControlProcessor_def initializeXconfHandler_def Let_def
        GetRFCPartnerID_def checkWhoamiSupport_def init_choose_def file_present_def init_server_def GetServURL_def
        prefix_values_def GetExperience_def query_experience_def init_ids_def GetLastProcessedFirmware_def
        GetAccountID_def GetOsClass_def read_RFCProperty_def ref_sys_def cam_proc_def ref_proc_def ref_env0_def
        RFC_PROPERTIES_PERSISTENCE_FILE_def path_defs)
qed

theorem initialisation_ready_witness:
  "\<exists>p'. InitializeRuntimeFeatureControlProcessor (ref_sys RDKC (\<lambda>_. None)) cam_proc = Inr (SUCCESS, p') \<and>
     xconf_server_url p' \<noteq> []"
  using cam_proc_starts initialisation_ready by blast

end
