(* ===== verification/Device_Api.thy ===== *)
theory Device_Api
  imports Rfc_Processor
begin

text \<open>
  The device API the processor asks for the identity of the device, as common_device_api.c and
  rdk_fwdl_utils.c implement it over the files of the device.  The other theories take these functions as
  parameters (\<open>device_info\<close>, \<open>device_build\<close>, \<open>getDevicePropertyData\<close>); here the parameters are tied to the
  implementation (\<open>device_files\<close>).  Shown here: the identity a set-top box sends is the one
  its files state, and a property that is commented out still counts.
\<close>

section \<open>Taking a line apart\<close>

definition ESTB_MAC_FILE :: string where
  [path_defs]: "ESTB_MAC_FILE = ''/tmp/.estb_mac''"

definition VERSION_FILE :: string where
  [path_defs]: "VERSION_FILE = ''/version.txt''"

definition PARTNER_ID_FILE :: string where
  [path_defs]: "PARTNER_ID_FILE = ''/opt/partnerid''"

definition MANUFACTURER_FILE :: string where
  [path_defs]: "MANUFACTURER_FILE = ''/tmp/.manufacturer''"

type_synonym file_store = "string \<rightharpoonup> string"

text \<open>\<open>isspace(c) || iscntrl(c)\<close> in the C locale.\<close>

definition stop_char :: "char \<Rightarrow> bool" where
  "stop_char c \<longleftrightarrow> isspace c \<or> of_char c < (32::nat) \<or> of_char c = (127::nat)"

text \<open>The count returned and what the buffer holds; the search ends after \<open>n\<close> characters.\<close>

definition stripinvalidchar :: "string \<Rightarrow> nat \<Rightarrow> nat \<times> string" where
  "stripinvalidchar s n =
     (let k = length (takeWhile (\<lambda>c. \<not> stop_char c) (take n s)) in
      (k, if k < length (take n s) then take k s else s))"

section \<open>Identity\<close>

text \<open>The first line of a file, as \<open>fgets\<close> reads it into a buffer of \<open>n\<close> bytes.\<close>

definition GetEstbMac :: "file_store \<Rightarrow> nat \<Rightarrow> nat \<times> string" where
  "GetEstbMac fs n = (case fs ESTB_MAC_FILE of None \<Rightarrow> (0, [])
     | Some c \<Rightarrow> stripinvalidchar (cstr (fst (fgets n c))) n)"

definition GetMFRName :: "file_store \<Rightarrow> nat \<Rightarrow> nat \<times> string" where
  "GetMFRName fs n = (case fs MANUFACTURER_FILE of None \<Rightarrow> (0, [])
     | Some c \<Rightarrow> stripinvalidchar (cstr (fst (fgets n c))) n)"

text \<open>The line of the bootstrap file is copied whole, name included.\<close>

definition partner_line :: "nat \<Rightarrow> string \<Rightarrow> string \<Rightarrow> string" where
  "partner_line n b out =
     (if str_contains (cstr b) ''X_RDKCENTRAL-COM_Syndication.PartnerId'' then buf_copy n b else out)"

definition GetPartnerId :: "file_store \<Rightarrow> nat \<Rightarrow> nat \<times> string" where
  "GetPartnerId fs n = stripinvalidchar
     (case fs PARTNER_ID_FILE of Some c \<Rightarrow> cstr (fst (fgets n c))
      | None \<Rightarrow> (case fs BOOTSTRAP_FILE of Some c \<Rightarrow> fold (partner_line n) (fgets_all 150 c) []
        | None \<Rightarrow> buf_copy n ''comcast'')) n"

text \<open>One line of \<open>device.properties\<close>, for a tag that ends with the equals sign.\<close>

definition tagged_line :: "string \<Rightarrow> nat \<Rightarrow> string \<Rightarrow> nat \<times> string \<Rightarrow> nat \<times> string" where
  "tagged_line tag n b r = (if prefix tag (cstr b)
     then let v = drop (length tag) (cstr b) in stripinvalidchar (buf_copy n v) (length v) else r)"

definition GetModelNum :: "file_store \<Rightarrow> nat \<Rightarrow> nat \<times> string" where
  "GetModelNum fs n = (case fs DEVICE_PROPERTIES_FILE of None \<Rightarrow> (0, [])
     | Some c \<Rightarrow> fold (tagged_line ''MODEL_NUM='' n) (fgets_all 150 c) (0, []))"

definition GetFirmwareVersion :: "file_store \<Rightarrow> nat \<Rightarrow> nat \<times> string" where
  "GetFirmwareVersion fs n = (case fs VERSION_FILE of None \<Rightarrow> (0, [])
     | Some c \<Rightarrow> (case find (\<lambda>b. str_contains (cstr b) ''imagename:'') (fgets_all 150 c) of None \<Rightarrow> (0, [])
       | Some b \<Rightarrow> (case str_find (cstr b) ''imagename:'' of None \<Rightarrow> (0, [])
         | Some i \<Rightarrow> let v = drop (i + 10) (cstr b) in stripinvalidchar (buf_copy n v) (length v))))"

definition lower_result :: "nat \<times> string \<Rightarrow> nat \<times> string" where
  "lower_result r = (fst r, map tolower (snd r))"

definition build_kind :: "string \<Rightarrow> (string \<times> build_type) option" where
  "build_kind t =
     (if str_contains t ''vbn'' then Some (''vbn'', eVBN)
      else if str_contains t ''prod'' then Some (''prod'', ePROD)
      else if str_contains t ''qa'' then Some (''qa'', eQA)
      else if str_contains t ''dev'' then Some (''dev'', eDEV) else None)"

definition build_line :: "nat \<Rightarrow> string \<Rightarrow> nat \<times> string \<Rightarrow> nat \<times> string" where
  "build_line n b r = (if prefix ''BUILD_TYPE='' (cstr b) then lower_result (tagged_line ''BUILD_TYPE='' n b r) else r)"

definition GetBuildType :: "file_store \<Rightarrow> nat \<Rightarrow> (nat \<times> string) \<times> build_type" where
  "GetBuildType fs n =
     (let (i, s) = (case fs DEVICE_PROPERTIES_FILE of None \<Rightarrow> (0, [])
            | Some c \<Rightarrow> fold (build_line n) (fgets_all 150 c) (0, []));
          t = (if s = [] then map tolower (snd (GetFirmwareVersion fs 150)) else s)
      in (case build_kind t of None \<Rightarrow> ((i, s), eUNKNOWN)
        | Some (out, k) \<Rightarrow> (if s = [] then (length out, buf_copy n out) else (i, s), k)))"

section \<open>Properties of the device\<close>

text \<open>The first line that contains the name anywhere and has an equals sign.\<close>

fun property_scan :: "string \<Rightarrow> string list \<Rightarrow> string option" where
  "property_scan name [] = None"
| "property_scan name (b # bs) =
     (if str_contains (cstr b) name then
        (let l = first_line (cstr b); t = (if l = [] then cstr b else l) in
         case find_idx (\<lambda>c. c = CHR ''='') t of None \<Rightarrow> property_scan name bs
         | Some i \<Rightarrow> Some (drop (Suc i) t))
      else property_scan name bs)"

definition MAX_DEVICE_PROP_BUFF_SIZE :: nat where
  "MAX_DEVICE_PROP_BUFF_SIZE = 80"

definition getDevicePropertyData_file :: "file_store \<Rightarrow> string \<Rightarrow> nat \<Rightarrow> int \<times> string" where
  "getDevicePropertyData_file fs name n =
     (if n = 0 \<or> MAX_DEVICE_PROP_BUFF_SIZE < n then (-1, [])
      else (case fs DEVICE_PROPERTIES_FILE of None \<Rightarrow> (-1, [])
        | Some c \<Rightarrow> (case property_scan name (fgets_all MAX_DEVICE_PROP_BUFF_SIZE c) of None \<Rightarrow> (-1, [])
          | Some v \<Rightarrow> (1, buf_copy n v))))"

text \<open>The device API of a set-top box is this one.\<close>

definition device_files :: "'e sys \<Rightarrow> ('e, 'z) world_scheme \<Rightarrow> bool" where
  "device_files S w \<longleftrightarrow>
     (\<forall>n. device_info S (env w) QEstbMac n = GetEstbMac (files w) n \<and>
        device_info S (env w) QFirmwareVersion n = GetFirmwareVersion (files w) n \<and>
        device_info S (env w) QBuildType n = fst (GetBuildType (files w) n) \<and>
        device_info S (env w) QModelNum n = GetModelNum (files w) n \<and>
        device_info S (env w) QMFRName n = GetMFRName (files w) n \<and>
        device_info S (env w) QPartnerId n = GetPartnerId (files w) n) \<and>
     device_build S (env w) = snd (GetBuildType (files w) 200) \<and>
     (\<forall>k n. getDevicePropertyData S (env w) k n = getDevicePropertyData_file (files w) k n)"

section \<open>Values that come through whole\<close>

definition clean :: "string \<Rightarrow> bool" where
  "clean v \<longleftrightarrow> (\<forall>c\<in>set v. \<not> stop_char c)"

lemma clean_chars: "clean v \<Longrightarrow> NUL \<notin> set v \<and> NL \<notin> set v"
  by (auto simp: clean_def stop_char_def)

lemma strip_clean: "clean v \<Longrightarrow> length v \<le> n \<Longrightarrow> stripinvalidchar v n = (length v, v)"
  by (simp add: stripinvalidchar_def clean_def takeWhile_eq_all_conv [THEN iffD2])

lemma strip_clean_NL: "clean v \<Longrightarrow> length v < n \<Longrightarrow> stripinvalidchar (v @ [NL]) n = (length v, v)"
  by (auto simp: stripinvalidchar_def clean_def stop_char_def takeWhile_append2 Let_def)

lemma strip_copied:
  assumes "clean v" "length v < n"
  shows "stripinvalidchar (buf_copy n (v @ [NL])) (Suc (length v)) = (length v, v)"
proof -
  have c: "cstr (v @ [NL]) = v @ [NL]" using clean_chars [OF assms(1)] by simp
  show ?thesis
  proof (cases "Suc (length v) = n")
    case True
    then have "buf_copy n (v @ [NL]) = v" by (auto simp: buf_copy_def c)
    then show ?thesis using strip_clean [OF assms(1)] by simp
  next
    case False
    then have "buf_copy n (v @ [NL]) = v @ [NL]" using assms(2) by (simp add: buf_copy_def c)
    then show ?thesis using strip_clean_NL [OF assms(1)] by simp
  qed
qed

section \<open>The last line of a tag\<close>

text \<open>A file of properties as it is written, every line within the buffer.\<close>

definition property_ok :: "string \<times> string \<Rightarrow> bool" where
  "property_ok kv \<longleftrightarrow> CHR ''='' \<notin> set (fst kv) \<and> clean (fst kv) \<and> clean (snd kv) \<and> length (fst kv) + length (snd kv) < 148"

lemma property_lines:
  assumes "\<forall>kv\<in>set kvs. property_ok kv"
  shows "fgets_all 150 (plain_ini.printed kvs) = map (\<lambda>(k, v). render_plain k v @ [NL]) kvs"
proof -
  have "\<forall>l\<in>set (map (\<lambda>(k, v). render_plain k v) kvs). NL \<notin> set l \<and> length l + 1 < 150"
    using assms clean_chars by (fastforce simp: property_ok_def render_plain_def)
  from fgets_all_lines [OF this] show ?thesis by (simp add: plain_ini.printed_def case_prod_beta)
qed

lemma prefix_tag:
  assumes "CHR ''='' \<notin> set k" "CHR ''='' \<notin> set key"
  shows "prefix (key @ ''='') (k @ CHR ''='' # v) \<longleftrightarrow> k = key"
  using assms by (induction key arbitrary: k) (case_tac k; auto)+

lemma tagged_render:
  assumes "property_ok (k, v)" "CHR ''='' \<notin> set key" "length v < n"
  shows "tagged_line (key @ ''='') n (render_plain k v @ [NL]) r = (if k = key then (length v, v) else r)"
    "prefix (key @ ''='') (cstr (render_plain k v @ [NL])) \<longleftrightarrow> k = key"
proof -
  have c: "cstr (render_plain k v @ [NL]) = k @ CHR ''='' # v @ [NL]"
    using assms(1) clean_chars by (auto simp: property_ok_def render_plain_def)
  show p: "prefix (key @ ''='') (cstr (render_plain k v @ [NL])) \<longleftrightarrow> k = key"
    unfolding c using prefix_tag [of k key "v @ [NL]"] assms(1,2) by (simp add: property_ok_def)
  show "tagged_line (key @ ''='') n (render_plain k v @ [NL]) r = (if k = key then (length v, v) else r)"
  proof (cases "k = key")
    case True
    then show ?thesis using strip_copied [of v n] assms(1,3) p by (simp add: tagged_line_def c [unfolded True] property_ok_def)
  next
    case False
    then show ?thesis using p by (simp add: tagged_line_def)
  qed
qed

lemma fold_tagged:
  assumes "\<forall>kv\<in>set kvs. property_ok kv \<and> length (snd kv) < n" "CHR ''='' \<notin> set key"
  shows "fold (tagged_line (key @ ''='') n) (map (\<lambda>(k, v). render_plain k v @ [NL]) kvs) r =
     (case map_of (rev kvs) key of None \<Rightarrow> r | Some v \<Rightarrow> (length v, v))"
  using assms(1)
proof (induction kvs arbitrary: r)
  case (Cons kv kvs)
  obtain k v where "kv = (k, v)" by (cases kv)
  with Cons tagged_render(1) [OF _ assms(2)] show ?case by (auto simp: map_add_def split: option.splits)
qed simp

lemma fold_build:
  assumes "\<forall>kv\<in>set kvs. property_ok kv \<and> length (snd kv) < n"
  shows "fold (build_line n) (map (\<lambda>(k, v). render_plain k v @ [NL]) kvs) r =
     (case map_of (rev kvs) ''BUILD_TYPE'' of None \<Rightarrow> r | Some v \<Rightarrow> (length v, map tolower v))"
  using assms
proof (induction kvs arbitrary: r)
  case (Cons kv kvs)
  obtain k v where kv: "kv = (k, v)" by (cases kv)
  have "build_line n (render_plain k v @ [NL]) r = (if k = ''BUILD_TYPE'' then (length v, map tolower v) else r)"
    using tagged_render(1) [of k v "''BUILD_TYPE''" n r] tagged_render(2) [of k v "''BUILD_TYPE''" n] Cons.prems
    by (cases "k = ''BUILD_TYPE''") (simp_all add: kv build_line_def lower_result_def)
  with Cons show ?case by (auto simp: kv map_add_def split: option.splits)
qed simp

lemma first_line_read:
  assumes "clean v" "length v + 1 < n"
  shows "stripinvalidchar (cstr (fst (fgets n (v @ NL # r)))) n = (length v, v)"
proof -
  have "fgets n (v @ NL # r) = (v @ [NL], r)" using assms clean_chars by (intro fgets_line) auto
  moreover have "cstr (v @ [NL]) = v @ [NL]" using clean_chars [OF assms(1)] by simp
  ultimately show ?thesis using strip_clean_NL [OF assms(1)] assms(2) by simp
qed

lemma image_line:
  assumes "clean v" "length v + 11 < 150" "length v < n" "files w VERSION_FILE = Some (''imagename:'' @ v @ NL # r)"
  shows "GetFirmwareVersion (files w) n = (length v, v)"
proof -
  have "fgets 150 ((''imagename:'' @ v) @ NL # r) = ((''imagename:'' @ v) @ [NL], r)"
    using assms(1,2) clean_chars by (intro fgets_line) auto
  then have f: "fgets_all 150 (''imagename:'' @ v @ NL # r) = (''imagename:'' @ v @ [NL]) # fgets_all 150 r"
    by (subst fgets_all.simps) simp
  have c: "cstr (''imagename:'' @ v @ [NL]) = ''imagename:'' @ v @ [NL]" using clean_chars [OF assms(1)] by simp
  have i: "str_find (''imagename:'' @ v @ [NL]) ''imagename:'' = Some 0" by simp
  have "find (\<lambda>b. str_contains (cstr b) ''imagename:'') (fgets_all 150 (''imagename:'' @ v @ NL # r)) = Some (''imagename:'' @ v @ [NL])"
    unfolding f by (simp only: find.simps c i) simp
  moreover have "drop (0 + 10) (''imagename:'' @ v @ [NL]) = v @ [NL]" by simp
  ultimately show ?thesis using strip_copied [OF assms(1,3)]
    by (simp only: GetFirmwareVersion_def assms(4) option.case c i Let_def length_append_singleton)
qed

section \<open>A property that is commented out\<close>

text \<open>The scan stops at the first line that contains the name, wherever it does.\<close>

lemma comment_unlocks:
  assumes "ebuild_type p = ePROD" "isDebugServicesEnabled S p = Inr (True, p1)" "getDeviceTypeRFC S 16 p1 = Inr (''test'', p2)"
    "device_files S p2" "files p2 DEVICE_PROPERTIES_FILE = Some (''#LABSIGNED_ENABLED=true'' @ NL # rest)"
  shows "\<exists>q. isSecureDbgSrvUnlocked S p = Inr (True, q)"
proof -
  have "fgets 80 (''#LABSIGNED_ENABLED=true'' @ NL # rest) = (''#LABSIGNED_ENABLED=true'' @ [NL], rest)"
    by (rule fgets_line) simp_all
  then have "fgets_all 80 (''#LABSIGNED_ENABLED=true'' @ NL # rest) =
      (''#LABSIGNED_ENABLED=true'' @ [NL]) # fgets_all 80 rest" by (subst fgets_all.simps) simp
  then have "getDevicePropertyData_file (files p2) ''LABSIGNED_ENABLED'' 8 = (1, ''true'')"
    by (simp add: getDevicePropertyData_file_def MAX_DEVICE_PROP_BUFF_SIZE_def assms(5) cstr_def first_line_def buf_copy_def)
  then show ?thesis using assms(1-4)
    by (simp add: isSecureDbgSrvUnlocked_def device_files_def Let_def strcasecmp_eq_def)
qed

text \<open>A partner id taken from the bootstrap file comes with its name.\<close>

lemma partner_id_whole_line:
  assumes "fs PARTNER_ID_FILE = None" "l = ''X_RDKCENTRAL-COM_Syndication.PartnerId='' @ v" "clean v" "length l < 149"
    "fs BOOTSTRAP_FILE = Some (l @ [NL])"
  shows "GetPartnerId fs 200 = (length l, l)"
proof -
  have l: "clean l" using assms(3) by (simp add: assms(2) clean_def stop_char_def isspace_def)
  then have nl: "NL \<notin> set l" "NUL \<notin> set l" using clean_chars by auto
  have "fgets_all 150 (l @ [NL]) = [l @ [NL]]" using fgets_line [of l 150 "[]"] nl(1) assms(4) by (subst fgets_all.simps) simp
  moreover have "cstr (l @ [NL]) = l @ [NL]" using nl(2) by simp
  moreover have "str_contains (l @ [NL]) ''X_RDKCENTRAL-COM_Syndication.PartnerId''"
    unfolding str_contains_sublist assms(2) by (auto intro!: sublist_appendI [where ps = "[]", simplified])
  ultimately have "GetPartnerId fs 200 = stripinvalidchar (buf_copy 200 (l @ [NL])) 200"
    by (simp add: GetPartnerId_def assms(1,5) partner_line_def)
  also have "buf_copy 200 (l @ [NL]) = l @ [NL]" using nl(2) assms(4) by (intro buf_copy_fits) auto
  finally show ?thesis using strip_clean_NL [OF l] assms(4) by simp
qed

section \<open>Property\<close>

text \<open>C33: the identity a set-top box sends is the one its files state: MAC address and manufacturer are the first
  lines of their files, the firmware version is the image name, model and build type are the values of their last
  lines in the device properties, and the build type decides which build the device counts as.\<close>

theorem identity_from_files:
  assumes "plat S = STB" "device_files S p"
    "files p ESTB_MAC_FILE = Some (mac @ NL # r1)" "clean mac" "mac \<noteq> []" "length mac < 199"
    "files p MANUFACTURER_FILE = Some (mfr @ NL # r2)" "clean mfr" "mfr \<noteq> []" "length mfr < 199"
    "files p VERSION_FILE = Some (''imagename:'' @ fw @ NL # r3)" "clean fw" "fw \<noteq> []" "length fw < 139"
    "files p DEVICE_PROPERTIES_FILE = Some (plain_ini.printed kvs)" "\<forall>kv\<in>set kvs. property_ok kv"
    "map_of (rev kvs) ''MODEL_NUM'' = Some m" "m \<noteq> []" "map_of (rev kvs) ''BUILD_TYPE'' = Some b" "b \<noteq> []"
  shows "\<exists>q. initializeXconfHandler S p = (0, q) \<and> estb_mac_address q = mac \<and> manufacturer q = mfr \<and>
     firmware_version q = fw \<and> model_number q = m \<and> build_type_str q = map tolower b \<and>
     ebuild_type q = (case build_kind (map tolower b) of None \<Rightarrow> eUNKNOWN | Some (_, k) \<Rightarrow> k)"
proof -
  have short: "\<forall>kv\<in>set kvs. property_ok kv \<and> length (snd kv) < 200" using assms(16) by (fastforce simp: property_ok_def)
  have "GetEstbMac (files p) 200 = (length mac, mac)" "GetMFRName (files p) 200 = (length mfr, mfr)"
    using assms(3-10) by (simp_all add: GetEstbMac_def GetMFRName_def first_line_read)
  moreover have "GetFirmwareVersion (files p) 200 = (length fw, fw)" by (rule image_line [OF assms(12) _ _ assms(11)]) (use assms(14) in auto)
  moreover have "GetModelNum (files p) 200 = (length m, m)"
    using fold_tagged [OF short, of "''MODEL_NUM''" "(0, [])"] assms(17)
    by (simp add: GetModelNum_def assms(15) property_lines [OF assms(16)])
  moreover have "GetBuildType (files p) 200 = ((length b, map tolower b),
      (case build_kind (map tolower b) of None \<Rightarrow> eUNKNOWN | Some (_, k) \<Rightarrow> k))"
    using assms(19,20) by (simp add: GetBuildType_def assms(15) property_lines [OF assms(16)] fold_build [OF short] split: option.splits)
  ultimately show ?thesis using assms(1,2,5,9,13,18,20)
    by (simp add: initializeXconfHandler_def device_files_def Let_def if_len_def)
qed

text \<open>A system whose device API reads these files.\<close>

definition on_files :: "file_store \<Rightarrow> 'e sys \<Rightarrow> 'e sys" where
  "on_files fs S = S\<lparr>
     device_info := (\<lambda>_ q n. case q of QEstbMac \<Rightarrow> GetEstbMac fs n | QFirmwareVersion \<Rightarrow> GetFirmwareVersion fs n
        | QBuildType \<Rightarrow> fst (GetBuildType fs n) | QModelNum \<Rightarrow> GetModelNum fs n | QMFRName \<Rightarrow> GetMFRName fs n
        | QPartnerId \<Rightarrow> GetPartnerId fs n | _ \<Rightarrow> (0, [])),
     device_build := (\<lambda>_. snd (GetBuildType fs 200)),
     getDevicePropertyData := (\<lambda>_. getDevicePropertyData_file fs)\<rparr>"

definition box_properties :: "(string \<times> string) list" where
  "box_properties = [(''MODEL_NUM'', ''X0''), (''BUILD_TYPE'', ''VBN''), (''MODEL_NUM'', ''X1'')]"

definition box_files :: file_store where
  "box_files = [ESTB_MAC_FILE \<mapsto> ''aa:bb'' @ [NL], MANUFACTURER_FILE \<mapsto> ''acme'' @ [NL],
     VERSION_FILE \<mapsto> ''imagename:X1_1.0'' @ [NL], DEVICE_PROPERTIES_FILE \<mapsto> plain_ini.printed box_properties]"

theorem identity_from_files_witness:
  "\<exists>q. initializeXconfHandler (on_files box_files ref_stb) (ref_proc ref_env0 box_files Init) = (0, q) \<and>
     estb_mac_address q = ''aa:bb'' \<and> model_number q = ''X1'' \<and> firmware_version q = ''X1_1.0'' \<and> ebuild_type q = eVBN"
proof -
  have f: "files (ref_proc ref_env0 box_files Init) = box_files" by (simp add: ref_proc_def)
  let ?p = "ref_proc ref_env0 box_files Init"
  have b: "files ?p ESTB_MAC_FILE = Some (''aa:bb'' @ NL # [])" "files ?p MANUFACTURER_FILE = Some (''acme'' @ NL # [])"
    "files ?p VERSION_FILE = Some (''imagename:'' @ ''X1_1.0'' @ NL # [])"
    "files ?p DEVICE_PROPERTIES_FILE = Some (plain_ini.printed box_properties)"
    by (simp_all add: f) (simp_all add: box_files_def path_defs)
  have c: "clean ''aa:bb''" "clean ''acme''" "clean ''X1_1.0''" "\<forall>kv\<in>set box_properties. property_ok kv"
    "map_of (rev box_properties) ''MODEL_NUM'' = Some ''X1''" "map_of (rev box_properties) ''BUILD_TYPE'' = Some ''VBN''"
    by (simp_all add: box_properties_def property_ok_def clean_def stop_char_def isspace_def)
  have S: "plat (on_files box_files ref_stb) = STB"
    "device_files (on_files box_files ref_stb) (ref_proc ref_env0 box_files Init)"
    by (simp_all add: on_files_def device_files_def f) (simp add: ref_sys_def)
  have k: "build_kind (map tolower ''VBN'') = Some (''vbn'', eVBN)" by code_simp
  obtain q where "initializeXconfHandler (on_files box_files ref_stb) ?p = (0, q)"
    "estb_mac_address q = ''aa:bb''" "firmware_version q = ''X1_1.0''" "model_number q = ''X1''"
    "ebuild_type q = (case build_kind (map tolower ''VBN'') of None \<Rightarrow> eUNKNOWN | Some (_, k) \<Rightarrow> k)"
    using identity_from_files [OF S b(1) c(1) _ _ b(2) c(2) _ _ b(3) c(3) _ _ b(4) c(4,5) _ c(6)]
    by auto
  then show ?thesis unfolding k by simp
qed

end
