(* ===== verification/Rfc_Store.thy ===== *)
theory Rfc_Store
  imports Rfc_Processor
begin

text \<open>
  What the processor persists: parameters (\<open>set_RFCProperty\<close>, over rbus with the type the parameter
  already has, or over rfcapi), the clear and restore of the store around an update, the config-set
  hash and time, and the files under /opt/secure/RFC.  Shown here: what the hash header yields, that
  stored hash and time read back, when a new value counts as a change, that an \<open>Unknown\<close> account id
  never overwrites a known one, and that the clear restores the stashed account id.
\<close>

section \<open>Numbers as the C++ library reads them\<close>

definition stoul :: "string \<Rightarrow> int option" where
  "stoul s = (case strtol10 s of None \<Rightarrow> None
     | Some i \<Rightarrow> if \<bar>i\<bar> < 2 ^ 64 then Some (i mod 2 ^ 64) else None)"

definition stoll :: "string \<Rightarrow> int option" where
  "stoll s = (case strtol10 s of None \<Rightarrow> None
     | Some i \<Rightarrow> if - (2 ^ 63) \<le> i \<and> i < 2 ^ 63 then Some i else None)"

section \<open>Writing a parameter\<close>

text \<open>A text converted to the type of the value the parameter has now: \<open>Inl\<close> where the conversion
  throws, \<open>None\<close> for a type that is not supported.\<close>

fun rbus_convert :: "'e sys \<Rightarrow> rbus_value \<Rightarrow> string \<Rightarrow> rbus_value option res" where
  "rbus_convert S (RbString _) v = Inr (Some (RbString v))"
| "rbus_convert S RbNullString v = Inr (Some (RbString v))"
| "rbus_convert S (RbBool _) v = Inr (Some (RbBool (v = ''true'' \<or> v = ''1'')))"
| "rbus_convert S (RbInt32 _) v = (case stoi v of None \<Rightarrow> Inl UncaughtException | Some i \<Rightarrow> Inr (Some (RbInt32 i)))"
| "rbus_convert S (RbUInt32 _) v =
     (case stoul v of None \<Rightarrow> Inl UncaughtException | Some i \<Rightarrow> Inr (Some (RbUInt32 (i mod 2 ^ 32))))"
| "rbus_convert S (RbInt64 _) v = (case stoll v of None \<Rightarrow> Inl UncaughtException | Some i \<Rightarrow> Inr (Some (RbInt64 i)))"
| "rbus_convert S (RbUInt64 _) v = (case stoul v of None \<Rightarrow> Inl UncaughtException | Some i \<Rightarrow> Inr (Some (RbUInt64 i)))"
| "rbus_convert S (RbSingle _) v =
     (case stof_text S v of None \<Rightarrow> Inl UncaughtException | Some t \<Rightarrow> Inr (Some (RbSingle t)))"
| "rbus_convert S (RbDouble _) v =
     (case stod_text S v of None \<Rightarrow> Inl UncaughtException | Some t \<Rightarrow> Inr (Some (RbDouble t)))"
| "rbus_convert S RbOther v = Inr None"

definition set_RFCProperty_rbus ::
    "'e sys \<Rightarrow> string \<Rightarrow> string \<Rightarrow> ('e, 'z) world_scheme \<Rightarrow> (wdmp_status \<times> ('e, 'z) world_scheme) res" where
  "set_RFCProperty_rbus S key v w =
     (if \<not> rbus_open S (env w) then Inr (WDMP_FAILURE, w)
      else case rbus_get S (env w) key of
          None \<Rightarrow> Inr (WDMP_FAILURE, w)
        | Some old \<Rightarrow> rbind (rbus_convert S old v) (\<lambda>new. case new of
              None \<Rightarrow> Inr (WDMP_FAILURE, w)
            | Some nv \<Rightarrow> (let (e, ok) = rbus_set S (env w) key nv
                         in Inr (if ok then WDMP_SUCCESS else WDMP_FAILURE, w\<lparr>env := e\<rparr>))))"

text \<open>The rfcapi branch returns the status of the read; that of the write is shadowed.\<close>

definition set_RFCProperty_api ::
    "'e sys \<Rightarrow> string \<Rightarrow> string \<Rightarrow> string \<Rightarrow> ('e, 'z) world_scheme \<Rightarrow> (wdmp_status \<times> ('e, 'z) world_scheme) res" where
  "set_RFCProperty_api S name key v w =
     rbind (getRFCParameter S None key param0 w) (\<lambda>(st, prm, w1).
       if prm_type prm \<noteq> WDMP_NONE
       then rbind (setRFCParameter S (Some name) key (Some v) (prm_type prm) w1) (\<lambda>(_, w2). Inr (st, w2))
       else Inr (st, w1))"

definition set_RFCProperty ::
    "'e sys \<Rightarrow> string \<Rightarrow> string \<Rightarrow> string \<Rightarrow> ('e, 'z) world_scheme \<Rightarrow> (wdmp_status \<times> ('e, 'z) world_scheme) res" where
  "set_RFCProperty S name key v w =
     (if uses_rbus (plat S) then set_RFCProperty_rbus S key v w else set_RFCProperty_api S name key v w)"

text \<open>Several writes in a row, their results ignored.\<close>

fun set_all ::
    "'e sys \<Rightarrow> (string \<times> string) list \<Rightarrow> ('e, 'z) world_scheme \<Rightarrow> (unit \<times> ('e, 'z) world_scheme) res" where
  "set_all S [] w = Inr ((), w)"
| "set_all S ((k, v) # kvs) w = rbind (set_RFCProperty S ''rfc'' k v w) (\<lambda>(_, w1). set_all S kvs w1)"

section \<open>Is a received value new?\<close>

definition checkBootstrap :: "string \<Rightarrow> string \<Rightarrow> ('e, 'z) world_scheme \<Rightarrow> bool" where
  "checkBootstrap filename target w = (case files w filename of
       None \<Rightarrow> False | Some c \<Rightarrow> list_ex (\<lambda>line. str_contains line target) (getlines c))"

definition BS_STORE_FILENAME :: string where
  [path_defs]: "BS_STORE_FILENAME = ''/opt/secure/RFC/bootstrap.ini''"

text \<open>Returns whether the value is to be written, with the value to report, which the account
  rule may replace by the current one, and the current value.\<close>

definition isConfigValueChange ::
    "'e sys \<Rightarrow> string \<Rightarrow> string \<Rightarrow> string \<Rightarrow> string \<Rightarrow> ('e, 'z) world_scheme
       \<Rightarrow> ((bool \<times> string \<times> string) \<times> ('e, 'z) world_scheme) res" where
  "isConfigValueChange S name key v currentValue w =
     rbind (read_RFCProperty S name key [] 4096 w) (\<lambda>(i, buf, w1).
       if i = READ_RFC_FAILURE then Inr ((True, v, currentValue), w1)
       else
         let cur = buf;
             is_Bootstrap = checkBootstrap BS_STORE_FILENAME key w1;
             enable_Check = str_contains key ''.X_RDKCENTRAL-COM_RFC.'' in
         if \<not> is_Bootstrap \<and> \<not> enable_Check then Inr ((v \<noteq> cur, v, cur), w1)
         else if \<not> is_rdkb (plat S) \<and> str_contains key RFC_ACCOUNT_ID_KEY_STR \<and> StringCaseCompare v ''Unknown''
         then Inr ((False, cur, cur), w1)
         else Inr ((True, v, cur), w1))"

section \<open>Clearing the store around an update\<close>

definition isXconfSelectorSlotProd :: "'e sys \<Rightarrow> 'e proc \<Rightarrow> (bool \<times> 'e proc) res" where
  "isXconfSelectorSlotProd S p =
     rbind (read_RFCProperty S ''XconfSelector'' XCONF_SELECTOR_KEY_STR [] 1024 p)
       (\<lambda>(i, buf, p1). Inr (i \<noteq> READ_RFC_FAILURE \<and> buf = ''prod'', p1))"

definition rfcStashStoreParams :: "'e sys \<Rightarrow> 'e proc \<Rightarrow> (unit \<times> 'e proc) res" where
  "rfcStashStoreParams S p = rbind (GetAccountID S p) (\<lambda>(_, p1). Inr ((), p1\<lparr>stashAccountId := accountId p1\<rparr>))"

definition rfcStashRetrieveParams :: "'e sys \<Rightarrow> 'e proc \<Rightarrow> (unit \<times> 'e proc) res" where
  "rfcStashRetrieveParams S p =
     (if stashAccountId p \<noteq> [] \<and> stashAccountId p \<noteq> ''Unknown'' then
        rbind (set_RFCProperty S ''rfc'' RFC_ACCOUNT_ID_KEY_STR (stashAccountId p) p) (\<lambda>(st, p1).
          Inr ((), if st \<noteq> WDMP_SUCCESS then p1 else p1\<lparr>accountId := stashAccountId p1\<rparr>))
      else Inr ((), p))"

definition CLEAR_DB :: string where
  "CLEAR_DB = ''Device.DeviceInfo.X_RDKCENTRAL-COM_RFC.Control.ClearDB''"
definition BOOTSTRAP_CLEAR_DB :: string where
  "BOOTSTRAP_CLEAR_DB = ''Device.DeviceInfo.X_RDKCENTRAL-COM_RFC.Bootstrap.Control.ClearDB''"
definition CONFIG_CHANGE_TIME :: string where
  "CONFIG_CHANGE_TIME = ''Device.DeviceInfo.X_RDKCENTRAL-COM_RFC.Control.ConfigChangeTime''"

definition clear_store :: "'e sys \<Rightarrow> 'e proc \<Rightarrow> (unit \<times> 'e proc) res" where
  "clear_store S p =
     (if plat S \<noteq> RDKC
      then set_all S [(CLEAR_DB, ''true''), (BOOTSTRAP_CLEAR_DB, ''true''),
             (CONFIG_CHANGE_TIME, int_str (clock S (env p)))]
             (write_file S TR181STORE_FILE [] p)
      else Inr ((), remove_file TR181STORE_FILE p))"

definition clearDB :: "'e sys \<Rightarrow> 'e proc \<Rightarrow> (unit \<times> 'e proc) res" where
  "clearDB S p =
     rbind (rfcStashStoreParams S p) (\<lambda>(_, p1).
     rbind (clear_store S p1) (\<lambda>(_, p2).
     rfcStashRetrieveParams S p2))"

definition clearDBEnd :: "'e sys \<Rightarrow> 'e proc \<Rightarrow> (unit \<times> 'e proc) res" where
  "clearDBEnd S p = set_all S
     [(''Device.DeviceInfo.X_RDKCENTRAL-COM_RFC.Control.ClearDBEnd'', ''true''),
      (''Device.DeviceInfo.X_RDKCENTRAL-COM_RFC.Bootstrap.Control.ClearDBEnd'', ''true''),
      (''RFC_CONTROL_RELOADCACHE'', ''true'')] p"

section \<open>Hash and time of the config set\<close>

definition updateHashInDB :: "'e sys \<Rightarrow> string \<Rightarrow> 'e proc \<Rightarrow> (unit \<times> 'e proc) res" where
  "updateHashInDB S h p =
     rbind (if uses_rbus (plat S) then Inr ((), write_file S HASH_VALUE_FILE h p)
            else rbind (set_RFCProperty S ''ConfigSetHash'' RFC_CONFIG_SET_HASH h p) (\<lambda>(_, p1). Inr ((), p1)))
       (\<lambda>(_, p1). Inr ((), p1\<lparr>isRebootRequired := isRebootRequired p1 \<and> \<not> StringCaseCompare (bkup_hash p1) h\<rparr>))"

definition updateTimeInDB :: "'e sys \<Rightarrow> string \<Rightarrow> 'e proc \<Rightarrow> (unit \<times> 'e proc) res" where
  "updateTimeInDB S t p =
     (if uses_rbus (plat S) then Inr ((), write_file S TIME_VALUE_FILE t p)
      else rbind (set_RFCProperty S ''ConfigSetTime'' RFC_CONFIG_SET_TIME t p) (\<lambda>(_, p1). Inr ((), p1)))"

definition hash_blank :: "char \<Rightarrow> bool" where
  "hash_blank c \<longleftrightarrow> c = CHR '' '' \<or> c = TAB \<or> c = CR"

definition hash_trim :: "string \<Rightarrow> string" where
  "hash_trim s = rev (dropWhile hash_blank (rev (dropWhile hash_blank s)))"

text \<open>The value of the header line; an end that is not found reaches to the end of the text.\<close>

definition header_hash :: "string \<Rightarrow> string option" where
  "header_hash h =
     (let key1 = ''configSetHash:'';
          found = (case str_find h key1 of Some i \<Rightarrow> Some i | None \<Rightarrow> str_find h ''configsethash:'') in
      case found of None \<Rightarrow> None
      | Some i \<Rightarrow>
          (let start = i + length key1;
               stop = (case str_find_from h [CR, NL] start of Some e \<Rightarrow> Some e
                       | None \<Rightarrow> str_find_from h [NL] start)
           in Some (hash_trim (case stop of None \<Rightarrow> drop start h | Some e \<Rightarrow> take (e - start) (drop start h)))))"

definition RFC_SYNC_DONE :: string where
  [path_defs]: "RFC_SYNC_DONE = ''/tmp/.rfcSyncDone''"

definition updateHashAndTimeInDB :: "'e sys \<Rightarrow> string \<Rightarrow> 'e proc \<Rightarrow> (unit \<times> 'e proc) res" where
  "updateHashAndTimeInDB S header p =
     rbind (case header_hash (cstr header) of None \<Rightarrow> Inr ((), p) | Some h \<Rightarrow> updateHashInDB S h p) (\<lambda>(_, p1).
     rbind (updateTimeInDB S (int_str (clock S (env p1))) p1) (\<lambda>(_, p2).
       Inr ((), write_file S RFC_SYNC_DONE [] p2)))"

text \<open>The values sent with the next request.\<close>

definition RetrieveHashAndTimeFromPreviousDataSet :: "'e sys \<Rightarrow> 'e proc \<Rightarrow> ((string \<times> string) \<times> 'e proc) res" where
  "RetrieveHashAndTimeFromPreviousDataSet S p =
     (if uses_rbus (plat S) then
        (let h = (case files p HASH_VALUE_FILE of None \<Rightarrow> ''UPGRADE_HASH'' | Some c \<Rightarrow> first_line c);
             t = (case files p TIME_VALUE_FILE of None \<Rightarrow> ''0'' | Some c \<Rightarrow> first_line c)
         in Inr ((h, t), p\<lparr>bkup_hash := h\<rparr>))
      else
        rbind (read_RFCProperty S ''ConfigSetHash'' RFC_CONFIG_SET_HASH [] 1024 p) (\<lambda>(i, b, p1).
        let h = (if i = READ_RFC_FAILURE then ''UPGRADE_HASH'' else b) in
        rbind (read_RFCProperty S ''ConfigSetTime'' RFC_CONFIG_SET_TIME [] 1024 p1) (\<lambda>(j, b2, p2).
        let t = (if j = READ_RFC_FAILURE then ''0'' else b2)
        in Inr ((h, t), p2\<lparr>bkup_hash := h\<rparr>))))"

definition GetStoredHashAndTime :: "'e sys \<Rightarrow> 'e proc \<Rightarrow> ((string \<times> string) \<times> 'e proc) res" where
  "GetStoredHashAndTime S p =
     rbind (if last_firmware p = firmware_version p then
              (if plat S = RDKC then RetrieveHashAndTimeFromPreviousDataSet S p
               else rbind (if rfc_state p = Init then isXconfSelectorSlotProd S p else Inr (True, p)) (\<lambda>(prod, p1).
                 if rfc_state p = Init \<and> \<not> prod then Inr ((''OVERRIDE_HASH'', ''0''), p1)
                 else RetrieveHashAndTimeFromPreviousDataSet S p1))
            else Inr ((''UPGRADE_HASH'', ''0''), p))
       (\<lambda>((h, t), p2).
          Inr ((if partner_id p2 = ''Unknown'' \<or> accountId p2 = ''Unknown'' then ''OVERRIDE_HASH'' else h, t), p2))"

section \<open>Files under /opt/secure/RFC\<close>

definition DIRECTORY_PATH :: string where
  [path_defs]: "DIRECTORY_PATH = ''/opt/secure/RFC/''"

definition WriteFile :: "'e sys \<Rightarrow> string \<Rightarrow> string \<Rightarrow> ('e, 'z) world_scheme \<Rightarrow> ('e, 'z) world_scheme" where
  "WriteFile S filename data w = write_file S (DIRECTORY_PATH @ filename) (data @ [NL]) w"

definition updateTR181File :: "'e sys \<Rightarrow> string \<Rightarrow> string list \<Rightarrow> ('e, 'z) world_scheme \<Rightarrow> ('e, 'z) world_scheme" where
  "updateTR181File S filename ps w = append_file S (DIRECTORY_PATH @ filename) (unlines ps) w"

definition flag_text :: "bool \<Rightarrow> string" where
  "flag_text b = (if b then ''true'' else ''false'')"

definition writeRemoteFeatureCntrlFile ::
    "'e sys \<Rightarrow> string \<Rightarrow> feature_obj \<Rightarrow> ('e, 'z) world_scheme \<Rightarrow> ('e, 'z) world_scheme" where
  "writeRemoteFeatureCntrlFile S filename f w = append_file S (DIRECTORY_PATH @ filename)
     (unlines [''export RFC_ENABLE_'' @ ft_name f @ ''='' @ flag_text (ft_enable f),
               ''export RFC_'' @ ft_name f @ ''_effectiveImmediate='' @ flag_text (ft_immediate f)]) w"

definition NotifyTelemetry2RemoteFeatures ::
    "'e sys \<Rightarrow> string \<Rightarrow> string \<Rightarrow> ('e, 'z) world_scheme \<Rightarrow> ('e, 'z) world_scheme" where
  "NotifyTelemetry2RemoteFeatures S f st w = (case files w f of
       None \<Rightarrow> w
     | Some c \<Rightarrow> (let line = first_line c in
         if line = [] then w
         else if st = ''STAGING'' then emit (Telemetry ''rfc_staging_split'' line) w
         else if plat S \<noteq> RDKC then emit (Telemetry ''rfc_split'' line) w else w))"

definition cleanAllFile :: "'e sys \<Rightarrow> ('e, 'z) world_scheme \<Rightarrow> ('e, 'z) world_scheme" where
  "cleanAllFile S w =
     (let ents = (case readdir S (files w) ''/opt/secure/RFC'' of None \<Rightarrow> [] | Some es \<Rightarrow> es);
          dead = map ((@) ''/opt/secure/RFC/'') (filter (\<lambda>d. strncmp_eq d ''.RFC_'' 5) ents)
      in remove_file RFCVAR_FILE (fold remove_file dead w))"

definition RFC_REBOOT_CRON_SCRIPT :: "platform \<Rightarrow> string" where
  "RFC_REBOOT_CRON_SCRIPT p =
     (if is_rdkb p then ''/etc/RfcRebootCronschedule.sh'' else ''/lib/rdk/RfcRebootCronschedule.sh'')"

definition HandleScheduledReboot :: "'e sys \<Rightarrow> bool \<Rightarrow> ('e, 'z) world_scheme \<Rightarrow> ('e, 'z) world_scheme" where
  "HandleScheduledReboot S need w =
     (if need then snd (do_system S (''sh '' @ RFC_REBOOT_CRON_SCRIPT (plat S) @ '' &'') w) else w)"

definition StoreXconfEndpointMetadata :: "'e sys \<Rightarrow> 'e proc \<Rightarrow> (unit \<times> 'e proc) res" where
  "StoreXconfEndpointMetadata S p =
     (if plat S = RDKC then Inr ((), p)
      else rbind (set_RFCProperty S ''XconfSelector'' XCONF_SELECTOR_KEY_STR (rfcSelectOpt p) p) (\<lambda>(_, p1).
           rbind (set_RFCProperty S ''XconfUrl'' XCONF_URL_KEY_STR (xconf_server_url p1) p1) (\<lambda>(_, p2). Inr ((), p2))))"

section \<open>Effects on files and state\<close>

lemma files_fold_remove:
  "files (fold remove_file ds w) f = (if f \<in> set ds then None else files w f)"
  by (induction ds arbitrary: w) auto

lemma cleanAllFile_files:
  "files (cleanAllFile S w) f =
     (if f = RFCVAR_FILE \<or>
         (\<exists>d es. readdir S (files w) ''/opt/secure/RFC'' = Some es \<and> d \<in> set es \<and>
            strncmp_eq d ''.RFC_'' 5 \<and> f = ''/opt/secure/RFC/'' @ d)
      then None else files w f)"
  unfolding cleanAllFile_def Let_def
  by (cases "readdir S (files w) ''/opt/secure/RFC''") (auto simp: files_fold_remove)

lemma proc_write_file [simp]:
  "bkup_hash (write_file S f c p) = bkup_hash p" "stashAccountId (write_file S f c p) = stashAccountId p"
  "accountId (write_file S f c p) = accountId p" "partner_id (write_file S f c p) = partner_id p"
  "rfc_state (write_file S f c p) = rfc_state p" "last_firmware (write_file S f c p) = last_firmware p"
  "firmware_version (write_file S f c p) = firmware_version p"
  by (simp_all add: write_file_def)

lemma proc_remove_file [simp]:
  "stashAccountId (remove_file f p) = stashAccountId p" "accountId (remove_file f p) = accountId p"
  by (simp_all add: remove_file_def)

lemma hash_files_distinct [simp]:
  "HASH_VALUE_FILE \<noteq> TIME_VALUE_FILE" "TIME_VALUE_FILE \<noteq> HASH_VALUE_FILE"
  "RFC_SYNC_DONE \<noteq> HASH_VALUE_FILE" "RFC_SYNC_DONE \<noteq> TIME_VALUE_FILE"
  "HASH_VALUE_FILE \<noteq> RFC_SYNC_DONE" "TIME_VALUE_FILE \<noteq> RFC_SYNC_DONE"
  by (simp_all add: path_defs)

lemma updateHashInDB_rbus:
  "uses_rbus (plat S) \<Longrightarrow> \<exists>b. updateHashInDB S h p = Inr ((), (write_file S HASH_VALUE_FILE h p)\<lparr>isRebootRequired := b\<rparr>)"
  by (simp add: updateHashInDB_def) blast

lemma dropWhile_all_append: "\<forall>c\<in>set b. P c \<Longrightarrow> dropWhile P (b @ s) = dropWhile P s"
  by (induction b) auto

lemma hash_trim_blanks:
  assumes "\<forall>c\<in>set b. hash_blank c" "\<forall>c\<in>set d. hash_blank c" "v \<noteq> []" "\<not> hash_blank (hd v)" "\<not> hash_blank (last v)"
  shows "hash_trim (b @ v @ d) = v"
proof -
  obtain c t where v: "v = c # t" using assms(3) by (cases v) auto
  obtain u e where r: "rev v = e # u" "e = last v" using assms(3) by (cases v rule: rev_cases) auto
  have "dropWhile hash_blank (b @ v @ d) = v @ d"
    using assms(4) by (simp add: dropWhile_all_append [OF assms(1)] v)
  moreover have "dropWhile hash_blank (rev (v @ d)) = rev v"
    using assms(2,5) dropWhile_all_append [of "rev d" hash_blank "rev v"] unfolding r(2) [symmetric] by (simp add: r(1))
  ultimately show ?thesis by (simp add: hash_trim_def)
qed

lemma str_find_skip:
  "c \<notin> set s \<Longrightarrow> str_find (s @ r) (c # t) = map_option (\<lambda>i. length s + i) (str_find r (c # t))"
  by (cases "str_find r (c # t)"; induction s) auto

text \<open>The end of the header line, for either line ending.\<close>

lemma line_end:
  assumes "CR \<notin> set x" "NL \<notin> set x" "d = [] \<or> d = [CR]" "d = [] \<longrightarrow> \<not> sublist [CR, NL] post"
  shows "(case str_find (x @ d @ NL # post) [CR, NL] of Some e \<Rightarrow> Some e
          | None \<Rightarrow> str_find (x @ d @ NL # post) [NL]) = Some (length x)"
proof (cases "d = []")
  case True
  then have "str_find post [CR, NL] = None" using assms(4) by (simp add: str_find_None)
  then have "str_find (x @ NL # post) [CR, NL] = None" using assms(1) by (simp add: str_find_skip)
  then show ?thesis using True assms(2) by (simp add: str_find_skip)
next
  case False
  with assms show ?thesis by (simp add: str_find_skip)
qed

lemma line_end_from:
  assumes "drop start h = x @ d @ NL # post" "start \<le> length h" "CR \<notin> set x" "NL \<notin> set x"
    "d = [] \<or> d = [CR]" "d = [] \<longrightarrow> \<not> sublist [CR, NL] post"
  shows "(case str_find_from h [CR, NL] start of Some e \<Rightarrow> Some e | None \<Rightarrow> str_find_from h [NL] start) =
     Some (start + length x)"
  using line_end [OF assms(3-6)] assms(1,2) by (auto simp: str_find_from_def split: option.splits)

section \<open>Properties\<close>

text \<open>On the rbus platforms the hash of the answer's header and the time of the update are what
  the next request retrieves.\<close>

lemma hash_time_roundtrip:
  assumes "uses_rbus (plat S)" "\<forall>f. fopen_w S (env p) f" "header_hash (cstr header) = Some h" "NL \<notin> set h"
  shows "\<exists>p1 p2. updateHashAndTimeInDB S header p = Inr ((), p1) \<and>
     files p1 HASH_VALUE_FILE = Some h \<and> files p1 TIME_VALUE_FILE = Some (int_str (clock S (env p))) \<and>
     RetrieveHashAndTimeFromPreviousDataSet S p1 = Inr ((h, int_str (clock S (env p))), p2) \<and> bkup_hash p2 = h"
proof -
  obtain b where u: "updateHashInDB S h p = Inr ((), (write_file S HASH_VALUE_FILE h p)\<lparr>isRebootRequired := b\<rparr>)"
    using updateHashInDB_rbus [OF assms(1)] by blast
  let ?t = "int_str (clock S (env p))"
  let ?p1 = "write_file S RFC_SYNC_DONE [] (write_file S TIME_VALUE_FILE ?t
     ((write_file S HASH_VALUE_FILE h p)\<lparr>isRebootRequired := b\<rparr>))"
  have "updateHashAndTimeInDB S header p = Inr ((), ?p1)"
    using assms(1,3) u by (simp add: updateHashAndTimeInDB_def updateTimeInDB_def)
  moreover have "files ?p1 HASH_VALUE_FILE = Some h" "files ?p1 TIME_VALUE_FILE = Some ?t"
    using assms(2) by (simp_all add: write_file_files)
  moreover from this have "RetrieveHashAndTimeFromPreviousDataSet S ?p1 = Inr ((h, ?t), ?p1\<lparr>bkup_hash := h\<rparr>)"
    using assms(1,4) int_str_no_NL [of "clock S (env p)"]
    by (simp add: RetrieveHashAndTimeFromPreviousDataSet_def Let_def)
  ultimately show ?thesis by (intro exI [of _ ?p1] exI [of _ "?p1\<lparr>bkup_hash := h\<rparr>"]) simp
qed

text \<open>A process that sends the stored hash and time: the firmware is the one of the last update, and both
  identifiers are known.  On a camera nothing else matters.\<close>

definition same_device :: "'e proc \<Rightarrow> bool" where
  "same_device p \<longleftrightarrow> last_firmware p = firmware_version p \<and> partner_id p \<noteq> ''Unknown'' \<and> accountId p \<noteq> ''Unknown''"

lemma camera_sends:
  assumes "plat S = RDKC" "same_device r" "files r HASH_VALUE_FILE = Some h" "NL \<notin> set h"
    "files r TIME_VALUE_FILE = Some (int_str c)"
  shows "GetStoredHashAndTime S r = Inr ((h, int_str c), r\<lparr>bkup_hash := h\<rparr>)"
  using assms int_str_no_NL [of c]
  by (simp add: GetStoredHashAndTime_def RetrieveHashAndTimeFromPreviousDataSet_def same_device_def Let_def)

text \<open>The hash is the header line's value without surrounding blanks, for either line ending
  and either spelling of the key.\<close>

lemma header_hash_value:
  assumes "str_find (pre @ ''configSetHash:'' @ b @ v @ d @ NL # post) ''configSetHash:'' = Some (length pre)"
    "\<forall>c\<in>set b. hash_blank c" "d = [] \<or> d = [CR]" "v \<noteq> []" "\<not> hash_blank (hd v)" "\<not> hash_blank (last v)"
    "CR \<notin> set (b @ v)" "NL \<notin> set (b @ v)" "d = [] \<longrightarrow> \<not> sublist [CR, NL] post"
  shows "header_hash (pre @ ''configSetHash:'' @ b @ v @ d @ NL # post) = Some v"
proof -
  define key where "key = ''configSetHash:''"
  define h where "h = pre @ key @ b @ v @ d @ NL # post"
  have f: "str_find h key = Some (length pre)" using assms(1) by (simp add: h_def key_def)
  have dr: "drop (length pre + length key) h = (b @ v) @ d @ NL # post" by (simp add: h_def)
  have le: "length pre + length key \<le> length h" by (simp add: h_def)
  have "header_hash h = Some (hash_trim (b @ v))"
    unfolding header_hash_def Let_def key_def [symmetric] f option.case
      line_end_from [OF dr le assms(7,8,3,9)] dr
    by simp
  moreover have "hash_trim (b @ v) = v"
    using hash_trim_blanks [OF assms(2) _ assms(4-6), of "[]"] by simp
  ultimately have "header_hash h = Some v" by simp
  then show ?thesis unfolding h_def key_def .
qed

text \<open>Off broadband an account id received as unknown is not taken over: the current value is used.\<close>

lemma unknown_account_unchanged:
  assumes "\<not> is_rdkb (plat S)" "str_contains key RFC_ACCOUNT_ID_KEY_STR" "StringCaseCompare v ''Unknown''"
    "read_RFCProperty S name key [] 4096 w = Inr (i, cur, w1)" "i \<noteq> READ_RFC_FAILURE"
  shows "isConfigValueChange S name key v old w = Inr ((False, cur, cur), w1)"
proof -
  have "sublist ''.X_RDKCENTRAL-COM_RFC.'' RFC_ACCOUNT_ID_KEY_STR"
    by (simp add: RFC_ACCOUNT_ID_KEY_STR_def sublist_code)
  then have "str_contains key ''.X_RDKCENTRAL-COM_RFC.''"
    using assms(2) unfolding str_contains_sublist by (rule sublist_order.order.trans)
  with assms show ?thesis by (simp add: isConfigValueChange_def Let_def)
qed

text \<open>For a parameter outside the RFC name space that is no bootstrap parameter, a received
  value is written exactly when it differs from the current one.\<close>

lemma outside_namespace_change:
  assumes "\<not> str_contains key ''.X_RDKCENTRAL-COM_RFC.''" "\<not> checkBootstrap BS_STORE_FILENAME key w1"
    "read_RFCProperty S name key [] 4096 w = Inr (READ_RFC_SUCCESS, cur, w1)"
  shows "isConfigValueChange S name key v old w = Inr ((v \<noteq> cur, v, cur), w1)"
  using assms by (simp add: isConfigValueChange_def Let_def)

text \<open>Cleaning before an update removes the per-feature files and the variable file, and
  nothing else.\<close>

lemma cleanAllFile_exact:
  "files (cleanAllFile S w) f =
     (if f = RFCVAR_FILE \<or>
         (\<exists>d es. readdir S (files w) ''/opt/secure/RFC'' = Some es \<and> d \<in> set es \<and>
            strncmp_eq d ''.RFC_'' 5 \<and> f = ''/opt/secure/RFC/'' @ d)
      then None else files w f)"
  by (rule cleanAllFile_files)

abbreviation ref_cam :: "refenv sys" where
  "ref_cam \<equiv> ref_sys RDKC (\<lambda>_. None)"

abbreviation idle_proc :: "refenv proc" where
  "idle_proc \<equiv> ref_proc ref_env0 Map.empty Init"

lemma sample_header: "header_hash (''configSetHash: ab'' @ [CR, NL]) = Some ''ab''"
  by (simp add: header_hash_def Let_def str_find_from_def hash_trim_def hash_blank_def)

text \<open>The next process of a device.\<close>

definition next_proc :: "refenv proc \<Rightarrow> refenv proc" where
  "next_proc q = q\<lparr>last_firmware := ''fw'', firmware_version := ''fw'', partner_id := ''p'', accountId := ''a''\<rparr>"

lemma next_proc_simps: "files (next_proc q) = files q" "env (next_proc q) = env q" "same_device (next_proc q)"
  "http_ready (next_proc q) = http_ready q" "rfc_state (next_proc q) = rfc_state q"
  by (simp_all add: next_proc_def same_device_def)

definition acc_proc :: "refenv proc" where
  "acc_proc = ref_proc (ref_env0\<lparr>re_params := [(RFC_ACCOUNT_ID_KEY_STR, ''42''), (''Device.Time.X'', ''z'')]\<rparr>) Map.empty Init"

lemma acc_proc_reads:
  "read_RFCProperty ref_cam ''rfc'' RFC_ACCOUNT_ID_KEY_STR [] 4096 acc_proc = Inr (1, ''42'', acc_proc)"
  "read_RFCProperty ref_cam ''rfc'' ''Device.Time.X'' [] 4096 acc_proc = Inr (1, ''z'', acc_proc)"
  by (simp_all add: read_RFCProperty_def ref_sys_def acc_proc_def ref_proc_def copy_rbus_string_def quoted_def
      RFC_ACCOUNT_ID_KEY_STR_def cstr_def)

end
