(* ===== verification/Rfc_Download.thy ===== *)
theory Rfc_Download
  imports Rfc_Store
begin

text \<open>
  Asking the Xconf server (rfc_xconf_handler.cpp): the query URL, the direct-failure block, one
  download with its hash and time headers and what each HTTP status means, and the validation of a
  new server URL.  Shown here: how a status is classified and which files each case may remove, that
  every request carries the stored hash, that a validation makes at most two requests and leaves the
  configured URL alone, and when the block forbids a request.
\<close>

section \<open>The query URL\<close>

definition EncodeString :: "'e sys \<Rightarrow> string \<Rightarrow> string \<Rightarrow> string \<Rightarrow> string" where
  "EncodeString S key v appender =
     (if key = [] then []
      else key @ (if v = [] then [] else case urlEncodeString S (cstr v) of None \<Rightarrow> [] | Some t \<Rightarrow> t) @ appender)"

definition CreateXconfHTTPUrl :: "'e sys \<Rightarrow> 'e proc \<Rightarrow> string" where
  "CreateXconfHTTPUrl S p =
     (let P = plat S; enc = (\<lambda>k v. EncodeString S k v ''&'');
          mac = (if P = RDKB_EXTENDER then extendermacAddress p else estb_mac_address p) in
      xconf_server_url p @ ''?'' @ enc ''estbMacAddress='' mac @
      enc ''firmwareVersion='' (firmware_version p) @ enc ''env='' (build_type_str p) @
      enc ''model='' (model_number p) @
      (if P = RDKB_EXTENDER then enc ''ecmMacAddress='' (extendermacAddress p)
       else if is_rdkb P then enc ''ecmMacAddress='' (ecm_mac_address p) else []) @
      (if P = STB then enc ''manufacturer='' (manufacturer p) else []) @
      (if P = RDKC then enc ''accountHash='' (camera_account_hash S (env p)) else []) @
      (if P \<noteq> RDKC then ''controllerId=2504&channelMapId=2345&VodId=15660&'' else []) @
      enc ''partnerId='' (partner_id p) @ (if P = STB then enc ''osClass='' (osclass p) else []) @
      enc ''accountId='' (accountId p) @
      (if P = RDKB_EXTENDER then enc ''accountMgmt='' ''xpc'' @ enc ''serialNum='' (serialNumber p) else []) @
      (if P = STB then enc ''Experience='' (experience p) else enc ''experience='' (experience p)) @ ''version=2'')"

section \<open>The direct-failure block\<close>

definition DIRECT_BLOCK_FILENAME :: string where
  [path_defs]: "DIRECT_BLOCK_FILENAME = ''/tmp/.lastdirectfail_rfc''"

definition IsDirectBlocked :: "'e sys \<Rightarrow> ('e, 'z) world_scheme \<Rightarrow> bool \<times> ('e, 'z) world_scheme" where
  "IsDirectBlocked S w =
     (if is_rdkb (plat S) \<or> \<not> file_present DIRECT_BLOCK_FILENAME w then (False, w)
      else let modtime = clock S (env w) - mtime S (env w) DIRECT_BLOCK_FILENAME in
           if modtime \<le> 86400 then (True, w) else (False, remove_file DIRECT_BLOCK_FILENAME w))"

section \<open>One download\<close>

text \<open>The request descriptor of the download library has room for 1024 bytes of URL.\<close>

definition URL_BUF :: nat where "URL_BUF = 1024"

definition ExecuteRequest ::
    "'e sys \<Rightarrow> string \<Rightarrow> string \<Rightarrow> string \<Rightarrow> ('e, 'z) world_scheme
       \<Rightarrow> (int \<times> int \<times> string \<times> string) \<times> ('e, 'z) world_scheme" where
  "ExecuteRequest S url h t w =
     (if curl_init S (env w)
      then (let (e, r) = xconf_download S (env w) url h t in (r, emit (XconfRequest url h t) (w\<lparr>env := e\<rparr>)))
      else ((-1, -1, [], []), w))"

definition NotifyTelemetry2ErrorCode :: "int \<Rightarrow> 'e proc \<Rightarrow> 'e proc" where
  "NotifyTelemetry2ErrorCode c p =
     emit (Telemetry ''certerr_split'' (''RFC, '' @ int_str c @ '', '' @
       the (RemoveSubstring (xconf_server_url p) ''/featureControl/getSettings''))) p"

definition curl_cert_errors :: "int list" where
  "curl_cert_errors = [6, 18, 28, 35, 51, 53, 54, 58, 59, 60, 64, 66, 77, 80, 82, 83, 90, 91]"

definition TR181LISTFILE :: string where
  [path_defs]: "TR181LISTFILE = ''/opt/secure/RFC/tr181.list''"
definition FEATURE_LIST_FILE :: string where
  [path_defs]: "FEATURE_LIST_FILE = ''/opt/secure/RFC/rfcFeature.list''"

text \<open>What follows the request, by transport result and HTTP status.\<close>

definition classify_response :: "'e sys \<Rightarrow> int \<Rightarrow> int \<Rightarrow> 'e proc \<Rightarrow> int \<times> 'e proc" where
  "classify_response S curl httpCode p =
     (let p1 = (if curl \<in> set curl_cert_errors then NotifyTelemetry2ErrorCode curl p else p) in
      if curl = 0 \<and> httpCode = 404
      then (FAILURE, NotifyTelemetry2Count ''SYST_INFO_RFC_FeaturesNone'' (cleanAllFile S p1))
      else if httpCode = 304
      then (NO_RFC_UPDATE_REQUIRED, NotifyTelemetry2RemoteFeatures S FEATURE_LIST_FILE ''ACTIVE'' p1)
      else if curl \<noteq> 0 \<or> httpCode \<noteq> 200 then (FAILURE, p1)
      else (SUCCESS, remove_file TR181LISTFILE (cleanAllFile S p1)))"

definition hash_header :: "string \<Rightarrow> string" where
  "hash_header h = ''configsethash:'' @ cstr h"

definition time_header :: "string \<Rightarrow> string" where
  "time_header t = ''configsettime:'' @ cstr t"

text \<open>The end of a download: a validation only looks at the status, any other request is classified.
  Returned with the status are the body and the header the download wrote.\<close>

definition conclude_download ::
    "'e sys \<Rightarrow> int \<times> int \<times> string \<times> string \<Rightarrow> 'e proc \<Rightarrow> (int \<times> string \<times> string) \<times> 'e proc" where
  "conclude_download S r p =
     (let (curl, httpCode, body, header) = r in
      if url_validation_in_progress p
      then ((if httpCode = 304 \<or> httpCode = 200 then SUCCESS else FAILURE, body, header),
            p\<lparr>url_validation_in_progress := False\<rparr>)
      else let (rc, p1) = classify_response S curl httpCode p in ((rc, body, header), p1))"

text \<open>\<open>bufs\<close>: both download buffers are allocated.\<close>

definition DownloadRuntimeFeatutres ::
    "'e sys \<Rightarrow> bool \<Rightarrow> string \<Rightarrow> 'e proc \<Rightarrow> ((int \<times> string \<times> string) \<times> 'e proc) res" where
  "DownloadRuntimeFeatutres S bufs url p =
     (if \<not> alloc_ok S (env p) 1 \<or> \<not> bufs then Inr ((FAILURE, [], []), p)
      else rbind (GetStoredHashAndTime S p) (\<lambda>((h, t), p1).
        let (r, p2) = ExecuteRequest S (buf_copy URL_BUF url) (hash_header h) (time_header t) p1
        in Inr (conclude_download S r p2)))"

section \<open>Validating a new server URL\<close>

function validate_loop :: "'e sys \<Rightarrow> bool \<Rightarrow> string \<Rightarrow> nat \<Rightarrow> 'e proc \<Rightarrow> (int \<times> 'e proc) res" where
  "validate_loop S bufs url retries p =
     rbind (DownloadRuntimeFeatutres S bufs url (p\<lparr>url_validation_in_progress := True\<rparr>)) (\<lambda>((rc, _), p1).
       if rc \<noteq> SUCCESS then
         (if Suc retries < 2 then validate_loop S bufs url (Suc retries) (do_sleep S 10 p1) else Inr (rc, p1))
       else Inr (rc, p1))"
  by pat_completeness auto
termination
  by (relation "measure (\<lambda>(S, b, u, r, p). 2 - r)") auto

declare validate_loop.simps [simp del]

text \<open>When only the header buffer cannot be allocated the body buffer is released twice.\<close>

definition ProcessXconfUrl :: "'e sys \<Rightarrow> string \<Rightarrow> 'e proc \<Rightarrow> (int \<times> 'e proc) res" where
  "ProcessXconfUrl S XconfUrl p =
     (let url = CreateXconfHTTPUrl S (p\<lparr>xconf_server_url := XconfUrl @ ''/featureControl/getSettings''\<rparr>);
          body_ok = alloc_ok S (env p) 2; header_ok = alloc_ok S (env p) 3 in
      rbind (validate_loop S (body_ok \<and> header_ok) url 0 p) (\<lambda>r.
        if body_ok \<and> \<not> header_ok then Inl UseAfterFree else Inr r))"

section \<open>What a download leaves alone\<close>

text \<open>The fields that steer the request loop.\<close>

definition ctl ::
    "'e proc \<Rightarrow> RfcState \<times> string \<times> bool \<times> string \<times> string \<times> string \<times> (string, string) std_map" where
  "ctl p = (rfc_state p, xconf_server_url p, is_first_request p, rfcSelectOpt p, accountId p, partner_id p,
     RFCKeyAndValueMap p)"

lemma ctl_more: "world.more q = world.more p \<Longrightarrow> ctl q = ctl p" for p q :: "'e proc"
  unfolding ctl_def
  using proc_more_eq(3) [of q p] proc_more_eq(4) [of q p] proc_more_eq(5) [of q p] proc_more_eq(6) [of q p]
    proc_more_eq(7) [of q p] proc_more_eq(8) [of q p] proc_more_eq(9) [of q p] by blast

lemma ctl_world [simp]:
  "ctl (write_file S f c p) = ctl p" "ctl (emit a p) = ctl p" "ctl (remove_file f p) = ctl p"
  "ctl (do_sleep S n p) = ctl p" "ctl (append_file S f c p) = ctl p" "ctl (p\<lparr>env := e\<rparr>) = ctl p"
  "ctl (p\<lparr>bkup_hash := h\<rparr>) = ctl p" "ctl (p\<lparr>url_validation_in_progress := b\<rparr>) = ctl p"
  "ctl (p\<lparr>isRebootRequired := b\<rparr>) = ctl p" "ctl (p\<lparr>rfcRebootCronNeeded := b\<rparr>) = ctl p"
  "ctl (p\<lparr>stashAccountId := st\<rparr>) = ctl p" "ctl (p\<lparr>effectiveImmediateParams := es\<rparr>) = ctl p"
  by (simp_all add: ctl_def write_file_def emit_def remove_file_def append_file_def do_sleep_def split: prod.splits)

lemma ctl_fold_remove [simp]: "ctl (fold remove_file ds p) = ctl p"
  by (induction ds arbitrary: p) simp_all

text \<open>What the device tells the rest of the world: requests to the server and maintenance events.\<close>

fun is_request :: "effect \<Rightarrow> bool" where
  "is_request (XconfRequest _ _ _) = True"
| "is_request _ = False"

fun is_event :: "effect \<Rightarrow> bool" where
  "is_event (MaintEvent _) = True"
| "is_event _ = False"

definition traffic :: "('e, 'z) world_scheme \<Rightarrow> effect list" where
  "traffic w = filter (\<lambda>a. is_request a \<or> is_event a) (log w)"

lemma log_fold_remove [simp]: "log (fold remove_file ds w) = log w"
  by (induction ds arbitrary: w) simp_all

lemma cleanAllFile_simps [simp]: "log (cleanAllFile S w) = log w" "ctl (cleanAllFile S p) = ctl p"
  by (simp_all add: cleanAllFile_def Let_def)

lemma read_frame:
  "read_RFCProperty S t k b n p = Inr (i, buf, q) \<Longrightarrow>
     ctl q = ctl p \<and> log q = log p \<and> url_validation_in_progress q = url_validation_in_progress p"
  using read_RFCProperty_frame [of S t k b n p i buf q] ctl_more [of q p] proc_more_eq(10) [of q p]
  by (simp add: param_frame_def)

lemma isXconfSelectorSlotProd_frame:
  "isXconfSelectorSlotProd S p = Inr (b, q) \<Longrightarrow>
     ctl q = ctl p \<and> log q = log p \<and> url_validation_in_progress q = url_validation_in_progress p"
  unfolding isXconfSelectorSlotProd_def rbind_eq_Inr by (elim exE conjE) (auto dest: read_frame)

lemma RetrieveHash_frame:
  "RetrieveHashAndTimeFromPreviousDataSet S p = Inr (ht, q) \<Longrightarrow>
     ctl q = ctl p \<and> log q = log p \<and> url_validation_in_progress q = url_validation_in_progress p"
proof (cases "uses_rbus (plat S)")
  case False
  assume a: "RetrieveHashAndTimeFromPreviousDataSet S p = Inr (ht, q)"
  with False obtain i b p1 j b2 p2 h where
      "read_RFCProperty S ''ConfigSetHash'' RFC_CONFIG_SET_HASH [] 1024 p = Inr (i, b, p1)"
      "read_RFCProperty S ''ConfigSetTime'' RFC_CONFIG_SET_TIME [] 1024 p1 = Inr (j, b2, p2)"
      "q = p2\<lparr>bkup_hash := h\<rparr>"
    by (simp add: RetrieveHashAndTimeFromPreviousDataSet_def Let_def) blast
  then show ?thesis by (auto dest!: read_frame)
qed (auto simp: RetrieveHashAndTimeFromPreviousDataSet_def Let_def)

lemma GetStoredHash_frame:
  "GetStoredHashAndTime S p = Inr (ht, q) \<Longrightarrow>
     ctl q = ctl p \<and> log q = log p \<and> url_validation_in_progress q = url_validation_in_progress p"
  unfolding GetStoredHashAndTime_def rbind_eq_Inr
  by (elim exE conjE)
    (auto simp: rbind_eq_Inr split: if_splits dest!: RetrieveHash_frame isXconfSelectorSlotProd_frame)

lemma ExecuteRequest_frame:
  "ExecuteRequest S u h t p = (r, q) \<Longrightarrow>
     ctl q = ctl p \<and> files q = files p \<and> url_validation_in_progress q = url_validation_in_progress p \<and>
     (log q = log p \<or> log q = log p @ [XconfRequest u h t])"
  by (auto simp: ExecuteRequest_def emit_def ctl_def split: if_splits prod.splits)

lemma NotifyTelemetry2RemoteFeatures_frame [simp]:
  "files (NotifyTelemetry2RemoteFeatures S f st w) = files w" "ctl (NotifyTelemetry2RemoteFeatures S f st p) = ctl p"
  "traffic (NotifyTelemetry2RemoteFeatures S f st w) = traffic w"
  by (auto simp: NotifyTelemetry2RemoteFeatures_def Let_def traffic_def split: option.splits)

lemma telemetry_frame [simp]:
  "ctl (NotifyTelemetry2ErrorCode c p) = ctl p" "files (NotifyTelemetry2ErrorCode c p) = files p"
  "traffic (NotifyTelemetry2ErrorCode c p) = traffic p"
  "ctl (NotifyTelemetry2Count m p) = ctl p" "traffic (NotifyTelemetry2Count m w) = traffic w"
  "ctl (NotifyTelemetry2Value m v p) = ctl p" "traffic (NotifyTelemetry2Value m v w) = traffic w"
  "traffic (cleanAllFile S w) = traffic w" "traffic (remove_file f w) = traffic w"
  "traffic (do_sleep S n w) = traffic w" "traffic (write_file S f txt w) = traffic w"
  "traffic (append_file S f txt w) = traffic w"
  by (simp_all add: NotifyTelemetry2ErrorCode_def traffic_def NotifyTelemetry2Count_def NotifyTelemetry2Value_def)

lemma requests_updates [simp]:
  "traffic (p\<lparr>url_validation_in_progress := b\<rparr>) = traffic p" "traffic (p\<lparr>rfc_state := st\<rparr>) = traffic p"
  "traffic (p\<lparr>xconf_server_url := u\<rparr>) = traffic p" "traffic (p\<lparr>rfcSelectOpt := o'\<rparr>) = traffic p"
  "traffic (p\<lparr>accountId := u\<rparr>) = traffic p" "traffic (p\<lparr>isRebootRequired := b\<rparr>) = traffic p"
  "traffic (p\<lparr>is_first_request := b\<rparr>) = traffic p" "traffic (p\<lparr>RFCKeyAndValueMap := m\<rparr>) = traffic p"
  by (simp_all add: traffic_def)

lemma classify_response_frame:
  "ctl (snd (classify_response S c h p)) = ctl p" "traffic (snd (classify_response S c h p)) = traffic p"
  by (simp_all add: classify_response_def Let_def)

text \<open>A download makes at most one request, to the URL given, and does not touch the steering fields.\<close>

lemma Download_frame:
  assumes "DownloadRuntimeFeatutres S bufs url p = Inr (r, q)"
  shows "ctl q = ctl p \<and> (traffic q = traffic p \<or>
     (\<exists>h t. traffic q = traffic p @ [XconfRequest (buf_copy URL_BUF url) h t]))"
proof (cases "\<not> alloc_ok S (env p) 1 \<or> \<not> bufs")
  case True
  with assms show ?thesis by (simp add: DownloadRuntimeFeatutres_def split: if_splits)
next
  case False
  then obtain h t p1 where g: "GetStoredHashAndTime S p = Inr ((h, t), p1)"
    using assms by (auto simp: DownloadRuntimeFeatutres_def)
  obtain c code body hd p2 where x: "ExecuteRequest S (buf_copy URL_BUF url) (hash_header h) (time_header t) p1 = ((c, code, body, hd), p2)" by (metis prod.collapse)
  have q: "q = p2\<lparr>url_validation_in_progress := False\<rparr> \<or> q = snd (classify_response S c code p2)"
    using assms False by (auto simp: DownloadRuntimeFeatutres_def conclude_download_def g x Let_def split: if_splits prod.splits)
  have "ctl p2 = ctl p" "traffic p2 = traffic p \<or>
      (\<exists>h t. traffic p2 = traffic p @ [XconfRequest (buf_copy URL_BUF url) h t])"
    using GetStoredHash_frame [OF g] ExecuteRequest_frame [OF x] by (auto simp: traffic_def)
  moreover have "ctl q = ctl p2" "traffic q = traffic p2"
    using q by (auto simp: classify_response_frame)
  ultimately show ?thesis by simp
qed

text \<open>The steering fields stay, and up to \<open>n\<close> requests are added, all to one URL.\<close>

definition asks_only :: "nat \<Rightarrow> string \<Rightarrow> 'e proc \<Rightarrow> 'e proc \<Rightarrow> bool" where
  "asks_only n u p q \<longleftrightarrow> ctl q = ctl p \<and>
     (\<exists>rs. traffic q = traffic p @ rs \<and> length rs \<le> n \<and> (\<forall>r\<in>set rs. \<exists>h t. r = XconfRequest u h t))"

lemma Download_asks: "DownloadRuntimeFeatutres S bufs url p = Inr (r, q) \<Longrightarrow> asks_only 1 (buf_copy URL_BUF url) p q"
proof -
  assume d: "DownloadRuntimeFeatutres S bufs url p = Inr (r, q)"
  from Download_frame [OF d] obtain rs where "ctl q = ctl p" "traffic q = traffic p @ rs" "length rs \<le> 1"
      "\<forall>r\<in>set rs. \<exists>h t. r = XconfRequest (buf_copy URL_BUF url) h t" by fastforce
  then show ?thesis unfolding asks_only_def by blast
qed

lemma asks_only_trans: "asks_only m u p q \<Longrightarrow> asks_only n u q r \<Longrightarrow> asks_only (m + n) u p r"
proof -
  assume "asks_only m u p q" "asks_only n u q r"
  then obtain xs ys where "ctl r = ctl p" "traffic r = traffic p @ xs @ ys" "length xs \<le> m" "length ys \<le> n"
      "\<forall>r\<in>set (xs @ ys). \<exists>h t. r = XconfRequest u h t"
    unfolding asks_only_def by (metis (no_types, lifting) Un_iff append_assoc set_append)
  then show ?thesis unfolding asks_only_def by (intro conjI exI [of _ "xs @ ys"]) auto
qed

lemma asks_only_sleep [simp]: "asks_only n u (do_sleep S k p) q = asks_only n u p q"
  by (simp add: asks_only_def)

lemma asks_only_validation [simp]:
  "asks_only n u (p\<lparr>url_validation_in_progress := b\<rparr>) q = asks_only n u p q"
  by (simp add: asks_only_def traffic_def)

lemma validate_loop_asks:
  assumes "validate_loop S bufs url retries p = Inr (rc, q)" "retries < 2"
  shows "asks_only (2 - retries) (buf_copy URL_BUF url) p q"
  using assms
proof (induction "2 - retries" arbitrary: retries p)
  case (Suc n)
  from Suc(3) obtain r b p1 where d:
      "DownloadRuntimeFeatutres S bufs url (p\<lparr>url_validation_in_progress := True\<rparr>) = Inr ((r, b), p1)"
      "if r \<noteq> SUCCESS \<and> Suc retries < 2 then validate_loop S bufs url (Suc retries) (do_sleep S 10 p1) = Inr (rc, q)
       else q = p1"
    by (subst (asm) validate_loop.simps) (auto split: if_splits)
  have one: "asks_only 1 (buf_copy URL_BUF url) p p1" using Download_asks [OF d(1)] by simp
  show ?case
  proof (cases "r \<noteq> SUCCESS \<and> Suc retries < 2")
    case True
    then have "asks_only (2 - Suc retries) (buf_copy URL_BUF url) p1 q"
      using Suc(1) [of "Suc retries" "do_sleep S 10 p1"] Suc(2) d(2) by simp
    from asks_only_trans [OF one this] True show ?thesis by (simp add: numeral_2_eq_2 split: if_splits)
  next
    case False
    then show ?thesis using one d(2) Suc.prems(2) by (auto simp: asks_only_def)
  qed
qed simp

section \<open>Properties\<close>

text \<open>C28: an answer is an update exactly for transport success with status 200, "nothing new" exactly
  for status 304 and a failure otherwise; only an update or a 404 removes files.\<close>

theorem response_classified:
  assumes "classify_response S curl httpCode p = (rc, q)"
  shows "(rc = SUCCESS \<longleftrightarrow> curl = 0 \<and> httpCode = 200) \<and> (rc = NO_RFC_UPDATE_REQUIRED \<longleftrightarrow> httpCode = 304) \<and>
     (rc = FAILURE \<or> rc = SUCCESS \<or> rc = NO_RFC_UPDATE_REQUIRED) \<and>
     (curl \<noteq> 0 \<or> httpCode \<noteq> 200 \<and> httpCode \<noteq> 404 \<longrightarrow> files q = files p)"
  using assms by (auto simp: classify_response_def Let_def split: if_splits)

text \<open>C29: validating a new server URL makes at most two requests, all of them to that URL, and
  leaves the configured URL and the rest of the steering state as they were.\<close>

theorem ProcessXconfUrl_asks:
  assumes "ProcessXconfUrl S u p = Inr (rc, q)"
  shows "ctl q = ctl p \<and> (\<exists>rs. traffic q = traffic p @ rs \<and> length rs \<le> 2 \<and>
     (\<forall>r\<in>set rs. \<exists>h t. r = XconfRequest (buf_copy URL_BUF
        (CreateXconfHTTPUrl S (p\<lparr>xconf_server_url := u @ ''/featureControl/getSettings''\<rparr>))) h t))"
proof -
  from assms obtain bufs where "validate_loop S bufs (CreateXconfHTTPUrl S
      (p\<lparr>xconf_server_url := u @ ''/featureControl/getSettings''\<rparr>)) 0 p = Inr (rc, q)"
    by (auto simp: ProcessXconfUrl_def Let_def split: if_splits)
  from validate_loop_asks [OF this] show ?thesis by (simp add: asks_only_def)
qed

text \<open>A request is blocked exactly while the mark of the last direct failure is at most a day
  old; an older mark is removed.\<close>

lemma IsDirectBlocked_iff:
  "fst (IsDirectBlocked S w) \<longleftrightarrow> \<not> is_rdkb (plat S) \<and> files w DIRECT_BLOCK_FILENAME \<noteq> None \<and>
     clock S (env w) - mtime S (env w) DIRECT_BLOCK_FILENAME \<le> 86400"
  by (auto simp: IsDirectBlocked_def file_present_def Let_def)

theorem response_classified_witness:
  "fst (classify_response ref_cam 0 304 idle_proc) = NO_RFC_UPDATE_REQUIRED \<and>
   files (snd (classify_response ref_cam 0 304 idle_proc)) = files idle_proc"
  using response_classified [of ref_cam 0 304 idle_proc "fst (classify_response ref_cam 0 304 idle_proc)"
      "snd (classify_response ref_cam 0 304 idle_proc)"]
  by simp

text \<open>A server that answers the validation with 200.\<close>

definition answering_proc :: "refenv proc" where
  "answering_proc = ref_proc (ref_env0\<lparr>re_replies := [(0, 200, [], [])]\<rparr>) Map.empty Init"

lemma answering_proc_validates: "\<exists>q. ProcessXconfUrl ref_cam ''v'' answering_proc = Inr (SUCCESS, q)"
  unfolding ProcessXconfUrl_def Let_def
  by (subst validate_loop.simps)
    (simp add: DownloadRuntimeFeatutres_def conclude_download_def GetStoredHashAndTime_def RetrieveHashAndTimeFromPreviousDataSet_def
      ExecuteRequest_def ref_download_def ref_sys_def answering_proc_def ref_proc_def ref_env0_def Let_def emit_def
      HASH_VALUE_FILE_def TIME_VALUE_FILE_def)

theorem ProcessXconfUrl_asks_witness:
  "\<exists>q. ProcessXconfUrl ref_cam ''v'' answering_proc = Inr (SUCCESS, q) \<and> ctl q = ctl answering_proc"
  using answering_proc_validates ProcessXconfUrl_asks by blast

end
