(* ===== verification/Rfc_Features.thy ===== *)
theory Rfc_Features
  imports Rfc_Download
begin

text \<open>
  Turning an Xconf answer into parameters (rfc_xconf_handler.cpp): the map of configuration values,
  the choice between processing an answer and asking again (\<open>PreProcessJsonResponse\<close> with the account,
  partner and selector rules), and writing the values, the feature files and the reports.  Shown
  here: what the map contains, that the last value of a key wins, that the features after one without
  configData are dropped, which state the pre-processing
  leaves, and that processing an answer makes no feature request.
\<close>

section \<open>The configuration map\<close>

definition set_insert :: "string \<Rightarrow> string list \<Rightarrow> string list" where
  "set_insert k xs = (if k \<in> set xs then xs else insort k xs)"

text \<open>The key without its \<open>tr181.\<close> parts; the removal ends because the part is not empty.\<close>

definition config_key :: "string \<Rightarrow> string" where
  "config_key k = the (RemoveSubstring k ''tr181.'')"

text \<open>The children of one \<open>configData\<close>; a child without a name (an array element) or without a
  string value constructs a string from a null pointer.\<close>

fun add_children ::
    "bool \<Rightarrow> (string option \<times> json) list \<Rightarrow> (string, string) std_map \<times> string list
       \<Rightarrow> ((string, string) std_map \<times> string list) res" where
  "add_children imm [] me = Inr me"
| "add_children imm ((name, v) # cs) (m, es) = (case name of
       None \<Rightarrow> Inl UncaughtException
     | Some k \<Rightarrow> (case json_valuestring v of
           None \<Rightarrow> Inl UncaughtException
         | Some s \<Rightarrow> add_children imm cs
             (map_put (config_key k) s m, if imm then set_insert (config_key k) es else es)))"

fun add_features ::
    "'e sys \<Rightarrow> json list \<Rightarrow> (string, string) std_map \<times> string list
       \<Rightarrow> ((string, string) std_map \<times> string list) res" where
  "add_features S [] me = Inr me"
| "add_features S (f # fs) me =
     rbind (if plat S = RDKC then isFeatureEffectiveImmediate S f else Inr False) (\<lambda>imm.
       case GetJsonItem S (Some f) ''configData'' of
         None \<Rightarrow> Inr me
       | Some cd \<Rightarrow> rbind (add_children imm (json_children cd) me) (add_features S fs))"

definition CreateConfigDataValueMap :: "'e sys \<Rightarrow> json option \<Rightarrow> 'e proc \<Rightarrow> (unit \<times> 'e proc) res" where
  "CreateConfigDataValueMap S features p =
     (let es0 = (if plat S = RDKC then [] else effectiveImmediateParams p);
          fs = (case features of None \<Rightarrow> [] | Some f \<Rightarrow> feature_list S f) in
      rbind (add_features S fs (RFCKeyAndValueMap p, es0)) (\<lambda>(m, es).
        Inr ((), p\<lparr>RFCKeyAndValueMap := m, effectiveImmediateParams := es\<rparr>)))"

section \<open>Process or ask again\<close>

text \<open>\<open>_RFCKeyAndValueMap[key]\<close>.\<close>

definition map_read :: "string \<Rightarrow> 'e proc \<Rightarrow> string \<times> 'e proc" where
  "map_read k p = (let (v, m) = map_index k [] (RFCKeyAndValueMap p) in (v, p\<lparr>RFCKeyAndValueMap := m\<rparr>))"

definition redo_unless_whoami :: "'e sys \<Rightarrow> 'e proc \<Rightarrow> 'e proc" where
  "redo_unless_whoami S p = (if checkWhoamiSupport S p then p else p\<lparr>rfc_state := Redo_With_Valid_Data\<rparr>)"

definition GetValidAccountId :: "'e sys \<Rightarrow> 'e proc \<Rightarrow> 'e proc" where
  "GetValidAccountId S p0 =
     (let (v0, p) = map_read RFC_ACCOUNT_ID_KEY_STR p0; v = (if v0 = [] then ''Unknown'' else v0) in
      if CheckSpecialCharacters v then p
      else if \<not> StringCaseCompare v ''Unknown''
      then (redo_unless_whoami S (p\<lparr>valid_accountId := v\<rparr>))\<lparr>accountId := v\<rparr>
      else if \<not> StringCaseCompare (accountId p) ''Unknown'' then p\<lparr>valid_accountId := v\<rparr>
      else redo_unless_whoami S (p\<lparr>valid_accountId := accountId p\<rparr>))"

definition GetValidPartnerId :: "'e sys \<Rightarrow> 'e proc \<Rightarrow> 'e proc" where
  "GetValidPartnerId S p0 =
     (let (v, p) = map_read RFC_PARTNER_ID_KEY_STR p0 in
      if v = [] then p\<lparr>valid_partnerId := ''Unknown''\<rparr>
      else if CheckSpecialCharacters v then p
      else if \<not> StringCaseCompare v ''Unknown''
      then (redo_unless_whoami S (p\<lparr>valid_partnerId := v\<rparr>))\<lparr>partner_id := v\<rparr>
      else if \<not> StringCaseCompare (partner_id p) ''Unknown'' then p\<lparr>valid_partnerId := v\<rparr>
      else redo_unless_whoami S (p\<lparr>valid_partnerId := partner_id p\<rparr>))"

definition GetXconfSelect :: "'e proc \<Rightarrow> 'e proc" where
  "GetXconfSelect p0 =
     (let (url, p1) = map_read XCONF_URL_KEY_STR p0;
          p2 = (if url \<noteq> [] then p1\<lparr>xconf_server_url := url\<rparr> else p1);
          (sel, p3) = map_read XCONF_SELECTOR_KEY_STR p2;
          p4 = (if sel = [] then p3
                else if sel = ''ci'' then p3\<lparr>rfcSelectorSlot := ''16'', rfc_state := Redo\<rparr>
                else if sel = ''automation'' then p3\<lparr>rfcSelectorSlot := ''19'', rfc_state := Redo\<rparr>
                else p3\<lparr>rfcSelectorSlot := ''8'', rfc_state := Finish\<rparr>)
      in if rfc_state p4 = Init then p4\<lparr>rfc_state := Finish\<rparr> else p4)"

definition pre_first :: "'e sys \<Rightarrow> 'e proc \<Rightarrow> 'e proc" where
  "pre_first S p = (if is_first_request p
     then (GetValidPartnerId S (GetValidAccountId S p))\<lparr>is_first_request := False\<rparr> else p)"

definition pre_select :: "'e proc \<Rightarrow> 'e proc" where
  "pre_select p = (if rfc_state p = Init
     then (if rfcSelectOpt p = ''local'' then p\<lparr>rfc_state := Finish\<rparr> else GetXconfSelect p) else p)"

definition PreProcessJsonResponse :: "'e sys \<Rightarrow> string \<Rightarrow> 'e proc \<Rightarrow> (unit \<times> 'e proc) res" where
  "PreProcessJsonResponse S resp p =
     (if rfc_state p = Init \<or> is_first_request p then
        (case cJSON_Parse S (cstr resp) of
           None \<Rightarrow> Inr ((), p)
         | Some j \<Rightarrow> rbind (GetRuntimeFeatureControlJSON S j Live) (\<lambda>(features, d). case features of
               None \<Rightarrow> Inr ((), p)
             | Some fs \<Rightarrow> rbind (CreateConfigDataValueMap S (Some fs) p) (\<lambda>(_, p1).
                 let p2 = pre_select (pre_first S p1) in
                 rbind (release_doc d) (\<lambda>_. Inr ((), p2\<lparr>RFCKeyAndValueMap := []\<rparr>)))))
      else if rfc_state p = Redo then Inr ((), p\<lparr>rfc_state := Finish\<rparr>)
      else Inr ((), p))"

section \<open>Writing the values\<close>

text \<open>What follows a successful write of a value that differs from the current one.\<close>

definition value_changed :: "'e sys \<Rightarrow> string \<Rightarrow> string \<Rightarrow> string \<Rightarrow> 'e proc \<Rightarrow> 'e proc" where
  "value_changed S key v cur p =
     (let p1 = (if key = TELEMETRY_CONFIG_URL \<and> prefix ''https://'' v
                then snd (do_system S ''killall -12 telemetry2_0'' p) else p);
          p2 = (if str_contains key RFC_ACCOUNT_ID_KEY_STR then NotifyTelemetry2Count ''SYST_INFO_ACCID_set'' p1 else p1);
          p3 = (if plat S = STB \<and> isMaintenanceEnabled p2 then p2\<lparr>isRebootRequired := True\<rparr> else p2)
      in if plat S = RDKC \<and> camera_reboot S key (effectiveImmediateParams p3) cur v
         then p3\<lparr>rfcRebootCronNeeded := True\<rparr> else p3)"

text \<open>Writing a value that counts as new: whether it is to be reported, and the state.\<close>

definition write_entry :: "'e sys \<Rightarrow> string \<Rightarrow> string \<Rightarrow> string \<Rightarrow> 'e proc \<Rightarrow> (bool \<times> 'e proc) res" where
  "write_entry S k v cur p =
     (if plat S = STB \<and> v = [] then Inr (False, p)
      else rbind (if k = BOOTSTRAP_XCONF_URL_KEY_STR (plat S) then ProcessXconfUrl S v p else Inr (SUCCESS, p))
        (\<lambda>(rc, p1).
           if rc \<noteq> SUCCESS then Inr (False, p1)
           else rbind (set_RFCProperty S ''rfc'' k v p1) (\<lambda>(status, p2).
             Inr (True, if status = WDMP_SUCCESS \<and> v \<noteq> cur then value_changed S k v cur p2 else p2))))"

text \<open>One entry: the current value found last, the report lines so far and the state.\<close>

definition config_entry ::
    "'e sys \<Rightarrow> string \<times> string \<Rightarrow> (string \<times> string list) \<times> 'e proc \<Rightarrow> ((string \<times> string list) \<times> 'e proc) res" where
  "config_entry S kv st =
     (let (k, v0) = kv; ((cur0, ps), p) = st in
      rbind (isConfigValueChange S ''rfc'' k v0 cur0 p) (\<lambda>((changed, v, cur), p1).
      rbind (if changed then write_entry S k v cur p1 else Inr (True, p1)) (\<lambda>(report, p2).
        Inr ((cur, if report then ps @ [''TR181: '' @ k @ '' '' @ v] else ps), p2))))"

fun config_entries ::
    "'e sys \<Rightarrow> (string \<times> string) list \<Rightarrow> (string \<times> string list) \<times> 'e proc \<Rightarrow> ((string \<times> string list) \<times> 'e proc) res" where
  "config_entries S [] st = Inr st"
| "config_entries S (kv # kvs) st = rbind (config_entry S kv st) (config_entries S kvs)"

definition processXconfResponseConfigDataPart :: "'e sys \<Rightarrow> json option \<Rightarrow> 'e proc \<Rightarrow> (unit \<times> 'e proc) res" where
  "processXconfResponseConfigDataPart S features p0 =
     rbind (CreateConfigDataValueMap S features p0) (\<lambda>(_, p).
       if RFCKeyAndValueMap p = [] then Inr ((), p)
       else
         rbind (if is_rdkb (plat S) then Inr ((), p) else clearDB S p) (\<lambda>(_, p1).
         let p2 = (if plat S = RDKC then p1\<lparr>rfcRebootCronNeeded := False\<rparr> else p1) in
         rbind (config_entries S (RFCKeyAndValueMap p2) (([], []), p2)) (\<lambda>((_, ps), p3).
         let p4 = updateTR181File S ''tr181.list'' ps p3 in
         if plat S = STB then clearDBEnd S p4
         else if plat S = RDKC then Inr ((), HandleScheduledReboot S (rfcRebootCronNeeded p4) p4)
         else Inr ((), p4))))"

section \<open>The features of an answer\<close>

text \<open>One feature: nothing when a mandatory field is missing, otherwise its files and its instance.\<close>

definition read_feature :: "'e sys \<Rightarrow> json \<Rightarrow> (feature_obj \<times> bool) option res" where
  "read_feature S f =
     rbind (getRFCName S f feature0) (\<lambda>(r1, o1).
     if r1 \<noteq> SUCCESS then Inr None
     else rbind (getRFCEnableParam S f o1) (\<lambda>(r2, o2).
     if r2 \<noteq> SUCCESS then Inr None
     else rbind (getEffectiveImmediateParam S f o2) (\<lambda>(r3, o3).
     if r3 \<noteq> SUCCESS then Inr None
     else rbind (getFeatureInstance S f o3) (\<lambda>(r4, o4). Inr (Some (o4, r4 = SUCCESS))))))"

definition write_feature ::
    "'e sys \<Rightarrow> feature_obj \<times> bool \<Rightarrow> string \<times> 'e proc \<Rightarrow> string \<times> 'e proc" where
  "write_feature S fo st =
     (let (ft, named) = fo; (rfcList, p) = st;
          (rfcList1, p1) = (if named
             then (rfcList @ ft_instance ft @ ''=true,'',
                   writeRemoteFeatureCntrlFile S (''.RFC_'' @ ft_name ft @ ''.ini'') ft p)
             else (rfcList, p))
      in (rfcList1, writeRemoteFeatureCntrlFile S ''rfcVariable.ini'' ft p1))"

fun write_features :: "'e sys \<Rightarrow> json list \<Rightarrow> string \<times> 'e proc \<Rightarrow> (string \<times> 'e proc) res" where
  "write_features S [] st = Inr st"
| "write_features S (f # fs) st = rbind (read_feature S f) (\<lambda>r.
     write_features S fs (case r of None \<Rightarrow> st | Some fo \<Rightarrow> write_feature S fo st))"

definition ProcessJsonResponse :: "'e sys \<Rightarrow> string \<Rightarrow> 'e proc \<Rightarrow> (int \<times> 'e proc) res" where
  "ProcessJsonResponse S msg p = (case cJSON_Parse S (cstr msg) of
       None \<Rightarrow> Inr (FAILURE, p)
     | Some j \<Rightarrow> rbind (GetRuntimeFeatureControlJSON S j Live) (\<lambda>(features, d). case features of
           None \<Rightarrow> Inr (FAILURE, p)
         | Some fs \<Rightarrow>
             rbind (write_features S (feature_list S fs) ([], p)) (\<lambda>(rfcList, p1).
             rbind (processXconfResponseConfigDataPart S (Some fs) p1) (\<lambda>(_, p2).
             let p3 = WriteFile S ''rfcFeature.list'' rfcList p2;
                 p4 = NotifyTelemetry2RemoteFeatures S FEATURE_LIST_FILE ''STAGING'' p3;
                 p5 = WriteFile S ''.version'' (firmware_version p4) p4
             in rbind (release_doc d) (\<lambda>_. Inr (SUCCESS, p5))))))"

section \<open>What the map contains\<close>

text \<open>The entries the loop collects, in order: those of the features before the first one that has no
  \<open>configData\<close>.\<close>

definition child_entries :: "json \<Rightarrow> (string \<times> string) list" where
  "child_entries cd = map (\<lambda>(n, v). (config_key (the n), the (json_valuestring v))) (json_children cd)"

definition answer_entries :: "'e sys \<Rightarrow> json list \<Rightarrow> (string \<times> string) list" where
  "answer_entries S fs = concat (map (\<lambda>f. child_entries (the (GetJsonItem S (Some f) ''configData'')))
     (takeWhile (\<lambda>f. GetJsonItem S (Some f) ''configData'' \<noteq> None) fs))"

text \<open>The entries the answer holds: those of all its features.  Both agree when every feature has
  \<open>configData\<close>.\<close>

definition feature_entries_of :: "'e sys \<Rightarrow> json \<Rightarrow> (string \<times> string) list" where
  "feature_entries_of S f = (case GetJsonItem S (Some f) ''configData'' of None \<Rightarrow> [] | Some cd \<Rightarrow> child_entries cd)"

definition all_entries :: "'e sys \<Rightarrow> json list \<Rightarrow> (string \<times> string) list" where
  "all_entries S fs = concat (map (feature_entries_of S) fs)"

definition all_have_config :: "'e sys \<Rightarrow> json list \<Rightarrow> bool" where
  "all_have_config S fs \<longleftrightarrow> (\<forall>f\<in>set fs. GetJsonItem S (Some f) ''configData'' \<noteq> None)"

lemma all_entries_collected: "all_have_config S fs \<Longrightarrow> answer_entries S fs = all_entries S fs"
  by (induction fs) (auto simp: all_have_config_def answer_entries_def all_entries_def feature_entries_of_def)

lemma put_all_append: "std_map.put_all (xs @ ys) m = std_map.put_all ys (std_map.put_all xs m)"
  by (simp add: std_map.put_all_def)

lemma put_all_Cons: "std_map.put_all ((k, v) # xs) m = std_map.put_all xs (map_put k v m)"
  by (simp add: std_map.put_all_def)

lemma add_children_map:
  "add_children imm cs (m, es) = Inr (m', es') \<Longrightarrow>
     m' = std_map.put_all (map (\<lambda>(n, v). (config_key (the n), the (json_valuestring v))) cs) m"
proof (induction cs arbitrary: m es)
  case (Cons c cs)
  obtain n v where c: "c = (n, v)" by (cases c)
  from Cons.prems obtain k s' es2 where "n = Some k" "json_valuestring v = Some s'"
      "add_children imm cs (map_put (config_key k) s' m, es2) = Inr (m', es')"
    by (auto simp: c split: option.splits)
  with Cons.IH show ?case by (simp add: c put_all_Cons)
qed (simp add: std_map.put_all_def)

lemma add_features_map:
  "add_features S fs (m, es) = Inr (m', es') \<Longrightarrow> m' = std_map.put_all (answer_entries S fs) m"
proof (induction fs arbitrary: m es)
  case (Cons f fs)
  show ?case
  proof (cases "GetJsonItem S (Some f) ''configData''")
    case None
    with Cons.prems show ?thesis by (simp add: answer_entries_def std_map.put_all_def)
  next
    case (Some cd)
    with Cons.prems obtain imm m1 es1 where "add_children imm (json_children cd) (m, es) = Inr (m1, es1)"
        "add_features S fs (m1, es1) = Inr (m', es')" by auto
    with Cons.IH Some show ?thesis
      by (simp add: answer_entries_def child_entries_def put_all_append add_children_map [symmetric])
  qed
qed (simp add: answer_entries_def std_map.put_all_def)

lemma CreateConfigDataValueMap_map:
  assumes "CreateConfigDataValueMap S (Some fs) p = Inr (u, q)"
  shows "RFCKeyAndValueMap q = std_map.put_all (answer_entries S (feature_list S fs)) (RFCKeyAndValueMap p)"
proof -
  from assms obtain es m es' where "add_features S (feature_list S fs) (RFCKeyAndValueMap p, es) = Inr (m, es')"
      "q = p\<lparr>RFCKeyAndValueMap := m, effectiveImmediateParams := es'\<rparr>"
    unfolding CreateConfigDataValueMap_def Let_def rbind_eq_Inr by (elim exE conjE) (auto split: prod.splits)
  then show ?thesis by (simp add: add_features_map)
qed

lemma CreateConfig_frame:
  assumes "CreateConfigDataValueMap S features p = Inr (u, q)"
  shows "\<exists>m es. q = p\<lparr>RFCKeyAndValueMap := m, effectiveImmediateParams := es\<rparr> \<and>
     (map_wf (RFCKeyAndValueMap p) \<longrightarrow> map_wf m)"
proof -
  from assms obtain es m es' where a:
      "add_features S (case features of None \<Rightarrow> [] | Some f \<Rightarrow> feature_list S f) (RFCKeyAndValueMap p, es) = Inr (m, es')"
      "q = p\<lparr>RFCKeyAndValueMap := m, effectiveImmediateParams := es'\<rparr>"
    unfolding CreateConfigDataValueMap_def Let_def rbind_eq_Inr by (elim exE conjE) (auto split: prod.splits)
  from add_features_map [OF a(1)] have "map_wf (RFCKeyAndValueMap p) \<longrightarrow> map_wf m"
    by (simp add: std_map.invar_put_all)
  with a(2) show ?thesis by blast
qed

section \<open>The state after pre-processing\<close>

lemma map_read_fields [simp]:
  "rfc_state (snd (map_read k p)) = rfc_state p" "is_first_request (snd (map_read k p)) = is_first_request p"
  "rfcSelectOpt (snd (map_read k p)) = rfcSelectOpt p" "log (snd (map_read k p)) = log p"
  "accountId (snd (map_read k p)) = accountId p" "partner_id (snd (map_read k p)) = partner_id p"
  "env (snd (map_read k p)) = env p" "files (snd (map_read k p)) = files p"
  by (simp_all add: map_read_def split: prod.splits)

lemma map_read_value: "fst (map_read k p) = (case map_of (RFCKeyAndValueMap p) k of None \<Rightarrow> [] | Some v \<Rightarrow> v)"
  by (simp add: map_read_def map_index_def split: option.splits)

lemma redo_fields [simp]:
  "rfc_state (redo_unless_whoami S p) = (if checkWhoamiSupport S p then rfc_state p else Redo_With_Valid_Data)"
  "is_first_request (redo_unless_whoami S p) = is_first_request p" "log (redo_unless_whoami S p) = log p"
  "rfcSelectOpt (redo_unless_whoami S p) = rfcSelectOpt p" "files (redo_unless_whoami S p) = files p"
  "env (redo_unless_whoami S p) = env p"
  "accountId (redo_unless_whoami S p) = accountId p" "partner_id (redo_unless_whoami S p) = partner_id p"
  by (simp_all add: redo_unless_whoami_def)

text \<open>Every branch of the two id rules keeps the trace, the files and the selector option.\<close>

definition id_rule_frame :: "'e proc \<Rightarrow> 'e proc \<Rightarrow> bool" where
  "id_rule_frame p q \<longleftrightarrow> log q = log p \<and> files q = files p \<and> env q = env p \<and> rfcSelectOpt q = rfcSelectOpt p \<and>
     (rfc_state q = rfc_state p \<or> rfc_state q = Redo_With_Valid_Data)"

lemma GetValidAccountId_frame: "id_rule_frame p (GetValidAccountId S p)"
  by (simp add: GetValidAccountId_def case_prod_beta Let_def id_rule_frame_def)

lemma GetValidPartnerId_frame: "id_rule_frame p (GetValidPartnerId S p)"
  by (simp add: GetValidPartnerId_def case_prod_beta Let_def id_rule_frame_def)

lemma pre_first_frame: "id_rule_frame p (pre_first S p)"
  using GetValidAccountId_frame [of p S] GetValidPartnerId_frame [of "GetValidAccountId S p" S]
  by (auto simp: pre_first_def id_rule_frame_def)

lemma pre_first_done: "\<not> is_first_request (pre_first S p)"
  by (simp add: pre_first_def)

lemma GetXconfSelect_state:
  "rfc_state p = Init \<Longrightarrow> rfc_state (GetXconfSelect p) = Redo \<or> rfc_state (GetXconfSelect p) = Finish"
  "log (GetXconfSelect p) = log p" "files (GetXconfSelect p) = files p" "env (GetXconfSelect p) = env p"
  "is_first_request (GetXconfSelect p) = is_first_request p"
  by (simp_all add: GetXconfSelect_def case_prod_beta Let_def)

lemma pre_select_state:
  "log (pre_select p) = log p" "files (pre_select p) = files p" "env (pre_select p) = env p"
  "is_first_request (pre_select p) = is_first_request p"
  "if rfc_state p = Init then rfc_state (pre_select p) = Redo \<or> rfc_state (pre_select p) = Finish
   else rfc_state (pre_select p) = rfc_state p"
  using GetXconfSelect_state [of p] by (auto simp: pre_select_def)

text \<open>An answer the processor can use: it parses, it has a feature array, and its entries are strings.\<close>

definition good_body :: "'e sys \<Rightarrow> string \<Rightarrow> bool" where
  "good_body S body \<longleftrightarrow> (\<exists>j fs. cJSON_Parse S (cstr body) = Some j \<and> feature_array S j = Some fs \<and>
     (\<forall>me. \<exists>me'. add_features S (feature_list S fs) me = Inr me'))"

text \<open>The abstract machine: the phase and whether the first request is still to be answered.\<close>

inductive pre_step :: "RfcState \<times> bool \<Rightarrow> RfcState \<times> bool \<Rightarrow> bool" where
  ids: "pre_step (st, True) (Redo_With_Valid_Data, False)"
| ask_again: "pre_step (Init, b) (Redo, False)"
| select: "pre_step (Init, b) (Finish, False)"
| answered: "pre_step (Redo, False) (Finish, False)"
| keep_first: "st \<noteq> Init \<Longrightarrow> pre_step (st, True) (st, False)"
| keep: "st \<noteq> Init \<Longrightarrow> st \<noteq> Redo \<Longrightarrow> pre_step (st, False) (st, False)"

inductive_cases pre_step_E: "pre_step (st, b) c"

lemma pre_first_select_step:
  assumes "rfc_state p = Init \<or> is_first_request p"
  shows "pre_step (rfc_state p, is_first_request p)
     (rfc_state (pre_select (pre_first S p)), is_first_request (pre_select (pre_first S p)))"
proof (cases "is_first_request p")
  case True
  let ?q = "pre_first S p"
  have f: "is_first_request (pre_select ?q) = False" by (simp add: pre_select_state(4) pre_first_done)
  from pre_first_frame [of p S] consider "rfc_state ?q = rfc_state p" | "rfc_state ?q = Redo_With_Valid_Data"
    by (auto simp: id_rule_frame_def)
  then show ?thesis
  proof cases
    case 1
    with pre_select_state(5) [of ?q] show ?thesis
      by (cases "rfc_state p = Init") (auto simp: f True intro: pre_step.intros)
  next
    case 2
    with pre_select_state(5) [of ?q] show ?thesis by (auto simp: f True intro: pre_step.intros)
  qed
next
  case False
  then have p: "pre_first S p = p" "rfc_state p = Init" using assms by (simp_all add: pre_first_def)
  with pre_select_state(4,5) [of p] False show ?thesis by (auto intro: pre_step.intros)
qed

lemma CreateConfig_good:
  assumes "\<forall>me. \<exists>me'. add_features S (feature_list S fs) me = Inr me'"
  shows "\<exists>m es. CreateConfigDataValueMap S (Some fs) p =
     Inr ((), p\<lparr>RFCKeyAndValueMap := m, effectiveImmediateParams := es\<rparr>)"
proof -
  let ?es = "if plat S = RDKC then [] else effectiveImmediateParams p"
  obtain m es where "add_features S (feature_list S fs) (RFCKeyAndValueMap p, ?es) = Inr (m, es)"
    using assms by (metis surj_pair)
  then show ?thesis by (simp add: CreateConfigDataValueMap_def Let_def) blast
qed

text \<open>Pre-processing a good answer succeeds, takes one step of the machine, and changes nothing outside.\<close>

lemma PreProcess_step:
  assumes "good_body S body"
  shows "\<exists>q. PreProcessJsonResponse S body p = Inr ((), q) \<and>
     pre_step (rfc_state p, is_first_request p) (rfc_state q, is_first_request q) \<and>
     log q = log p \<and> files q = files p \<and> env q = env p"
proof -
  from assms obtain j fs where j: "cJSON_Parse S (cstr body) = Some j" "feature_array S j = Some fs"
      "\<forall>me. \<exists>me'. add_features S (feature_list S fs) me = Inr me'" by (auto simp: good_body_def)
  show ?thesis
  proof (cases "rfc_state p = Init \<or> is_first_request p")
    case True
    from CreateConfig_good [OF j(3)] obtain m es where
      c: "CreateConfigDataValueMap S (Some fs) p = Inr ((), p\<lparr>RFCKeyAndValueMap := m, effectiveImmediateParams := es\<rparr>)"
      by blast
    let ?p1 = "p\<lparr>RFCKeyAndValueMap := m, effectiveImmediateParams := es\<rparr>"
    let ?q = "(pre_select (pre_first S ?p1))\<lparr>RFCKeyAndValueMap := []\<rparr>"
    have "PreProcessJsonResponse S body p = Inr ((), ?q)"
      using True j c by (simp add: PreProcessJsonResponse_def)
    moreover have "pre_step (rfc_state p, is_first_request p) (rfc_state ?q, is_first_request ?q)"
      using pre_first_select_step [of ?p1 S] True by simp
    moreover have "log ?q = log p" "files ?q = files p" "env ?q = env p"
      using pre_first_frame [of ?p1 S] by (simp_all add: pre_select_state id_rule_frame_def)
    ultimately show ?thesis by blast
  next
    case False
    then show ?thesis
      by (cases "rfc_state p = Redo") (auto simp: PreProcessJsonResponse_def intro: pre_step.intros)
  qed
qed

section \<open>Properties\<close>

text \<open>The configuration map holds, for every key, the last value the answer gives it among the
  features before the first one without \<open>configData\<close>, and keeps other keys; keys lose their
  \<open>tr181.\<close> parts.\<close>

lemma config_map_last_wins:
  assumes "CreateConfigDataValueMap S (Some fs) p = Inr ((), q)" "map_wf (RFCKeyAndValueMap p)"
  shows "map_wf (RFCKeyAndValueMap q) \<and>
     map_of (RFCKeyAndValueMap q) k = (case map_of (rev (answer_entries S (feature_list S fs))) k of
        Some v \<Rightarrow> Some v | None \<Rightarrow> map_of (RFCKeyAndValueMap p) k)"
  using std_map.get_put_all [OF assms(2), of "answer_entries S (feature_list S fs)" k]
    std_map.invar_put_all [OF assms(2)]
  by (simp add: CreateConfigDataValueMap_map [OF assms(1)] split: option.splits)

text \<open>C15: pre-processing a usable answer always succeeds and takes exactly one step of the abstract
  machine: an unanswered first request is answered, an initial phase ends in a redo or in processing,
  and a redo ends in processing; nothing is written.\<close>

theorem preprocess_refines_machine:
  assumes "good_body S body"
  shows "\<exists>q. PreProcessJsonResponse S body p = Inr ((), q) \<and>
     pre_step (rfc_state p, is_first_request p) (rfc_state q, is_first_request q) \<and>
     log q = log p \<and> files q = files p"
  using PreProcess_step [OF assms, of p] by blast

text \<open>C31: the first feature without \<open>configData\<close> ends the collection of values: the configuration of such
  an answer is processed like that of the answer cut before that feature, so the values of the features
  behind it are lost.\<close>

theorem later_features_dropped:
  assumes "feature_list S fs = before @ f # behind" "feature_list S short = before"
    "GetJsonItem S (Some f) ''configData'' = None" "isFeatureEffectiveImmediate S f = Inr imm"
  shows "processXconfResponseConfigDataPart S (Some fs) p = processXconfResponseConfigDataPart S (Some short) p"
proof -
  have "add_features S (before @ f # behind) = add_features S before"
  proof (induction before)
    case Nil
    have "add_features S (f # behind) me = Inr me" for me
      using assms(3,4) by (cases "plat S = RDKC") (simp_all del: rbind_eq_Inr)
    then show ?case by (simp add: fun_eq_iff)
  next
    case (Cons g gs)
    show ?case by (rule ext) (simp only: append.simps add_features.simps Cons.IH)
  qed
  then have "CreateConfigDataValueMap S (Some fs) p = CreateConfigDataValueMap S (Some short) p"
    using assms(1,2) by (simp add: CreateConfigDataValueMap_def Let_def)
  then show ?thesis by (simp only: processXconfResponseConfigDataPart_def)
qed

text \<open>C30: on a set-top box or a camera, an account id received as unknown in any capitalisation, for a
  parameter that can be read, is not written: the entry changes nothing (the state is the one the read
  leaves), and the device's own value is reported in its place.\<close>

theorem unknown_account_kept:
  assumes "\<not> is_rdkb (plat S)" "str_contains key RFC_ACCOUNT_ID_KEY_STR" "StringCaseCompare v ''Unknown''"
    "read_RFCProperty S ''rfc'' key [] 4096 p = Inr (i, cur, p1)" "i \<noteq> READ_RFC_FAILURE"
  shows "config_entry S (key, v) ((old, reports), p) =
     Inr ((cur, reports @ [''TR181: '' @ key @ '' '' @ cur]), p1)"
  using unknown_account_unchanged [OF assms] by (simp add: config_entry_def)

text \<open>The account id taken from an answer is never empty and never \<open>Unknown\<close> in any
  capitalisation, and contains only letters and digits; otherwise the device keeps its own.\<close>

lemma account_id_rule:
  "accountId (GetValidAccountId S p) = accountId p \<or>
   (accountId (GetValidAccountId S p) = fst (map_read RFC_ACCOUNT_ID_KEY_STR p) \<and>
    accountId (GetValidAccountId S p) \<noteq> [] \<and>
    \<not> StringCaseCompare (accountId (GetValidAccountId S p)) ''Unknown'' \<and>
    list_all isalnum (accountId (GetValidAccountId S p)))"
proof (cases "fst (map_read RFC_ACCOUNT_ID_KEY_STR p) = []")
  case True
  then show ?thesis
    by (simp add: GetValidAccountId_def case_prod_beta Let_def StringCaseCompare_iff)
next
  case False
  then show ?thesis
    by (auto simp: GetValidAccountId_def case_prod_beta Let_def CheckSpecialCharacters_iff list_all_iff)
qed

text \<open>Two features that set the same key.\<close>

definition two_features :: json where
  "two_features = JArray [JObject [(''configData'', JObject [(''tr181.k'', JString ''1'')])],
     JObject [(''configData'', JObject [(''k'', JString ''2'')])]]"

definition answer_doc :: json where
  "answer_doc = JObject [(''featureControl'', JObject [(''features'', two_features)])]"

abbreviation ref_parsing :: "platform \<Rightarrow> refenv sys" where
  "ref_parsing pl \<equiv> ref_sys pl (\<lambda>_. Some answer_doc)"

lemma config_key_sample: "config_key ''tr181.k'' = ''k''" "config_key ''k'' = ''k''"
  by (simp_all add: config_key_def RemoveSubstring.simps)

lemma feature_list_sample [simp]: "feature_list (ref_sys pl parse) two_features =
    [JObject [(''configData'', JObject [(''tr181.k'', JString ''1'')])],
     JObject [(''configData'', JObject [(''k'', JString ''2'')])]]"
  unfolding two_features_def by (rule feature_list_array) simp

lemma ref_plat: "plat (ref_sys pl parse) = pl"
  by (simp add: ref_sys_def)

lemma item_sample:
  "cJSON_GetObjectItem (ref_sys pl parse) (JObject [(k, v)]) k = Some v"
  by (simp add: ref_sys_def ref_json_item_def)

lemma add_features_sample:
  "\<exists>me'. add_features (ref_parsing STB) (feature_list (ref_parsing STB) two_features) me = Inr me'"
  by (cases me) (simp add: GetJsonItem_def item_sample ref_plat)

lemma good_sample: "good_body (ref_parsing STB) b"
proof -
  have "feature_array (ref_parsing STB) answer_doc = Some two_features"
    by (simp add: feature_array_def GetJsonItem_def item_sample answer_doc_def IsJsonArray_def
        two_features_def)
  moreover have "cJSON_Parse (ref_parsing STB) (cstr b) = Some answer_doc" by (simp add: ref_sys_def)
  ultimately show ?thesis using add_features_sample unfolding good_body_def by blast
qed

theorem preprocess_refines_machine_witness:
  "\<exists>q. PreProcessJsonResponse (ref_parsing STB) [] idle_proc = Inr ((), q) \<and>
     pre_step (rfc_state idle_proc, is_first_request idle_proc) (rfc_state q, is_first_request q) \<and>
     log q = log idle_proc \<and> files q = files idle_proc"
  by (rule preprocess_refines_machine [OF good_sample])

theorem unknown_account_kept_witness:
  "config_entry ref_cam (RFC_ACCOUNT_ID_KEY_STR, ''Unknown'') (([], []), acc_proc) =
     Inr ((''42'', [''TR181: '' @ RFC_ACCOUNT_ID_KEY_STR @ '' 42'']), acc_proc)"
proof -
  have "\<not> is_rdkb (plat ref_cam)" by (simp add: ref_sys_def)
  moreover have "str_contains RFC_ACCOUNT_ID_KEY_STR RFC_ACCOUNT_ID_KEY_STR" unfolding str_contains_sublist by simp
  moreover have "StringCaseCompare ''Unknown'' ''Unknown''" by (simp add: StringCaseCompare_iff)
  ultimately show ?thesis
    using unknown_account_kept [of ref_cam RFC_ACCOUNT_ID_KEY_STR "''Unknown''" acc_proc 1 "''42''" acc_proc "[]" "[]"]
      acc_proc_reads(1) by simp
qed

text \<open>A feature without \<open>configData\<close> between two that have it.\<close>

definition gap_features :: json where
  "gap_features = JArray [JObject [(''configData'', JObject [(''a'', JString ''1'')])], JObject [],
     JObject [(''configData'', JObject [(''b'', JString ''2'')])]]"

theorem later_features_dropped_witness:
  "all_entries ref_stb (feature_list ref_stb gap_features) = [(''a'', ''1''), (''b'', ''2'')] \<and>
   processXconfResponseConfigDataPart ref_stb (Some gap_features) idle_proc =
     processXconfResponseConfigDataPart ref_stb (Some (JArray [JObject [(''configData'', JObject [(''a'', JString ''1'')])]])) idle_proc"
proof -
  let ?a = "JObject [(''configData'', JObject [(''a'', JString ''1'')])]"
  let ?b = "JObject [(''configData'', JObject [(''b'', JString ''2'')])]"
  have l: "feature_list ref_stb gap_features = [?a] @ JObject [] # [?b]" "feature_list ref_stb (JArray [?a]) = [?a]"
    by (simp_all add: gap_features_def feature_list_array)
  have n: "GetJsonItem ref_stb (Some (JObject [])) t = None" for t
    by (simp add: GetJsonItem_def ref_sys_def ref_json_item_def)
  have "\<exists>imm. isFeatureEffectiveImmediate ref_stb (JObject []) = Inr imm"
    by (intro exI [of _ False]) (simp add: isFeatureEffectiveImmediate_def GetJsonVal_def ref_sys_def ref_json_item_def)
  then obtain imm where imm: "isFeatureEffectiveImmediate ref_stb (JObject []) = Inr imm" ..
  have "all_entries ref_stb (feature_list ref_stb gap_features) = [(''a'', ''1''), (''b'', ''2'')]"
    by (simp add: l(1) all_entries_def feature_entries_of_def n)
      (simp add: GetJsonItem_def item_sample child_entries_def config_key_def RemoveSubstring.simps)
  with later_features_dropped [OF l n imm] show ?thesis by blast
qed

end
