(* ===== verification/Rfc_Rdkb.thy ===== *)
theory Rfc_Rdkb
  imports Rfc_Features
begin

text \<open>
  The broadband variant of answer processing (\<open>ParseConfigValue\<close> and \<open>ProcessJsonResponseB\<close> of
  rfc_xconf_handler.cpp): every config entry is written through rbus as it is met, with the type the
  parameter has, and a change of a parameter that is effective immediately schedules a reboot.
  Shown here: when a reboot is requested, that no conversion error escapes, and that an answer
  without a feature array releases the document twice.
\<close>

section \<open>One entry\<close>

definition WAN_FAILOVER :: string where
  "WAN_FAILOVER = ''Device.DeviceInfo.X_RDKCENTRAL-COM_RFC.Feature.WanFailOverSupport.Enable''"
definition WAN_UNIFICATION :: string where
  "WAN_UNIFICATION = ''Device.DeviceInfo.X_RDKCENTRAL-COM_RFC.Feature.WanUnification.Enable''"
definition UPNP_REFACTOR :: string where
  "UPNP_REFACTOR = ''Device.DeviceInfo.X_RDKCENTRAL-COM_RFC.Feature.UPnP.Refactor.Enable''"
definition XUPNP :: string where
  "XUPNP = ''Device.DeviceInfo.X_RDKCENTRAL-COM_RFC.Feature.Xupnp''"
definition SELECTED_MODE :: string where
  "SELECTED_MODE = ''Device.X_RDKCENTRAL-COM_EthernetWAN.SelectedOperationalMode''"

text \<open>A switch read as text; a null string from rbus is assigned to a \<open>std::string\<close>.\<close>

definition read_switch :: "'e sys \<Rightarrow> string \<Rightarrow> ('e, 'z) world_scheme \<Rightarrow> string res" where
  "read_switch S k w = (case rbus_get S (env w) k of
       Some (RbBool b) \<Rightarrow> Inr (if b then ''true'' else ''false'')
     | Some (RbString s) \<Rightarrow> Inr s
     | Some RbNullString \<Rightarrow> Inl UncaughtException
     | _ \<Rightarrow> Inr [])"

text \<open>The type name and the current value as text; \<open>None\<close> for a type that is not handled.\<close>

fun value_text :: "rbus_value \<Rightarrow> (string \<times> string) option res" where
  "value_text (RbString s) = Inr (Some (''string'', s))"
| "value_text RbNullString = Inl UncaughtException"
| "value_text (RbBool b) = Inr (Some (''bool'', if b then ''true'' else ''false''))"
| "value_text (RbInt32 i) = Inr (Some (''int'', int_str i))"
| "value_text (RbUInt32 i) = Inr (Some (''uint'', int_str i))"
| "value_text (RbSingle t) = Inr (Some (''double'', t))"
| "value_text (RbDouble t) = Inr (Some (''double'', t))"
| "value_text _ = Inr None"

definition strip_tr181 :: "string \<Rightarrow> string" where
  "strip_tr181 k = (if prefix ''tr181.'' k then drop 6 k else k)"

definition bus_set :: "'e sys \<Rightarrow> string \<Rightarrow> rbus_value \<Rightarrow> ('e, 'z) world_scheme \<Rightarrow> bool \<times> ('e, 'z) world_scheme" where
  "bus_set S k v w = (let (e, ok) = rbus_set S (env w) k v in (ok, w\<lparr>env := e\<rparr>))"

text \<open>The write of a converted value inside the \<open>try\<close> block: a conversion that throws writes nothing.\<close>

definition try_set :: "'e sys \<Rightarrow> string \<Rightarrow> rbus_value \<Rightarrow> string \<Rightarrow> ('e, 'z) world_scheme \<Rightarrow> bool \<times> ('e, 'z) world_scheme" where
  "try_set S k old v w = (case rbus_convert S old v of
       Inr (Some nv) \<Rightarrow> bus_set S k nv w | _ \<Rightarrow> (False, w))"

text \<open>A command run for its output: unread when the pipe cannot be opened, and successful exactly when
  the command's status is zero.\<close>

definition ExecuteCommand ::
    "'e sys \<Rightarrow> string \<Rightarrow> string \<Rightarrow> ('e, 'z) world_scheme \<Rightarrow> (bool \<times> string) \<times> ('e, 'z) world_scheme" where
  "ExecuteCommand S command output w = (case popen_out S (env w) command of
       None \<Rightarrow> ((False, output), w)
     | Some out \<Rightarrow> ((system_rc S (env w) command = 0, concat (map cstr (fgets_all 128 out))), emit (System command) w))"

definition select_wan_mode :: "'e sys \<Rightarrow> string \<Rightarrow> ('e, 'z) world_scheme \<Rightarrow> ('e, 'z) world_scheme" where
  "select_wan_mode S v w =
     (let (_, w1) = bus_set S ''Device.X_RDK_WanManager.Interface.[DOCSIS].Selection.Enable''
                      (RbBool (v \<noteq> ''Ethernet'')) w;
          (_, w2) = bus_set S ''Device.X_RDK_WanManager.Interface.[WANOE].Selection.Enable''
                      (RbBool (v \<noteq> ''DOCSIS'')) w1;
          persist = (if v = ''Auto'' then ''FALSE'' else ''TRUE'')
      in snd (ExecuteCommand S (''psmcli set '' @ DQ # ''dmsb.wanmanager.group.1.PersistSelectedInterface'' @
           DQ # '' '' @ DQ # persist @ [DQ]) [] w2))"

definition write_param_info :: "'e sys \<Rightarrow> string \<Rightarrow> string \<Rightarrow> string \<Rightarrow> ('e, 'z) world_scheme \<Rightarrow> ('e, 'z) world_scheme" where
  "write_param_info S k t v w = write_file S PARAM_RFC_FILE
     (unlines [''name: '' @ k, ''type: '' @ t, ''value: '' @ v]) w"

text \<open>The part after the parameter has been read: returns whether a reboot is needed.\<close>

definition apply_value ::
    "'e sys \<Rightarrow> string \<Rightarrow> rbus_value \<Rightarrow> string \<Rightarrow> string \<Rightarrow> int \<Rightarrow> bool \<Rightarrow> ('e, 'z) world_scheme
       \<Rightarrow> bool \<times> ('e, 'z) world_scheme" where
  "apply_value S k old cur v rebootValue cron w =
     (if cur \<noteq> v then
        (let (ok, w1) = try_set S k old v w in
         if \<not> ok then (cron, w1)
         else let w2 = (if k = RFC_ACCOUNT_ID_KEY_STR then NotifyTelemetry2Count ''SYST_INFO_ACCID_set'' w1 else w1);
                  reboot = (if k = RFC_PARTNER_ID_KEY_STR \<and> (cur = ''unknown'' \<or> cur = ''Unknown'')
                            then 1 else rebootValue)
              in (cron \<or> reboot = 1, w2))
      else if str_contains k ''.X_RDKCENTRAL-COM_RFC.'' then (cron, snd (try_set S k old v w))
      else (cron, w))"

definition ParseConfigValue ::
    "'e sys \<Rightarrow> string \<Rightarrow> string \<Rightarrow> int \<Rightarrow> bool \<Rightarrow> ('e, 'z) world_scheme
       \<Rightarrow> ((bool \<times> bool) \<times> ('e, 'z) world_scheme) res" where
  "ParseConfigValue S configKey v rebootValue cron w =
     (if \<not> rbus_open S (env w) then Inr ((False, cron), w)
      else let k = strip_tr181 configKey in
        rbind (read_switch S WAN_FAILOVER w) (\<lambda>wfo.
        if wfo = ''true'' \<and> (k = UPNP_REFACTOR \<or> k = XUPNP) then Inr ((True, cron), w)
        else rbind (read_switch S WAN_UNIFICATION w) (\<lambda>wu.
        if wu = ''true'' \<and> k = SELECTED_MODE then Inr ((True, cron), select_wan_mode S v w)
        else case rbus_get S (env w) k of
            None \<Rightarrow> Inr ((True, cron), w)
          | Some old \<Rightarrow> rbind (value_text old) (\<lambda>tv. case tv of
                None \<Rightarrow> Inr ((True, cron), w)
              | Some (t, cur) \<Rightarrow>
                  (let (cron', w') = apply_value S k old cur v rebootValue cron (write_param_info S k t cur w)
                   in Inr ((True, cron'), w'))))))"

section \<open>The whole answer\<close>

text \<open>The feature name used for telemetry: the sixth field of the key, or the rest after five dots.\<close>

fun drop_fields :: "nat \<Rightarrow> string \<Rightarrow> string" where
  "drop_fields 0 s = s"
| "drop_fields (Suc n) s = (case find_idx (\<lambda>c. c = CHR ''.'') s of
       None \<Rightarrow> s | Some i \<Rightarrow> drop_fields n (drop (i + 1) s))"

definition key_feature :: "string \<Rightarrow> string" where
  "key_feature k = takeWhile (\<lambda>c. c \<noteq> CHR ''.'') (drop_fields 5 k)"

definition entry_telemetry :: "string \<Rightarrow> string \<Rightarrow> ('e, 'z) world_scheme \<Rightarrow> ('e, 'z) world_scheme" where
  "entry_telemetry k v w =
     (if key_feature k = ''PeriodicFWCheck'' \<and> v = ''true'' then NotifyTelemetry2Count ''SYS_INFO_RFC_PeriodicFWCheck'' w
      else if key_feature k = ''IPv6onLnF'' \<and> v = ''true'' then NotifyTelemetry2Count ''INFO_IPv6_LNF_Support'' w
      else w)"

fun config_children ::
    "'e sys \<Rightarrow> int \<Rightarrow> (string option \<times> json) list \<Rightarrow> bool \<times> 'e proc \<Rightarrow> (bool \<times> 'e proc) res" where
  "config_children S eff [] st = Inr st"
| "config_children S eff ((name, j) # cs) (cron, p) =
     (case (name, json_valuestring j) of
        (Some k, Some v) \<Rightarrow>
          rbind (ParseConfigValue S k v eff cron (entry_telemetry k v p)) (\<lambda>((_, cron'), p').
            config_children S eff cs (cron', p'))
      | _ \<Rightarrow> config_children S eff cs (cron, p))"

definition feature_config :: "'e sys \<Rightarrow> json \<Rightarrow> int \<Rightarrow> bool \<times> 'e proc \<Rightarrow> (bool \<times> 'e proc) res" where
  "feature_config S f eff st = (case GetJsonItem S (Some f) ''configData'' of
       None \<Rightarrow> Inr st | Some cd \<Rightarrow> config_children S eff (json_children cd) st)"

fun features_b :: "'e sys \<Rightarrow> json list \<Rightarrow> (string \<times> bool) \<times> 'e proc \<Rightarrow> ((string \<times> bool) \<times> 'e proc) res" where
  "features_b S [] st = Inr st"
| "features_b S (f # fs) ((rfcList, cron), p) = rbind (read_feature S f) (\<lambda>r. case r of
       None \<Rightarrow> features_b S fs ((rfcList, cron), p)
     | Some fo \<Rightarrow>
         (let (rfcList1, p1) = write_feature S fo (rfcList, p);
              eff = (if ft_immediate (fst fo) then 1 else 0) in
          rbind (feature_config S f eff (cron, p1)) (\<lambda>(cron1, p2).
            features_b S fs ((rfcList1, cron1), p2))))"

definition all_features_b :: "'e sys \<Rightarrow> json option \<Rightarrow> 'e proc \<Rightarrow> ((string \<times> bool) \<times> 'e proc) res" where
  "all_features_b S features p = (case features of None \<Rightarrow> Inr (([], False), p)
     | Some fs \<Rightarrow> features_b S (feature_list S fs) (([], False), p))"

text \<open>The switches reset and the database mark set before the answer is parsed, and the closing mark.\<close>

definition begin_update :: "'e sys \<Rightarrow> ('e, 'z) world_scheme \<Rightarrow> ('e, 'z) world_scheme" where
  "begin_update S p0 =
     (let (_, p1) = bus_set S ''Device.DeviceInfo.X_RDKCENTRAL-COM_RFC.Feature.CodebigSupport'' (RbBool False) p0;
          (_, p2) = bus_set S ''Device.DeviceInfo.X_RDKCENTRAL-COM_RFC.Feature.ContainerSupport'' (RbBool False) p1;
          (_, p3) = bus_set S CLEAR_DB (RbBool True) p2
      in p3)"

definition end_update :: "'e sys \<Rightarrow> ('e, 'z) world_scheme \<Rightarrow> ('e, 'z) world_scheme" where
  "end_update S p =
     snd (bus_set S ''Device.DeviceInfo.X_RDKCENTRAL-COM_RFC.Control.ClearDBEnd'' (RbBool True) p)"

text \<open>After the features: the configuration part, the account id, the reports, the reboot schedule
  and the release of the document.\<close>

definition finish_answer_b ::
    "'e sys \<Rightarrow> json option \<times> doc \<Rightarrow> string \<Rightarrow> bool \<Rightarrow> 'e proc \<Rightarrow> (int \<times> 'e proc) res" where
  "finish_answer_b S doc rfcList cron p = (let (features, d) = doc in
     rbind (processXconfResponseConfigDataPart S features p) (\<lambda>(_, p1).
     rbind (rfcCheckAccountId S p1) (\<lambda>(_, p2).
     let p3 = WriteFile S ''rfcFeature.list'' rfcList p2;
         p4 = NotifyTelemetry2RemoteFeatures S FEATURE_LIST_FILE ''STAGING'' p3;
         p5 = WriteFile S ''.version'' (firmware_version p4) p4;
         p6 = HandleScheduledReboot S cron p5
     in rbind (release_doc d) (\<lambda>_. Inr (SUCCESS, p6)))))"

definition ProcessJsonResponseB :: "'e sys \<Rightarrow> string \<Rightarrow> 'e proc \<Rightarrow> (int \<times> 'e proc) res" where
  "ProcessJsonResponseB S msg p0 =
     (if \<not> rbus_open S (env p0) then Inr (FAILURE, p0)
      else let p3 = begin_update S p0 in
        case cJSON_Parse S (cstr msg) of
          None \<Rightarrow> Inr (FAILURE, p3)
        | Some j \<Rightarrow>
            rbind (GetRuntimeFeatureControlJSON S j Live) (\<lambda>(features, d).
            rbind (all_features_b S features p3) (\<lambda>((rfcList, cron), p4).
            finish_answer_b S (features, d) rfcList cron (end_update S p4))))"

section \<open>Rebooting\<close>

lemma apply_value_reboot:
  assumes "apply_value S k old cur v rb False w = (True, w')"
  shows "cur \<noteq> v \<and> (\<exists>nv. rbus_convert S old v = Inr (Some nv) \<and> rbus_set S (env w) k nv = (env w', True)) \<and>
     (rb = 1 \<or> k = RFC_PARTNER_ID_KEY_STR \<and> (cur = ''unknown'' \<or> cur = ''Unknown''))"
  using assms
  by (auto simp: apply_value_def try_set_def bus_set_def Let_def case_prod_beta prod_eq_iff split: if_splits sum.splits option.splits)

lemma rbus_read_total:
  "uses_rbus (plat S) \<Longrightarrow> \<exists>r. read_RFCProperty S t k b n w = Inr r"
  by (auto simp: read_RFCProperty_def split: option.splits rbus_value.splits)

lemma bus_set_more [simp]:
  "files (snd (bus_set S k v w)) = files w" "log (snd (bus_set S k v w)) = log w"
  "world.more (snd (bus_set S k v w)) = world.more w"
  by (simp_all add: bus_set_def case_prod_beta)

lemma bus_set_map [simp]: "RFCKeyAndValueMap (snd (bus_set S k v p)) = RFCKeyAndValueMap p"
  by (simp add: bus_set_def case_prod_beta)

lemma update_frame [simp]:
  "log (begin_update S w) = log w" "log (end_update S w) = log w"
  "files (begin_update S w) = files w" "files (end_update S w) = files w"
  "world.more (begin_update S w) = world.more w" "world.more (end_update S w) = world.more w"
  by (simp_all add: begin_update_def end_update_def case_prod_beta)

lemma update_map [simp]:
  "RFCKeyAndValueMap (begin_update S p) = RFCKeyAndValueMap p"
  "RFCKeyAndValueMap (end_update S p) = RFCKeyAndValueMap p"
  by (simp_all add: begin_update_def end_update_def case_prod_beta)

section \<open>Properties\<close>

text \<open>C39: processing an entry asks for a reboot only when the parameter exists, its value differs
  from the one received, the received value converts to the parameter's type and the data model accepted
  it, and either the feature is effective immediately or the partner id was unknown.\<close>

theorem reboot_only_on_change:
  assumes "ParseConfigValue S key v rb False w = Inr ((ok, True), w')"
  shows "\<exists>old t cur nv. rbus_get S (env w) (strip_tr181 key) = Some old \<and> value_text old = Inr (Some (t, cur)) \<and>
     cur \<noteq> v \<and> rbus_convert S old v = Inr (Some nv) \<and> rbus_set S (env w) (strip_tr181 key) nv = (env w', True) \<and>
     (rb = 1 \<or> strip_tr181 key = RFC_PARTNER_ID_KEY_STR \<and> (cur = ''unknown'' \<or> cur = ''Unknown''))"
proof -
  let ?w = "\<lambda>t cur. write_param_info S (strip_tr181 key) t cur w"
  from assms obtain old t cur where o: "rbus_get S (env w) (strip_tr181 key) = Some old"
      "value_text old = Inr (Some (t, cur))"
      "apply_value S (strip_tr181 key) old cur v rb False (?w t cur) = (True, w')"
    by (auto simp: ParseConfigValue_def Let_def case_prod_beta prod_eq_iff split: if_splits option.splits)
  have "env (?w t cur) = env w" by (simp add: write_param_info_def)
  with apply_value_reboot [OF o(3)] o(1,2) show ?thesis by auto
qed

text \<open>C40: an answer that parses but has no feature array is released by the lookup of the array and
  again at the end of the processing.\<close>

theorem missing_features_double_free:
  assumes "uses_rbus (plat S)" "rbus_open S (env p)" "cJSON_Parse S (cstr msg) = Some j"
    "feature_array S j = None" "RFCKeyAndValueMap p = []"
  shows "GetRuntimeFeatureControlJSON S j Live = Inr (None, Freed) \<and> ProcessJsonResponseB S msg p = Inl UseAfterFree"
proof -
  define p5 where "p5 = end_update S (begin_update S p)"
  have m: "RFCKeyAndValueMap p5 = []" using assms(5) by (simp add: p5_def)
  obtain p6 where p6: "processXconfResponseConfigDataPart S None p5 = Inr ((), p6)"
    using m by (simp add: processXconfResponseConfigDataPart_def CreateConfigDataValueMap_def)
  obtain p7 where p7: "rfcCheckAccountId S p6 = Inr ((), p7)"
    using rbus_read_total [OF assms(1), of "''AccountID''" RFC_ACCOUNT_ID_KEY_STR "[]" 1024 p6]
    by (auto simp: rfcCheckAccountId_def)
  show ?thesis
    using assms(2-4) p6 p7 by (simp add: ProcessJsonResponseB_def finish_answer_b_def all_features_b_def p5_def)
qed

text \<open>A broadband device with one boolean parameter that changes.\<close>

definition bool_sys :: "refenv sys" where
  "bool_sys = (ref_sys RDKB (\<lambda>_. Some (JObject [])))\<lparr>
     rbus_get := (\<lambda>e k. if k = ''k'' then Some (RbBool False) else None), rbus_set := (\<lambda>e k v. (e, True))\<rparr>"

lemma bool_sys_fields [simp]:
  "rbus_open bool_sys e" "plat bool_sys = RDKB" "rbus_set bool_sys e k v = (e, True)"
  "rbus_get bool_sys e k = (if k = ''k'' then Some (RbBool False) else None)"
  "cJSON_Parse bool_sys t = Some (JObject [])" "cJSON_GetObjectItem bool_sys (JObject []) t = None"
  by (simp_all add: bool_sys_def ref_sys_def ref_json_item_def)

lemma bool_change_parsed:
  "ParseConfigValue bool_sys ''tr181.k'' ''true'' 1 False idle_proc =
     Inr ((True, True), write_param_info bool_sys ''k'' ''bool'' ''false'' idle_proc)"
  by (simp add: ParseConfigValue_def read_switch_def strip_tr181_def WAN_FAILOVER_def WAN_UNIFICATION_def
      apply_value_def try_set_def bus_set_def RFC_ACCOUNT_ID_KEY_STR_def UPNP_REFACTOR_def XUPNP_def SELECTED_MODE_def)

theorem reboot_only_on_change_witness:
  "\<exists>old t cur nv. rbus_get bool_sys (env idle_proc) (strip_tr181 ''tr181.k'') = Some old \<and>
     value_text old = Inr (Some (t, cur)) \<and> cur \<noteq> ''true'' \<and> rbus_convert bool_sys old ''true'' = Inr (Some nv)"
  using reboot_only_on_change [OF bool_change_parsed] by blast

theorem missing_features_double_free_witness:
  "ProcessJsonResponseB bool_sys ''x'' idle_proc = Inl UseAfterFree"
  using missing_features_double_free [of bool_sys idle_proc "''x''" "JObject []"]
  by (simp add: feature_array_def GetJsonItem_def ref_proc_def)

end
