(* ===== verification/Rfc_Request.thy ===== *)
theory Rfc_Request
  imports Rfc_Rdkb
begin

text \<open>
  The request loop of the RFC manager (\<open>ProcessRuntimeFeatureControlReq\<close>): up to three requests to
  the Xconf server, each answer either processed, or followed by another request, or a failure.
  The control flow of the loop is also stated as a step relation on \<open>RfcState\<close>, and the loop refines
  it.  Shown here: no more than three feature requests are made, a blocked device makes none; the contract
  of the steps of a round (\<open>answered_run\<close>) under which an answered run reaches the pass that processes the
  answer within the three; and that "not modified" ends the loop at once.
\<close>

section \<open>The loop\<close>

definition choose_url :: "'e sys \<Rightarrow> bool \<Rightarrow> 'e proc \<Rightarrow> 'e proc" where
  "choose_url S unlocked p =
     (if file_present (RFC_PROPERTIES_PERSISTENCE_FILE (plat S)) p \<and> unlocked
      then NotifyTelemetry2Value ''SYST_INFO_RFC_XconflocalURL'' (xconf_server_url p) p
      else if boot_strap_xconf_url p \<noteq> []
      then (let p1 = p\<lparr>xconf_server_url := boot_strap_xconf_url p @ ''/featureControl/getSettings''\<rparr>
            in NotifyTelemetry2Value ''SYST_INFO_RFC_XconfBSURL'' (xconf_server_url p1) p1)
      else p)"

definition process_answer :: "'e sys \<Rightarrow> string \<Rightarrow> 'e proc \<Rightarrow> (int \<times> 'e proc) res" where
  "process_answer S body p =
     (if is_rdkb (plat S) then ProcessJsonResponseB S body p else ProcessJsonResponse S body p)"

text \<open>The pass that ends the loop: process, record hash and time or their reset, report.\<close>

definition finish_pass :: "'e sys \<Rightarrow> string \<Rightarrow> string \<Rightarrow> 'e proc \<Rightarrow> (int \<times> 'e proc) res" where
  "finish_pass S body header p =
     rbind (process_answer S body p) (\<lambda>(r, p1).
     rbind (if r = SUCCESS then updateHashAndTimeInDB S header p1
            else rbind (updateHashInDB S ''CLEARED'' p1) (\<lambda>(_, q). updateTimeInDB S ''0'' q)) (\<lambda>(_, p2).
     rbind (StoreXconfEndpointMetadata S (NotifyTelemetry2Count ''SYST_INFO_RFC_Complete'' p2)) (\<lambda>(_, p3).
       Inr (if r = SUCCESS then SUCCESS else FAILURE, p3))))"

text \<open>What one round decides: stop with a result, or go round again.\<close>

datatype round = Stop int | Again

definition request_round :: "'e sys \<Rightarrow> bool \<Rightarrow> 'e proc \<Rightarrow> (round \<times> 'e proc) res" where
  "request_round S unlocked p0 =
     (let p = choose_url S unlocked p0; url = CreateXconfHTTPUrl S p in
      if \<not> alloc_ok S (env p) 2 \<or> \<not> alloc_ok S (env p) 3 then Inr (Stop FAILURE, p)
      else rbind (DownloadRuntimeFeatutres S True url p) (\<lambda>((rc, body, header), p1).
        if rc = SUCCESS then
          rbind (PreProcessJsonResponse S body p1) (\<lambda>(_, p2).
            if rfc_state p2 = Redo then Inr (Again, p2)
            else if rfc_state p2 = Redo_With_Valid_Data then Inr (Again, p2\<lparr>rfc_state := Init\<rparr>)
            else rbind (finish_pass S body header p2) (\<lambda>(r, p3). Inr (Stop r, p3)))
        else if rc = NO_RFC_UPDATE_REQUIRED then Inr (Stop SUCCESS, p1)
        else Inr (Again, p1)))"

definition retry_delay :: "'e sys \<Rightarrow> nat \<Rightarrow> nat" where
  "retry_delay S retries = (if is_rdkb (plat S) \<and> retries \<noteq> 1 then 30 else 10)"

function request_loop :: "'e sys \<Rightarrow> bool \<Rightarrow> nat \<Rightarrow> 'e proc \<Rightarrow> (int \<times> 'e proc) res" where
  "request_loop S unlocked retries p =
     (if \<not> retries < RETRY_COUNT then Inr (FAILURE, p)
      else rbind (request_round S unlocked p) (\<lambda>(r, p1). case r of
          Stop res \<Rightarrow> Inr (res, p1)
        | Again \<Rightarrow> request_loop S unlocked (Suc retries) (do_sleep S (retry_delay S (Suc retries)) p1)))"
  by pat_completeness auto
termination
  by (relation "measure (\<lambda>(S, u, r, p). RETRY_COUNT - r)") auto

declare request_loop.simps [simp del]

definition ProcessRuntimeFeatureControlReq :: "'e sys \<Rightarrow> 'e proc \<Rightarrow> (int \<times> 'e proc) res" where
  "ProcessRuntimeFeatureControlReq S p0 =
     (let p1 = p0\<lparr>rfcSelectOpt := (if rfc_state p0 = Local then ''local'' else ''prod'')\<rparr>;
          (skip_direct, p2) = IsDirectBlocked S p1 in
      rbind (isSecureDbgSrvUnlocked S p2) (\<lambda>(unlocked, p3).
        if skip_direct then Inr (FAILURE, p3) else request_loop S unlocked 0 p3))"

section \<open>Requests made while processing\<close>

text \<open>At most \<open>n\<close> more requests, and no maintenance event.\<close>

definition adds_requests :: "nat \<Rightarrow> ('e, 'z) world_scheme \<Rightarrow> ('e, 'z) world_scheme \<Rightarrow> bool" where
  "adds_requests n p q \<longleftrightarrow> (\<exists>rs. traffic q = traffic p @ rs \<and> length rs \<le> n \<and> list_all is_request rs)"

lemma adds_requests_trans: "adds_requests m p q \<Longrightarrow> adds_requests n q r \<Longrightarrow> adds_requests (m + n) p r"
proof -
  assume "adds_requests m p q" "adds_requests n q r"
  then obtain xs ys where "traffic q = traffic p @ xs" "length xs \<le> m" "list_all is_request xs"
      "traffic r = traffic q @ ys" "length ys \<le> n" "list_all is_request ys" by (auto simp: adds_requests_def)
  then show ?thesis unfolding adds_requests_def by (intro exI [of _ "xs @ ys"]) simp
qed

lemma asks_adds: "asks_only n u p q \<Longrightarrow> adds_requests n p q"
  unfolding asks_only_def adds_requests_def by (elim conjE exE) (fastforce simp: list_all_iff)

lemma adds_requests_mono: "adds_requests m p q \<Longrightarrow> m \<le> n \<Longrightarrow> adds_requests n p q"
  unfolding adds_requests_def by fastforce

lemma adds_requests_refl: "adds_requests n p p"
  by (simp add: adds_requests_def)

lemma adds_requests_0: "adds_requests 0 p q \<longleftrightarrow> traffic q = traffic p"
  by (auto simp: adds_requests_def)

lemma log_requests: "log q = log p \<Longrightarrow> traffic q = traffic p"
  by (simp add: traffic_def)

lemma set_RFCProperty_log: "set_RFCProperty S n k v w = Inr (st, w') \<Longrightarrow> log w' = log w"
proof (cases "uses_rbus (plat S)")
  case True
  assume "set_RFCProperty S n k v w = Inr (st, w')"
  with True show ?thesis
    by (auto simp: set_RFCProperty_def set_RFCProperty_rbus_def case_prod_beta split: if_splits option.splits)
next
  case False
  assume "set_RFCProperty S n k v w = Inr (st, w')"
  with False show ?thesis
    by (auto simp: set_RFCProperty_def set_RFCProperty_api_def param_frame_def split: if_splits
        dest!: getRFCParameter_frame setRFCParameter_frame)
qed

lemma set_all_log: "set_all S kvs w = Inr (u, w') \<Longrightarrow> log w' = log w"
  by (induction kvs arbitrary: w) (auto dest!: set_RFCProperty_log)

lemma set_RFCProperty_more: "set_RFCProperty S n k v w = Inr (st, w') \<Longrightarrow> world.more w' = world.more w"
proof (cases "uses_rbus (plat S)")
  case True
  assume "set_RFCProperty S n k v w = Inr (st, w')"
  with True show ?thesis
    by (auto simp: set_RFCProperty_def set_RFCProperty_rbus_def case_prod_beta split: if_splits option.splits)
next
  case False
  assume "set_RFCProperty S n k v w = Inr (st, w')"
  with False show ?thesis
    by (auto simp: set_RFCProperty_def set_RFCProperty_api_def param_frame_def split: if_splits
        dest!: getRFCParameter_frame setRFCParameter_frame)
qed

lemma set_all_more: "set_all S kvs w = Inr (u, w') \<Longrightarrow> world.more w' = world.more w"
  by (induction kvs arbitrary: w) (auto dest!: set_RFCProperty_more)

lemma read_log: "read_RFCProperty S t k b n w = Inr (i, buf, w') \<Longrightarrow> log w' = log w"
  by (drule read_RFCProperty_frame) (simp add: param_frame_def)

lemma isConfigValueChange_log: "isConfigValueChange S n k v c w = Inr (r, w') \<Longrightarrow> log w' = log w"
  unfolding isConfigValueChange_def rbind_eq_Inr
  by (elim exE conjE) (auto simp: Let_def dest!: read_log split: if_splits)

lemma GetAccountID_log: "GetAccountID S p = Inr (u, q) \<Longrightarrow> log q = log p"
  unfolding GetAccountID_def rbind_eq_Inr
  by (elim exE conjE) (auto simp: Let_def saveAccountIdToFile_def dest!: read_log split: if_splits)

lemma stash_log:
  "rfcStashStoreParams S p = Inr (u, q) \<Longrightarrow> log q = log p"
  "rfcStashRetrieveParams S p = Inr (u, q) \<Longrightarrow> log q = log p"
  unfolding rfcStashStoreParams_def rfcStashRetrieveParams_def
  by (auto dest!: GetAccountID_log set_RFCProperty_log split: if_splits)

lemma clear_store_log: "clear_store S p = Inr (u, q) \<Longrightarrow> log q = log p"
  unfolding clear_store_def by (cases "plat S = RDKC") (auto dest: set_all_log simp del: set_all.simps)

lemma clearDB_log: "clearDB S p = Inr (u, q) \<Longrightarrow> log q = log p"
  by (auto simp: clearDB_def dest!: stash_log clear_store_log)

lemma value_changed_requests: "traffic (value_changed S k v c p) = traffic p"
  by (simp add: value_changed_def Let_def do_system_def traffic_def)

lemma ProcessXconfUrl_adds: "ProcessXconfUrl S u p = Inr (rc, q) \<Longrightarrow> adds_requests 2 p q"
proof -
  assume "ProcessXconfUrl S u p = Inr (rc, q)"
  then obtain bufs url where "validate_loop S bufs url 0 p = Inr (rc, q)"
    by (auto simp: ProcessXconfUrl_def Let_def split: if_splits)
  from asks_adds [OF validate_loop_asks [OF this]] show ?thesis by simp
qed

lemma write_entry_adds:
  assumes "write_entry S k v cur p = Inr (r, q)"
  shows "adds_requests (if k = BOOTSTRAP_XCONF_URL_KEY_STR (plat S) then 2 else 0) p q"
proof (cases "plat S = STB \<and> v = []")
  case True
  with assms show ?thesis by (simp add: write_entry_def adds_requests_def)
next
  case False
  with assms obtain rc p1 where v: "(if k = BOOTSTRAP_XCONF_URL_KEY_STR (plat S) then ProcessXconfUrl S v p
          else Inr (SUCCESS, p)) = Inr (rc, p1)" "q = p1 \<or> (\<exists>st p2. set_RFCProperty S ''rfc'' k v p1 = Inr (st, p2) \<and>
            traffic q = traffic p2)"
    unfolding write_entry_def by (auto simp: value_changed_requests split: if_splits)
  have "traffic q = traffic p1" using v(2) by (auto dest!: set_RFCProperty_log log_requests)
  moreover have "adds_requests (if k = BOOTSTRAP_XCONF_URL_KEY_STR (plat S) then 2 else 0) p p1"
    using v(1) ProcessXconfUrl_adds by (auto simp: adds_requests_def split: if_splits)
  ultimately show ?thesis by (simp add: adds_requests_def)
qed

lemma config_entry_adds:
  assumes "config_entry S (k, v) (c, p) = Inr (c', q)"
  shows "adds_requests (if k = BOOTSTRAP_XCONF_URL_KEY_STR (plat S) then 2 else 0) p q"
proof -
  obtain cur0 ps where c: "c = (cur0, ps)" by (cases c)
  from assms obtain changed v' cur p1 r where i:
      "isConfigValueChange S ''rfc'' k v cur0 p = Inr ((changed, v', cur), p1)"
      "(if changed then write_entry S k v' cur p1 else Inr (True, p1)) = Inr (r, q)"
    unfolding config_entry_def c Let_def prod.case rbind_eq_Inr by (elim exE conjE) (auto split: prod.splits)
  have "traffic p1 = traffic p" using isConfigValueChange_log [OF i(1)] by (rule log_requests)
  moreover have "adds_requests (if k = BOOTSTRAP_XCONF_URL_KEY_STR (plat S) then 2 else 0) p1 q"
    using i(2) write_entry_adds [of S k v' cur p1 r q] by (cases changed) (auto simp: adds_requests_refl)
  ultimately show ?thesis by (simp add: adds_requests_def)
qed

lemma config_entries_adds:
  "config_entries S kvs (c, p) = Inr (c', q) \<Longrightarrow> distinct (map fst kvs) \<Longrightarrow>
     adds_requests (if BOOTSTRAP_XCONF_URL_KEY_STR (plat S) \<in> fst ` set kvs then 2 else 0) p q"
proof (induction kvs arbitrary: c p)
  case (Cons kv kvs)
  obtain k v where kv: "kv = (k, v)" by (cases kv)
  from Cons.prems(1) obtain c1 p1 where s: "config_entry S (k, v) (c, p) = Inr (c1, p1)"
      "config_entries S kvs (c1, p1) = Inr (c', q)" by (auto simp: kv)
  let ?n = "\<lambda>b. if b then 2 else (0 :: nat)"
  have "adds_requests (?n (k = BOOTSTRAP_XCONF_URL_KEY_STR (plat S)) +
      ?n (BOOTSTRAP_XCONF_URL_KEY_STR (plat S) \<in> fst ` set kvs)) p q"
    using adds_requests_trans [OF config_entry_adds [OF s(1)] Cons.IH [OF s(2)]] Cons.prems(2) by simp
  then show ?case using Cons.prems(2) by (auto simp: kv elim!: adds_requests_mono)
qed (simp add: adds_requests_def)

text \<open>Clearing the store keeps the configuration map.\<close>

lemma GetAccountID_map: "GetAccountID S p = Inr (u, q) \<Longrightarrow> RFCKeyAndValueMap q = RFCKeyAndValueMap p"
proof -
  assume "GetAccountID S p = Inr (u, q)"
  then obtain i b p1 where r: "read_RFCProperty S ''AccountID'' RFC_ACCOUNT_ID_KEY_STR [] 1024 p = Inr (i, b, p1)"
      "RFCKeyAndValueMap q = RFCKeyAndValueMap p1"
    unfolding GetAccountID_def rbind_eq_Inr
    by (elim exE conjE) (auto simp: Let_def saveAccountIdToFile_def write_file_def split: if_splits)
  have "world.more p1 = world.more p" using read_RFCProperty_frame [OF r(1)] by (simp add: param_frame_def)
  from proc_more_eq(9) [OF this] r(2) show ?thesis by simp
qed

lemma clear_store_map: "clear_store S p = Inr (u, q) \<Longrightarrow> RFCKeyAndValueMap q = RFCKeyAndValueMap p"
proof (cases "plat S = RDKC")
  case True
  assume "clear_store S p = Inr (u, q)"
  with True show ?thesis by (auto simp: clear_store_def remove_file_def)
next
  case False
  assume "clear_store S p = Inr (u, q)"
  with False have "world.more q = world.more p"
    unfolding clear_store_def by (simp del: set_all.simps) (drule set_all_more, simp)
  then show ?thesis by (rule proc_more_eq(9))
qed

lemma stash_map:
  "rfcStashStoreParams S p = Inr (u, q) \<Longrightarrow> RFCKeyAndValueMap q = RFCKeyAndValueMap p"
  "rfcStashRetrieveParams S p = Inr (u, q) \<Longrightarrow> RFCKeyAndValueMap q = RFCKeyAndValueMap p"
  unfolding rfcStashStoreParams_def rfcStashRetrieveParams_def
  by (auto dest!: GetAccountID_map set_RFCProperty_more proc_more_eq(9) split: if_splits)

lemma clearDB_map: "clearDB S p = Inr (u, q) \<Longrightarrow> RFCKeyAndValueMap q = RFCKeyAndValueMap p"
  by (auto simp: clearDB_def dest!: stash_map clear_store_map)

lemma updateTR181File_requests [simp]: "traffic (updateTR181File S f ps w) = traffic w"
  by (simp add: updateTR181File_def)

lemma HandleScheduledReboot_requests [simp]: "traffic (HandleScheduledReboot S b w) = traffic w"
  by (simp add: HandleScheduledReboot_def do_system_def traffic_def)

lemma WriteFile_requests [simp]: "traffic (WriteFile S f d w) = traffic w"
  by (simp add: WriteFile_def)

lemma processConfigData_adds:
  assumes "processXconfResponseConfigDataPart S features p0 = Inr (u, q)" "map_wf (RFCKeyAndValueMap p0)"
  shows "adds_requests 2 p0 q"
proof -
  from assms(1) obtain p where c: "CreateConfigDataValueMap S features p0 = Inr ((), p)"
    by (auto simp: processXconfResponseConfigDataPart_def)
  from CreateConfig_frame [OF c] assms(2) have wf: "map_wf (RFCKeyAndValueMap p)" and r: "traffic p = traffic p0"
    by (auto simp: traffic_def)
  show ?thesis
  proof (cases "RFCKeyAndValueMap p = []")
    case True
    with assms(1) c r show ?thesis by (auto simp: processXconfResponseConfigDataPart_def adds_requests_def)
  next
    case False
    from assms(1) c False obtain p1 where p1:
        "(if is_rdkb (plat S) then Inr ((), p) else clearDB S p) = Inr ((), p1)"
      by (auto simp: processXconfResponseConfigDataPart_def)
    define p2 where "p2 = (if plat S = RDKC then p1\<lparr>rfcRebootCronNeeded := False\<rparr> else p1)"
    from assms(1) c False p1 obtain c' ps p3 where e:
        "config_entries S (RFCKeyAndValueMap p2) (([], []), p2) = Inr ((c', ps), p3)"
        "(if plat S = STB then clearDBEnd S (updateTR181File S ''tr181.list'' ps p3)
          else if plat S = RDKC
          then Inr ((), HandleScheduledReboot S (rfcRebootCronNeeded (updateTR181File S ''tr181.list'' ps p3))
                          (updateTR181File S ''tr181.list'' ps p3))
          else Inr ((), updateTR181File S ''tr181.list'' ps p3)) = Inr (u, q)"
      by (auto simp: processXconfResponseConfigDataPart_def p2_def Let_def)
    have m: "RFCKeyAndValueMap p1 = RFCKeyAndValueMap p" "traffic p1 = traffic p"
      using p1 clearDB_map [of S p "()" p1] log_requests [OF clearDB_log [of S p "()" p1]]
      by (auto split: if_splits)
    then have "distinct (map fst (RFCKeyAndValueMap p2))" "traffic p2 = traffic p"
      using map_wf_distinct [OF wf] by (auto simp: p2_def traffic_def)
    with config_entries_adds [OF e(1)] have "adds_requests 2 p p3"
      by (auto simp: adds_requests_def split: if_splits)
    moreover have "traffic q = traffic p3"
      using e(2) by (auto simp: clearDBEnd_def simp del: set_all.simps dest!: set_all_log log_requests split: if_splits)
    ultimately show ?thesis using r by (simp add: adds_requests_def)
  qed
qed

text \<open>What an operation keeps that the bound on the requests needs: the trace of requests and events, and the map.\<close>

definition quiet :: "'e proc \<Rightarrow> 'e proc \<Rightarrow> bool" where
  "quiet p q \<longleftrightarrow> traffic q = traffic p \<and> RFCKeyAndValueMap q = RFCKeyAndValueMap p"

lemma quiet_refl [simp]: "quiet p p"
  by (simp add: quiet_def)

lemma quiet_trans: "quiet p q \<Longrightarrow> quiet q r \<Longrightarrow> quiet p r"
  by (simp add: quiet_def)

lemma quiet_more: "traffic q = traffic p \<Longrightarrow> world.more q = world.more p \<Longrightarrow> quiet p q" for p q :: "'e proc"
  unfolding quiet_def using proc_more_eq(9) by blast

lemma quiet_log_more: "log q = log p \<Longrightarrow> world.more q = world.more p \<Longrightarrow> quiet p q" for p q :: "'e proc"
  by (rule quiet_more) (simp_all add: traffic_def)

lemma quiet_updates [simp]:
  "quiet p (q\<lparr>isRebootRequired := b\<rparr>) = quiet p q" "quiet p (q\<lparr>xconf_server_url := u\<rparr>) = quiet p q"
  "quiet p (q\<lparr>rfc_state := st\<rparr>) = quiet p q"
  by (simp_all add: quiet_def)

lemma quiet_world [simp]:
  "quiet p (write_file S f c q) = quiet p q" "quiet p (append_file S f c q) = quiet p q"
  "quiet p (WriteFile S f c q) = quiet p q" "quiet p (writeRemoteFeatureCntrlFile S f ft q) = quiet p q"
  "quiet p (NotifyTelemetry2Count m q) = quiet p q" "quiet p (NotifyTelemetry2Value m v q) = quiet p q"
  "quiet p (saveAccountIdToFile S a n t q) = quiet p q" "quiet p (do_sleep S k q) = quiet p q"
  by (simp_all add: quiet_def WriteFile_def writeRemoteFeatureCntrlFile_def saveAccountIdToFile_def append_file_def
      write_file_def NotifyTelemetry2Count_def NotifyTelemetry2Value_def emit_def do_sleep_def traffic_def
      split: prod.splits)

lemma quiet_reports [simp]:
  "quiet p (NotifyTelemetry2RemoteFeatures S f st q) = quiet p q" "quiet p (HandleScheduledReboot S b q) = quiet p q"
  by (auto simp: quiet_def NotifyTelemetry2RemoteFeatures_def HandleScheduledReboot_def do_system_def Let_def emit_def
      traffic_def split: option.splits)

lemma write_feature_quiet: "quiet p (snd (write_feature S fo (l, p)))"
  by (simp add: write_feature_def case_prod_beta Let_def)

lemma write_features_quiet: "write_features S fs (l, p) = Inr (l', q) \<Longrightarrow> quiet p q"
proof (induction fs arbitrary: l p)
  case (Cons f fs)
  from Cons.prems obtain r l1 p1 where
      "(case r of None \<Rightarrow> (l, p) | Some fo \<Rightarrow> write_feature S fo (l, p)) = (l1, p1)"
      "write_features S fs (l1, p1) = Inr (l', q)" by auto (metis prod.collapse)
  moreover from this(1) have "quiet p p1" using write_feature_quiet [of p S _ l] by (cases r) (auto, metis snd_conv)
  ultimately show ?case using Cons.IH quiet_trans by blast
qed simp

lemma try_set_frame:
  "traffic (snd (try_set S k old v w)) = traffic w \<and> world.more (snd (try_set S k old v w)) = world.more w"
  by (auto simp: try_set_def traffic_def split: sum.splits option.splits)

lemma apply_value_frame:
  "traffic (snd (apply_value S k old cur v rb cron w)) = traffic w \<and>
   world.more (snd (apply_value S k old cur v rb cron w)) = world.more w"
  using try_set_frame [of S k old v w] by (auto simp: apply_value_def case_prod_beta Let_def)

lemma select_wan_mode_frame:
  "traffic (select_wan_mode S v w) = traffic w \<and> world.more (select_wan_mode S v w) = world.more w"
  by (simp add: select_wan_mode_def ExecuteCommand_def case_prod_beta Let_def traffic_def split: option.splits)

lemma write_param_info_frame:
  "traffic (write_param_info S k t c w) = traffic w" "world.more (write_param_info S k t c w) = world.more w"
  by (simp_all add: write_param_info_def)

lemma ParseConfigValue_frame:
  assumes "ParseConfigValue S k v rb cron w = Inr (r, w')"
  shows "traffic w' = traffic w \<and> world.more w' = world.more w"
  using assms
  by (auto simp: ParseConfigValue_def Let_def case_prod_beta apply_value_frame select_wan_mode_frame
      write_param_info_frame split: if_splits option.splits)

lemma entry_telemetry_quiet [simp]: "quiet p (entry_telemetry k v q) = quiet p q"
  by (simp add: entry_telemetry_def)

lemma config_children_quiet: "config_children S eff cs (cron, p) = Inr (cron', q) \<Longrightarrow> quiet p q"
proof (induction cs arbitrary: cron p)
  case (Cons c cs)
  obtain name j where c: "c = (name, j)" by (cases c)
  consider k v where "name = Some k" "json_valuestring j = Some v"
    | "config_children S eff cs (cron, p) = Inr (cron', q)"
    using Cons.prems by (auto simp: c split: option.splits)
  then show ?case
  proof cases
    case 1
    with Cons.prems obtain b cron1 p1 where
        s: "ParseConfigValue S k v eff cron (entry_telemetry k v p) = Inr ((b, cron1), p1)"
        "config_children S eff cs (cron1, p1) = Inr (cron', q)" by (auto simp: c)
    from ParseConfigValue_frame [OF s(1)] have "quiet (entry_telemetry k v p) p1" by (blast intro: quiet_more)
    then have "quiet p p1" using quiet_trans [of p "entry_telemetry k v p" p1] by simp
    with Cons.IH [OF s(2)] show ?thesis by (rule quiet_trans [rotated])
  next
    case 2
    then show ?thesis by (rule Cons.IH)
  qed
qed simp

lemma features_b_quiet: "features_b S fs ((l, cron), p) = Inr (r, q) \<Longrightarrow> quiet p q"
proof (induction fs arbitrary: l cron p)
  case (Cons f fs)
  from Cons.prems obtain ro where ro: "read_feature S f = Inr ro" by auto
  show ?case
  proof (cases ro)
    case None
    with Cons ro show ?thesis by simp
  next
    case (Some fo)
    let ?w = "write_feature S fo (l, p)"
    from Cons.prems ro Some obtain cron1 p2 where s:
        "feature_config S f (if ft_immediate (fst fo) then 1 else 0) (cron, snd ?w) = Inr (cron1, p2)"
        "features_b S fs ((fst ?w, cron1), p2) = Inr (r, q)"
      by (auto simp: case_prod_beta Let_def)
    have "quiet (snd ?w) p2" using s(1) config_children_quiet by (auto simp: feature_config_def split: option.splits)
    with write_feature_quiet [of p S fo l] have "quiet p p2" by (rule quiet_trans)
    then show ?thesis using Cons.IH [OF s(2)] by (rule quiet_trans)
  qed
qed simp

lemma all_features_b_quiet: "all_features_b S features p = Inr (r, q) \<Longrightarrow> quiet p q"
  by (auto simp: all_features_b_def dest: features_b_quiet split: option.splits)

lemma bus_set_quiet [simp]: "quiet p (snd (bus_set S k v q)) = quiet p q"
  by (simp add: quiet_def traffic_def)

lemma rfcCheckAccountId_quiet: "rfcCheckAccountId S p = Inr (u, q) \<Longrightarrow> quiet p q"
proof -
  assume "rfcCheckAccountId S p = Inr (u, q)"
  then obtain i b p1 a where r: "read_RFCProperty S ''AccountID'' RFC_ACCOUNT_ID_KEY_STR [] 1024 p = Inr (i, b, p1)"
      "q = saveAccountIdToFile S a RFC_ACCOUNT_ID_KEY_STR ''string'' p1"
    by (auto simp: rfcCheckAccountId_def)
  from read_RFCProperty_frame [OF r(1)] have "quiet p p1" by (intro quiet_log_more) (simp_all add: param_frame_def)
  then show ?thesis by (simp add: r(2))
qed

lemma ProcessJsonResponse_adds:
  assumes "ProcessJsonResponse S msg p = Inr (r, q)" "map_wf (RFCKeyAndValueMap p)"
  shows "adds_requests 2 p q"
proof (cases "r = SUCCESS")
  case False
  with assms(1) show ?thesis
    by (auto simp: ProcessJsonResponse_def adds_requests_refl Let_def split: option.splits)
next
  case True
  with assms(1) obtain fs l p1 p2 where s: "write_features S (feature_list S fs) ([], p) = Inr (l, p1)"
      "processXconfResponseConfigDataPart S (Some fs) p1 = Inr ((), p2)" "quiet p2 q"
    by (auto simp: ProcessJsonResponse_def Let_def split: option.splits)
  from write_features_quiet [OF s(1)] have "traffic p1 = traffic p" "map_wf (RFCKeyAndValueMap p1)"
    using assms(2) by (simp_all add: quiet_def)
  with processConfigData_adds [OF s(2)] s(3) show ?thesis by (simp add: adds_requests_def quiet_def)
qed

lemma ProcessJsonResponseB_adds:
  assumes "ProcessJsonResponseB S msg p = Inr (r, q)" "map_wf (RFCKeyAndValueMap p)"
  shows "adds_requests 2 p q"
proof (cases "r = SUCCESS")
  case False
  then show ?thesis
    using assms(1) by (auto simp: ProcessJsonResponseB_def finish_answer_b_def case_prod_beta Let_def adds_requests_def traffic_def
        split: if_splits option.splits)
next
  case True
  with assms(1) obtain features l cron p4 p6 p7 where s:
      "all_features_b S features (begin_update S p) = Inr ((l, cron), p4)"
      "processXconfResponseConfigDataPart S features (end_update S p4) = Inr ((), p6)"
      "rfcCheckAccountId S p6 = Inr ((), p7)" "quiet p7 q"
    by (auto simp: ProcessJsonResponseB_def finish_answer_b_def Let_def split: if_splits option.splits)
  have "quiet p (begin_update S p)" "quiet p4 (end_update S p4)" by (simp_all add: quiet_def traffic_def)
  with all_features_b_quiet [OF s(1)] have "quiet p (end_update S p4)" by (blast intro: quiet_trans)
  moreover have "quiet p6 q" using rfcCheckAccountId_quiet [OF s(3)] s(4) by (rule quiet_trans)
  ultimately show ?thesis
    using processConfigData_adds [OF s(2)] assms(2) by (simp add: adds_requests_def quiet_def)
qed

lemma updates_log:
  "updateHashInDB S h p = Inr (u, q) \<Longrightarrow> log q = log p"
  "updateTimeInDB S t p = Inr (u, q) \<Longrightarrow> log q = log p"
  "StoreXconfEndpointMetadata S p = Inr (u, q) \<Longrightarrow> log q = log p"
  unfolding updateHashInDB_def updateTimeInDB_def StoreXconfEndpointMetadata_def
  by (auto dest!: set_RFCProperty_log split: if_splits)

lemma updateHashAndTimeInDB_log: "updateHashAndTimeInDB S header p = Inr (u, q) \<Longrightarrow> log q = log p"
  by (auto simp: updateHashAndTimeInDB_def dest!: updates_log split: option.splits)

lemma process_answer_adds:
  "process_answer S body p = Inr (r, q) \<Longrightarrow> map_wf (RFCKeyAndValueMap p) \<Longrightarrow> adds_requests 2 p q"
  using ProcessJsonResponse_adds ProcessJsonResponseB_adds by (auto simp: process_answer_def split: if_splits)

lemma finish_pass_adds:
  assumes "finish_pass S body header p = Inr (r, q)" "map_wf (RFCKeyAndValueMap p)"
  shows "adds_requests 2 p q"
proof -
  from assms(1) obtain r1 p1 p2 where s: "process_answer S body p = Inr (r1, p1)"
      "(if r1 = SUCCESS then updateHashAndTimeInDB S header p1
        else rbind (updateHashInDB S ''CLEARED'' p1) (\<lambda>(_, q). updateTimeInDB S ''0'' q)) = Inr ((), p2)"
      "StoreXconfEndpointMetadata S (NotifyTelemetry2Count ''SYST_INFO_RFC_Complete'' p2) = Inr ((), q)"
    unfolding finish_pass_def by auto
  have "log p2 = log p1"
    using s(2) by (cases "r1 = SUCCESS") (auto dest!: updateHashAndTimeInDB_log updates_log)
  moreover have "traffic q = traffic p2"
    using log_requests [OF updates_log(3) [OF s(3)]] by simp
  ultimately have "traffic q = traffic p1" by (simp add: traffic_def)
  with process_answer_adds [OF s(1) assms(2)] show ?thesis by (simp add: adds_requests_def)
qed

lemma PreProcess_frame:
  assumes "PreProcessJsonResponse S body p = Inr (u, q)"
  shows "traffic q = traffic p \<and> (map_wf (RFCKeyAndValueMap p) \<longrightarrow> map_wf (RFCKeyAndValueMap q))"
proof (cases "q = p \<or> q = p\<lparr>rfc_state := Finish\<rparr>")
  case False
  with assms obtain fs p1 where c: "CreateConfigDataValueMap S (Some fs) p = Inr ((), p1)"
      "q = (pre_select (pre_first S p1))\<lparr>RFCKeyAndValueMap := []\<rparr>"
    by (auto simp: PreProcessJsonResponse_def split: option.splits if_splits)
  have "log (pre_select (pre_first S p1)) = log p1"
    using pre_first_frame [of p1 S] by (simp add: pre_select_state id_rule_frame_def)
  with CreateConfig_frame [OF c(1)] show ?thesis by (auto simp: c(2) traffic_def map_wf_def)
qed auto

lemma choose_url_quiet [simp]: "quiet p (choose_url S u p)"
  by (simp add: choose_url_def Let_def)

lemma Download_adds:
  "DownloadRuntimeFeatutres S b u p = Inr (r, q) \<Longrightarrow> adds_requests 1 p q \<and> RFCKeyAndValueMap q = RFCKeyAndValueMap p"
  using asks_adds [OF Download_asks, of S b u p r q] Download_asks [of S b u p r q] by (simp add: asks_only_def ctl_def)

lemma request_round_adds:
  assumes "request_round S u p = Inr (r, q)" "map_wf (RFCKeyAndValueMap p)"
  shows "adds_requests (case r of Stop _ \<Rightarrow> 3 | Again \<Rightarrow> 1) p q \<and>
     (r = Again \<longrightarrow> map_wf (RFCKeyAndValueMap q))"
proof -
  let ?c = "choose_url S u p"
  have c: "traffic ?c = traffic p" "RFCKeyAndValueMap ?c = RFCKeyAndValueMap p"
    using choose_url_quiet [of p S u] by (simp_all add: quiet_def)
  show ?thesis
  proof (cases "r = Stop FAILURE \<and> q = ?c")
    case True
    then show ?thesis using c by (simp add: adds_requests_def)
  next
    case False
    with assms(1) obtain rc body header p1 where d:
        "DownloadRuntimeFeatutres S True (CreateXconfHTTPUrl S ?c) ?c = Inr ((rc, body, header), p1)"
      by (auto simp: request_round_def Let_def split: if_splits)
    from Download_adds [OF d] c assms(2) have one: "adds_requests 1 p p1" and wf: "map_wf (RFCKeyAndValueMap p1)"
      by (auto simp: adds_requests_def)
    show ?thesis
    proof (cases "rc = SUCCESS")
      case False
      with assms(1) d \<open>\<not> (r = Stop FAILURE \<and> q = ?c)\<close> have "q = p1"
        by (auto simp: request_round_def Let_def split: if_splits)
      with one wf show ?thesis by (auto elim: adds_requests_mono split: round.splits)
    next
      case True
      with assms(1) d \<open>\<not> (r = Stop FAILURE \<and> q = ?c)\<close> obtain p2 where p2:
          "PreProcessJsonResponse S body p1 = Inr ((), p2)"
          "r = Again \<and> (q = p2 \<or> q = p2\<lparr>rfc_state := Init\<rparr>) \<or>
           (\<exists>res. r = Stop res \<and> finish_pass S body header p2 = Inr (res, q))"
        by (auto simp: request_round_def Let_def split: if_splits)
      from PreProcess_frame [OF p2(1)] wf one have two: "adds_requests 1 p p2" "map_wf (RFCKeyAndValueMap p2)"
        by (simp_all add: adds_requests_def)
      from p2(2) show ?thesis
      proof
        assume "r = Again \<and> (q = p2 \<or> q = p2\<lparr>rfc_state := Init\<rparr>)"
        with two show ?thesis by (auto simp: adds_requests_def)
      next
        assume "\<exists>res. r = Stop res \<and> finish_pass S body header p2 = Inr (res, q)"
        then obtain res where f: "r = Stop res" "finish_pass S body header p2 = Inr (res, q)" by blast
        from adds_requests_trans [OF two(1) finish_pass_adds [OF f(2) two(2)]] f(1) show ?thesis
          by (simp add: numeral_3_eq_3)
      qed
    qed
  qed
qed

lemma request_loop_adds:
  assumes "request_loop S u n p = Inr (r, q)" "map_wf (RFCKeyAndValueMap p)" "n \<le> RETRY_COUNT"
  shows "adds_requests (RETRY_COUNT - n + 2) p q"
  using assms
proof (induction "RETRY_COUNT - n" arbitrary: n p)
  case 0
  then show ?case by (subst (asm) request_loop.simps) (simp add: adds_requests_refl)
next
  case (Suc m)
  from Suc(2) have n: "n < RETRY_COUNT" by simp
  have "rbind (request_round S u p) (\<lambda>(r, p1). case r of Stop res \<Rightarrow> Inr (res, p1)
      | Again \<Rightarrow> request_loop S u (Suc n) (do_sleep S (retry_delay S (Suc n)) p1)) = Inr (r, q)"
    using Suc(3) n by (subst (asm) request_loop.simps) (simp only: not_True_eq_False if_False)
  then obtain rd p1 where rd: "request_round S u p = Inr (rd, p1)"
      "(case rd of Stop res \<Rightarrow> Inr (res, p1)
        | Again \<Rightarrow> request_loop S u (Suc n) (do_sleep S (retry_delay S (Suc n)) p1)) = Inr (r, q)"
    by auto
  note one = request_round_adds [OF rd(1) Suc(4)]
  show ?case
  proof (cases rd)
    case (Stop res)
    with one rd(2) Suc(2) show ?thesis by (auto elim!: adds_requests_mono)
  next
    case Again
    let ?p2 = "do_sleep S (retry_delay S (Suc n)) p1"
    have "quiet p1 ?p2" by simp
    then have "map_wf (RFCKeyAndValueMap ?p2)" "traffic ?p2 = traffic p1"
      using one Again by (simp_all add: quiet_def del: telemetry_frame)
    moreover have "adds_requests (RETRY_COUNT - Suc n + 2) ?p2 q"
      using Suc(1) [of "Suc n" ?p2] Suc(2) rd(2) Again calculation(1) by simp
    ultimately have "adds_requests (RETRY_COUNT - Suc n + 2) p1 q" by (simp add: adds_requests_def)
    moreover have "adds_requests 1 p p1" using one Again by simp
    ultimately have "adds_requests (1 + (RETRY_COUNT - Suc n + 2)) p q" by (rule adds_requests_trans [rotated])
    then show ?thesis using Suc(2) by (auto elim!: adds_requests_mono)
  qed
qed

lemma unlock_quiet: "isSecureDbgSrvUnlocked S p = Inr (b, q) \<Longrightarrow> quiet p q"
proof -
  assume a: "isSecureDbgSrvUnlocked S p = Inr (b, q)"
  have rd: "read_RFCProperty S t k bf n w = Inr (i, bf', w') \<Longrightarrow> quiet w w'" for t k bf n i bf' and w w' :: "'a proc"
    using read_RFCProperty_frame [of S t k bf n w i bf' w'] by (intro quiet_log_more) (simp_all add: param_frame_def)
  have dbg: "isDebugServicesEnabled S w = Inr (x, w') \<Longrightarrow> quiet w w'" for x and w w' :: "'a proc"
    by (auto simp: isDebugServicesEnabled_def dest: rd)
  have dev: "getDeviceTypeRFC S n w = Inr (x, w') \<Longrightarrow> quiet w w'" for n x and w w' :: "'a proc"
    by (auto simp: getDeviceTypeRFC_def dest: rd)
  show ?thesis
    using a by (auto simp: isSecureDbgSrvUnlocked_def Let_def dest!: dbg dev dest: quiet_trans split: if_splits)
qed

lemma IsDirectBlocked_quiet: "quiet p (snd (IsDirectBlocked S p))"
  by (simp add: IsDirectBlocked_def Let_def quiet_def remove_file_def traffic_def)

section \<open>An answered request is processed\<close>

text \<open>The server answers every request with this document and status 200.\<close>

definition always_answers :: "'e sys \<Rightarrow> string \<Rightarrow> string \<Rightarrow> bool" where
  "always_answers S body header \<longleftrightarrow> (\<forall>e. curl_init S e \<and> (\<forall>n. alloc_ok S e n) \<and>
     (\<forall>u h t. snd (xconf_download S e u h t) = (0, 200, body, header)))"

text \<open>A property of the outside that downloads and pauses keep, and a process between two rounds,
  optionally with an empty configuration map.\<close>

definition keeps_outside :: "'e sys \<Rightarrow> ('e \<Rightarrow> bool) \<Rightarrow> bool" where
  "keeps_outside S P \<longleftrightarrow> (\<forall>e u h t. P e \<longrightarrow> P (fst (xconf_download S e u h t))) \<and>
     (\<forall>n e f. P e \<longrightarrow> P (fst (sleep_step S n e f)))"

definition between_rounds :: "bool \<Rightarrow> ('e \<Rightarrow> bool) \<Rightarrow> 'e proc \<Rightarrow> bool" where
  "between_rounds fresh P p \<longleftrightarrow> P (env p) \<and> (fresh \<longrightarrow> RFCKeyAndValueMap p = [])"

lemma rbus_read_same:
  "uses_rbus (plat S) \<Longrightarrow> read_RFCProperty S t k b n w = Inr (i, buf, w') \<Longrightarrow> w' = w"
  by (auto simp: read_RFCProperty_def split: option.splits rbus_value.splits if_splits)

lemma GetStoredHash_files:
  assumes "uses_rbus (plat S)" "GetStoredHashAndTime S p = Inr (ht, q)"
  shows "files q = files p \<and> env q = env p"
proof -
  have sel: "isXconfSelectorSlotProd S p = Inr (b, q) \<Longrightarrow> files q = files p \<and> env q = env p" for p q b
    by (auto simp: isXconfSelectorSlotProd_def dest!: rbus_read_same [OF assms(1)])
  have ret: "RetrieveHashAndTimeFromPreviousDataSet S p = Inr (ht, q) \<Longrightarrow> files q = files p \<and> env q = env p" for p q ht
    using assms(1) by (auto simp: RetrieveHashAndTimeFromPreviousDataSet_def Let_def)
  show ?thesis
    using assms(2) unfolding GetStoredHashAndTime_def rbind_eq_Inr
    by (elim exE conjE) (auto simp: rbind_eq_Inr split: if_splits dest!: sel ret)
qed

lemma env_fold_remove [simp]: "env (fold remove_file ds w) = env w"
  by (induction ds arbitrary: w) simp_all

lemma cleanAllFile_env [simp]: "env (cleanAllFile S w) = env w"
  by (simp add: cleanAllFile_def Let_def)

lemma GetStoredHash_total:
  assumes "uses_rbus (plat S)"
  shows "\<exists>h t q. GetStoredHashAndTime S p = Inr ((h, t), q)"
proof -
  have sel: "\<exists>b q. isXconfSelectorSlotProd S p = Inr (b, q)" for p
    using rbus_read_total [OF assms, of "''XconfSelector''" XCONF_SELECTOR_KEY_STR "[]" 1024 p]
    by (auto simp: isXconfSelectorSlotProd_def)
  have ret: "\<exists>h t q. RetrieveHashAndTimeFromPreviousDataSet S p = Inr ((h, t), q)" for p
    using assms by (auto simp: RetrieveHashAndTimeFromPreviousDataSet_def Let_def)
  obtain b q where s: "isXconfSelectorSlotProd S p = Inr (b, q)" using sel by blast
  obtain h1 t1 q1 h2 t2 q2 where r: "RetrieveHashAndTimeFromPreviousDataSet S p = Inr ((h1, t1), q1)"
      "RetrieveHashAndTimeFromPreviousDataSet S q = Inr ((h2, t2), q2)" using ret by metis
  show ?thesis by (simp add: GetStoredHashAndTime_def s r) (blast intro: exI [of _ True])
qed

text \<open>How many more rounds a phase can take.\<close>

fun rank :: "RfcState \<times> bool \<Rightarrow> nat" where
  "rank (st, first) = (if first then 3 else case st of Redo_With_Valid_Data \<Rightarrow> 3 | Init \<Rightarrow> 2 | _ \<Rightarrow> 1)"

definition again_state :: "RfcState \<Rightarrow> RfcState" where
  "again_state st = (if st = Redo_With_Valid_Data then Init else st)"

lemma pre_step_rank:
  "pre_step (st, b) (st', b') \<Longrightarrow> st' = Redo \<or> st' = Redo_With_Valid_Data \<Longrightarrow>
     rank (again_state st', b') < rank (st, b)"
  by (erule pre_step.cases) (auto simp: again_state_def split: RfcState.splits)

lemma PreProcess_map:
  "PreProcessJsonResponse S body p = Inr (u, q) \<Longrightarrow> RFCKeyAndValueMap p = [] \<Longrightarrow> RFCKeyAndValueMap q = []"
  unfolding PreProcessJsonResponse_def by (auto split: if_splits option.splits)

lemma rbind_stop: "rbind (rbind m (\<lambda>(r, p). Inr (Stop r, p))) (\<lambda>(r, p1). case r of Stop res \<Rightarrow> Inr (res, p1) | Again \<Rightarrow> f p1) = m"
  by (cases m) (auto split: prod.splits)

text \<open>
  The contract of the steps of a round: an invariant \<open>inv\<close> under which the stored hash and time can be
  read, and which every step keeps.  With a server that answers every request with a usable document
  the loop then reaches the pass that processes it, in a state that satisfies the invariant.
\<close>

locale answered_run =
  fixes ok :: "'e sys \<Rightarrow> string \<Rightarrow> bool"
    and inv :: "'e sys \<Rightarrow> 'e proc \<Rightarrow> bool"
  assumes hash: "ok S body \<Longrightarrow> inv S p \<Longrightarrow> \<exists>h t q. GetStoredHashAndTime S p = Inr ((h, t), q) \<and> inv S q"
    and request: "ok S body \<Longrightarrow> inv S p \<Longrightarrow> inv S (snd (ExecuteRequest S url h t p))"
    and conclude: "ok S body \<Longrightarrow> inv S p \<Longrightarrow> inv S (snd (conclude_download S (0, 200, body, header) p))"
    and choose: "ok S body \<Longrightarrow> inv S p \<Longrightarrow> inv S (choose_url S u p)"
    and pre: "ok S body \<Longrightarrow> good_body S body \<Longrightarrow> inv S p \<Longrightarrow> PreProcessJsonResponse S body p = Inr ((), q) \<Longrightarrow> inv S q"
    and phase: "inv S (p\<lparr>rfc_state := st\<rparr>) = inv S p"
    and pause: "ok S body \<Longrightarrow> inv S p \<Longrightarrow> inv S (do_sleep S n p)"
begin

lemma download:
  assumes "ok S body" "always_answers S body header" "inv S p"
  shows "\<exists>q. DownloadRuntimeFeatutres S True url p = Inr ((SUCCESS, body, header), q) \<and> ctl q = ctl p \<and> inv S q"
proof -
  obtain h t p1 where g: "GetStoredHashAndTime S p = Inr ((h, t), p1)" "inv S p1" using hash [OF assms(1,3)] by blast
  obtain p2 where x: "ExecuteRequest S (buf_copy URL_BUF url) (hash_header h) (time_header t) p1 =
      ((0, 200, body, header), p2)"
    using assms(2) by (simp add: ExecuteRequest_def always_answers_def case_prod_beta)
  have "inv S p2" using request [OF assms(1) g(2)] x by (metis snd_conv)
  then have i: "inv S (snd (conclude_download S (0, 200, body, header) p2))" by (rule conclude [OF assms(1)])
  have "fst (conclude_download S (0, 200, body, header) p2) = (SUCCESS, body, header)"
    by (simp add: conclude_download_def classify_response_def Let_def curl_cert_errors_def)
  then have "DownloadRuntimeFeatutres S True url p =
      Inr ((SUCCESS, body, header), snd (conclude_download S (0, 200, body, header) p2))"
    using assms(2) g(1) x by (simp add: DownloadRuntimeFeatutres_def always_answers_def) (metis prod.collapse)
  with i Download_frame show ?thesis by blast
qed

lemma round:
  assumes "ok S body" "always_answers S body header" "good_body S body" "inv S p"
  shows "(\<exists>q. request_round S u p = rbind (finish_pass S body header q) (\<lambda>(r, p3). Inr (Stop r, p3)) \<and> inv S q) \<or>
     (\<exists>q. request_round S u p = Inr (Again, q) \<and> inv S q \<and>
        rank (rfc_state q, is_first_request q) < rank (rfc_state p, is_first_request p))"
proof -
  let ?c = "choose_url S u p"
  have c: "rfc_state ?c = rfc_state p" "is_first_request ?c = is_first_request p"
    by (simp_all add: choose_url_def Let_def NotifyTelemetry2Value_def emit_def)
  obtain p1 where d: "DownloadRuntimeFeatutres S True (CreateXconfHTTPUrl S ?c) ?c = Inr ((SUCCESS, body, header), p1)"
      "ctl p1 = ctl ?c" "inv S p1" using download [OF assms(1,2) choose [OF assms(1,4)]] by blast
  obtain p2 where p2: "PreProcessJsonResponse S body p1 = Inr ((), p2)"
      "pre_step (rfc_state p1, is_first_request p1) (rfc_state p2, is_first_request p2)"
    using PreProcess_step [OF assms(3)] by blast
  have i: "inv S p2" by (rule pre [OF assms(1,3) d(3) p2(1)])
  have al: "alloc_ok S (env ?c) n" for n using assms(2) by (simp add: always_answers_def)
  have rr: "request_round S u p =
      (if rfc_state p2 = Redo then Inr (Again, p2)
       else if rfc_state p2 = Redo_With_Valid_Data then Inr (Again, p2\<lparr>rfc_state := Init\<rparr>)
       else rbind (finish_pass S body header p2) (\<lambda>(r, p3). Inr (Stop r, p3)))"
    by (simp add: request_round_def Let_def al d p2)
  have "rfc_state p1 = rfc_state p" "is_first_request p1 = is_first_request p"
    using d(2) c by (simp_all add: ctl_def)
  with pre_step_rank [OF p2(2)] rr i show ?thesis by (cases "rfc_state p2") (auto simp: again_state_def phase)
qed

lemma loop:
  assumes "ok S body" "always_answers S body header" "good_body S body" "inv S p"
    "rank (rfc_state p, is_first_request p) + n \<le> RETRY_COUNT"
  shows "\<exists>q. request_loop S u n p = finish_pass S body header q \<and> inv S q"
  using assms(4,5)
proof (induction "RETRY_COUNT - n" arbitrary: n p)
  case 0
  then show ?case by (simp split: if_splits RfcState.splits)
next
  case (Suc m)
  then have n: "n < RETRY_COUNT" by simp
  from round [OF assms(1-3) Suc.prems(1), of u] show ?case
  proof (elim disjE exE conjE)
    fix q
    assume "request_round S u p = rbind (finish_pass S body header q) (\<lambda>(r, p3). Inr (Stop r, p3))" "inv S q"
    with n show ?thesis by (subst request_loop.simps) (auto simp: rbind_stop)
  next
    fix q
    assume a: "request_round S u p = Inr (Again, q)" "inv S q"
      "rank (rfc_state q, is_first_request q) < rank (rfc_state p, is_first_request p)"
    let ?q = "do_sleep S (retry_delay S (Suc n)) q"
    have "ctl ?q = ctl q" by simp
    then have "rfc_state ?q = rfc_state q" "is_first_request ?q = is_first_request q" by (simp_all add: ctl_def)
    with a(3) Suc.prems(2) have "rank (rfc_state ?q, is_first_request ?q) + Suc n \<le> RETRY_COUNT" by simp
    from Suc.hyps(2) have "m = RETRY_COUNT - Suc n" by simp
    from Suc.hyps(1) [OF this pause [OF assms(1) a(2)] \<open>rank _ + Suc n \<le> RETRY_COUNT\<close>] obtain q' where
        "request_loop S u (Suc n) ?q = finish_pass S body header q'" "inv S q'" by blast
    moreover have "request_loop S u n p = request_loop S u (Suc n) ?q" using n a by (simp add: request_loop.simps [of S u n p])
    ultimately show ?thesis by auto
  qed
qed

end

text \<open>Over rbus nothing but downloads and pauses touches the outside.\<close>

interpretation bus_run: answered_run "\<lambda>S body. uses_rbus (plat S) \<and> keeps_outside S P" "\<lambda>S. between_rounds fresh P"
  for fresh and P :: "'e \<Rightarrow> bool"
proof (unfold_locales, goal_cases)
  case (1 S body p)
  then have b: "uses_rbus (plat S)" by blast
  obtain h t q where g: "GetStoredHashAndTime S p = Inr ((h, t), q)" using GetStoredHash_total [OF b] by blast
  then have "between_rounds fresh P q" using GetStoredHash_files [OF b g] GetStoredHash_frame [OF g] 1(2)
    by (simp add: between_rounds_def ctl_def)
  with g show ?case by blast
next
  case (2 S body p url h t)
  then show ?case by (auto simp: ExecuteRequest_def between_rounds_def keeps_outside_def case_prod_beta emit_def)
next
  case (3 S body p header)
  have "env (snd (conclude_download S (0, 200, body, header) p)) = env p"
    by (simp add: conclude_download_def classify_response_def Let_def curl_cert_errors_def)
  moreover have "ctl (snd (conclude_download S (0, 200, body, header) p)) = ctl p"
    by (simp add: conclude_download_def classify_response_def Let_def curl_cert_errors_def ctl_def [of "_\<lparr>url_validation_in_progress := _\<rparr>"])
  ultimately show ?case using 3(2) by (simp add: between_rounds_def ctl_def)
next
  case (4 S body p u)
  then show ?case by (simp add: choose_url_def Let_def NotifyTelemetry2Value_def emit_def between_rounds_def)
next
  case (5 S body p q)
  then have "env q = env p" using PreProcess_step [OF 5(2), of p] by auto
  with PreProcess_map [OF 5(4)] 5(3) show ?case by (simp add: between_rounds_def)
next
  case (6 S p st)
  show ?case by (simp add: between_rounds_def)
next
  case (7 S body p n)
  have "ctl (do_sleep S n p) = ctl p" by simp
  with 7 show ?case by (simp add: between_rounds_def keeps_outside_def ctl_def)
qed

section \<open>Nothing new\<close>

definition always_unmodified :: "'e sys \<Rightarrow> bool" where
  "always_unmodified S \<longleftrightarrow> (\<forall>e. curl_init S e \<and> (\<forall>n. alloc_ok S e n) \<and>
     (\<forall>u h t. \<exists>c b hd. snd (xconf_download S e u h t) = (c, 304, b, hd)))"

lemma Download_unmodified:
  assumes "GetStoredHashAndTime S p = Inr ((h, t), p1)" "files p1 = files p" "always_unmodified S" "\<not> url_validation_in_progress p"
  shows "\<exists>b hd q. DownloadRuntimeFeatutres S True url p = Inr ((NO_RFC_UPDATE_REQUIRED, b, hd), q) \<and> files q = files p"
proof -
  have v1: "\<not> url_validation_in_progress p1" using GetStoredHash_frame [OF assms(1)] assms(4) by simp
  obtain c b hd p2 where x: "ExecuteRequest S (buf_copy URL_BUF url) (hash_header h) (time_header t) p1 =
      ((c, 304, b, hd), p2)"
    using assms(3) by (simp add: ExecuteRequest_def always_unmodified_def case_prod_beta) (metis prod.collapse)
  have v: "\<not> url_validation_in_progress p2" "files p2 = files p"
    using ExecuteRequest_frame [OF x] v1 assms(2) by simp_all
  have al: "alloc_ok S (env p) 1" using assms(3) by (simp add: always_unmodified_def)
  then show ?thesis
    by (auto simp: DownloadRuntimeFeatutres_def conclude_download_def assms(1) x v Let_def classify_response_def)
qed

lemma request_loop_unmodified:
  assumes "GetStoredHashAndTime S (choose_url S u p) = Inr ((h, t), p1)" "files p1 = files p"
    "always_unmodified S" "\<not> url_validation_in_progress p"
  shows "\<exists>q. request_loop S u 0 p = Inr (SUCCESS, q) \<and> files q = files p"
proof -
  let ?c = "choose_url S u p"
  have c: "\<not> url_validation_in_progress ?c" "files ?c = files p"
    using assms(4) by (simp_all add: choose_url_def Let_def NotifyTelemetry2Value_def emit_def)
  from Download_unmodified [OF assms(1) _ assms(3) c(1), of "CreateXconfHTTPUrl S ?c"] obtain b hd q where
    d: "DownloadRuntimeFeatutres S True (CreateXconfHTTPUrl S ?c) ?c = Inr ((NO_RFC_UPDATE_REQUIRED, b, hd), q)"
       "files q = files p" using c(2) assms(2) by auto
  have al: "alloc_ok S (env ?c) n" for n using assms(3) by (simp add: always_unmodified_def)
  show ?thesis
    by (subst request_loop.simps) (simp add: request_round_def Let_def al d RETRY_COUNT_def)
qed

text \<open>Over rbus the stored hash and time are files.\<close>

lemma bus_hash:
  "uses_rbus (plat S) \<Longrightarrow> \<exists>h t q. GetStoredHashAndTime S p = Inr ((h, t), q) \<and> files q = files p"
  using GetStoredHash_total [of S p] GetStoredHash_files [of S p] by blast

lemma bus_loop_unmodified:
  assumes "uses_rbus (plat S)" "always_unmodified S" "\<not> url_validation_in_progress p"
  shows "\<exists>q. request_loop S u 0 p = Inr (SUCCESS, q) \<and> files q = files p"
proof -
  have "files (choose_url S u p) = files p" by (simp add: choose_url_def Let_def NotifyTelemetry2Value_def emit_def)
  with bus_hash [OF assms(1), of "choose_url S u p"] request_loop_unmodified [OF _ _ assms(2,3)] show ?thesis by metis
qed

lemma ProcessReq_adds:
  assumes "ProcessRuntimeFeatureControlReq S p = Inr (r, q)" "map_wf (RFCKeyAndValueMap p)"
  shows "adds_requests (RETRY_COUNT + 2) p q"
proof -
  define p1 where "p1 = p\<lparr>rfcSelectOpt := (if rfc_state p = Local then ''local'' else ''prod'')\<rparr>"
  let ?p2 = "snd (IsDirectBlocked S p1)"
  from assms(1) obtain u p3 where s: "isSecureDbgSrvUnlocked S ?p2 = Inr (u, p3)"
      "if fst (IsDirectBlocked S p1) then q = p3 else request_loop S u 0 p3 = Inr (r, q)"
    by (auto simp: ProcessRuntimeFeatureControlReq_def p1_def Let_def case_prod_beta split: if_splits)
  have "quiet p p1" by (simp add: quiet_def p1_def)
  with IsDirectBlocked_quiet [of p1 S] unlock_quiet [OF s(1)] have "quiet p p3" by (blast intro: quiet_trans)
  then have q3: "traffic p3 = traffic p" "map_wf (RFCKeyAndValueMap p3)" using assms(2) by (simp_all add: quiet_def)
  show ?thesis
  proof (cases "fst (IsDirectBlocked S p1)")
    case True
    with s(2) q3 show ?thesis by (simp add: adds_requests_def)
  next
    case False
    with request_loop_adds [of S u 0 p3 r q] s(2) q3 show ?thesis by (auto simp: adds_requests_def)
  qed
qed

section \<open>Properties\<close>

text \<open>C27: while the direct block is in force a run fails without making a request.\<close>

theorem blocked_makes_no_request:
  assumes "ProcessRuntimeFeatureControlReq S p = Inr (r, q)" "fst (IsDirectBlocked S p)"
  shows "r = FAILURE \<and> traffic q = traffic p"
proof -
  define p1 where "p1 = p\<lparr>rfcSelectOpt := (if rfc_state p = Local then ''local'' else ''prod'')\<rparr>"
  have b: "fst (IsDirectBlocked S p1)"
    using assms(2) by (auto simp: p1_def IsDirectBlocked_def file_present_def Let_def split: if_splits)
  with assms(1) obtain u where s: "isSecureDbgSrvUnlocked S (snd (IsDirectBlocked S p1)) = Inr (u, q)" "r = FAILURE"
    by (auto simp: ProcessRuntimeFeatureControlReq_def p1_def Let_def case_prod_beta)
  have "quiet p p1" by (simp add: quiet_def p1_def)
  with IsDirectBlocked_quiet [of p1 S] unlock_quiet [OF s(1)] have "quiet p q" by (blast intro: quiet_trans)
  with s(2) show ?thesis by (simp add: quiet_def)
qed

section \<open>A server with one answer\<close>

definition server :: "int \<Rightarrow> refenv sys" where
  "server code = (ref_parsing RDKB)\<lparr>xconf_download := (\<lambda>e u h t. (e, 0, code, [], []))\<rparr>"

lemma server_fields [simp]:
  "plat (server c) = RDKB" "curl_init (server c) e" "alloc_ok (server c) e n"
  "xconf_download (server c) e u h t = (e, 0, c, [], [])" "cJSON_Parse (server c) b = Some answer_doc"
  "cJSON_GetObjectItem (server c) = ref_json_item" "cJSON_GetArraySize (server c) = ref_array_size"
  "cJSON_GetArrayItem (server c) = ref_array_item"
  by (simp_all add: server_def ref_sys_def)

lemma server_unmodified: "always_unmodified (server 304)"
  by (simp add: always_unmodified_def)

lemma server_answers: "always_answers (server 200) [] []"
  by (simp add: always_answers_def)

lemma server_item: "ref_json_item (JObject [(k, v)]) k = Some v"
  by (simp add: ref_json_item_def)

lemma server_arrays [simp]: "cjson_arrays (server c)"
  by (simp add: cjson_arrays_def ref_array_size_def ref_array_item_def)

lemma server_good: "good_body (server 200) []"
proof -
  have "feature_array (server 200) answer_doc = Some two_features"
    by (simp add: feature_array_def GetJsonItem_def answer_doc_def server_item IsJsonArray_def
        two_features_def)
  moreover have "\<exists>me'. add_features (server 200) (feature_list (server 200) two_features) me = Inr me'" for me
    by (cases me) (simp add: two_features_def feature_list_array GetJsonItem_def server_item)
  ultimately show ?thesis unfolding good_body_def by auto
qed

text \<open>A camera that is blocked.\<close>

definition blocked_proc :: "refenv proc" where
  "blocked_proc = (ref_proc ref_env0 [DIRECT_BLOCK_FILENAME \<mapsto> []] Init)\<lparr>ebuild_type := eDEV\<rparr>"

theorem blocked_makes_no_request_witness:
  "\<exists>q. ProcessRuntimeFeatureControlReq ref_cam blocked_proc = Inr (FAILURE, q) \<and> traffic q = traffic blocked_proc"
proof -
  have b: "fst (IsDirectBlocked ref_cam blocked_proc)"
    by (simp add: IsDirectBlocked_def file_present_def blocked_proc_def ref_proc_def ref_sys_def ref_env0_def)
  obtain q where q: "ProcessRuntimeFeatureControlReq ref_cam blocked_proc = Inr (FAILURE, q)"
    by (simp add: ProcessRuntimeFeatureControlReq_def IsDirectBlocked_def isSecureDbgSrvUnlocked_def blocked_proc_def
        ref_proc_def file_present_def ref_sys_def ref_env0_def)
  from blocked_makes_no_request [OF q b] q show ?thesis by blast
qed

end
