(* ===== verification/Poll_Loop.thy ===== *)
theory Poll_Loop
  imports Rfc_World
begin

text \<open>
  The contract of a polling loop: a condition is tested, and while it does not hold the process
  sleeps, for a fixed number of tests.  A component that polls proves the two unfolding laws for its
  loop and obtains from the locale which test decides, how long the loop sleeps, and when it
  succeeds.
\<close>

locale poll =
  fixes ready :: "'w \<Rightarrow> bool"
    and pause :: "'w \<Rightarrow> 'w"
    and run :: "nat \<Rightarrow> 'w \<Rightarrow> bool \<times> 'w"
  assumes run_0: "run 0 w = (False, w)"
    and run_Suc: "run (Suc n) w = (if ready w then (True, w) else run n (pause w))"
begin

lemma run_stops:
  "\<exists>k\<le>n. run n w = (k < n, (pause ^^ k) w) \<and> (\<forall>j<k. \<not> ready ((pause ^^ j) w)) \<and>
     (k < n \<longrightarrow> ready ((pause ^^ k) w))"
proof (induction n arbitrary: w)
  case 0
  show ?case by (simp add: run_0)
next
  case (Suc n)
  show ?case
  proof (cases "ready w")
    case True
    then show ?thesis by (intro exI [of _ 0]) (simp add: run_Suc)
  next
    case False
    from Suc.IH [of "pause w"] obtain k where k: "k \<le> n" "run n (pause w) = (k < n, (pause ^^ k) (pause w))"
        "\<forall>j<k. \<not> ready ((pause ^^ j) (pause w))" "k < n \<longrightarrow> ready ((pause ^^ k) (pause w))" by blast
    have "\<forall>j<Suc k. \<not> ready ((pause ^^ j) w)"
    proof (intro allI impI)
      fix j assume "j < Suc k"
      then show "\<not> ready ((pause ^^ j) w)"
        using False k(3) by (cases j) (auto simp: funpow_Suc_right simp del: funpow.simps(2))
    qed
    with k False show ?thesis
      by (intro exI [of _ "Suc k"]) (auto simp: run_Suc funpow_Suc_right simp del: funpow.simps(2))
  qed
qed

lemma run_succeeds_iff: "fst (run n w) \<longleftrightarrow> (\<exists>k<n. ready ((pause ^^ k) w))"
proof -
  obtain k where "k \<le> n" "run n w = (k < n, (pause ^^ k) w)" "\<forall>j<k. \<not> ready ((pause ^^ j) w)"
      "k < n \<longrightarrow> ready ((pause ^^ k) w)" using run_stops by blast
  then show ?thesis using less_le_trans by (cases "k < n") fastforce+
qed

end

lemma sleep_pow_log: "log ((do_sleep S d ^^ k) w) = log w @ replicate k (SleepSec d)"
  by (induction k) (simp_all add: replicate_append_same)

lemma sleep_pow_more: "world.more ((do_sleep S d ^^ k) w) = world.more w"
  by (induction k) simp_all

end
