(* ===== verification/Rfc_Connectivity.thy ===== *)
theory Rfc_Connectivity
  imports Rfc_Processor Poll_Loop "HOL-Library.Word"
begin

text \<open>
  Is the device online?  Each platform asks differently (rfc_manager.cpp): a set-top box waits for the
  route flag and looks for a name server, a camera polls its interfaces for a routable address, a
  gateway asks its data model.  Shown here: which of the bounded number of tests decides, how the
  route check treats the last test, and that the bit tests on addresses are the documented ranges.
\<close>

unbundle bit_operations_syntax

section \<open>The system below the manager\<close>

text \<open>
  \<open>getifaddrs\<close> yields the interface addresses (\<open>None\<close>: the call fails); an interface may have none
  or one of another family.  \<open>sed_edit\<close> is what the sed command leaves of the crontab copy,
  \<open>crontab_install\<close> hands a file to crontab, \<open>flock_busy\<close> says that another process holds the lock.
\<close>

datatype if_address = IfInet "32 word" | IfInet6 "128 word" | IfOther | IfNone

datatype mkdir_result = MkdirOk | MkdirIsDir | MkdirFailed

record 'e os =
  getifaddrs :: "'e \<Rightarrow> if_address list option"
  mkdir :: "'e \<Rightarrow> string \<Rightarrow> mkdir_result"
  flock_busy :: "'e \<Rightarrow> bool"
  sed_edit :: "string \<Rightarrow> string"
  crontab_install :: "'e \<Rightarrow> string \<Rightarrow> 'e \<times> int"

section \<open>Connectivity\<close>

definition IP_ROUTE_FLAG :: string where
  [path_defs]: "IP_ROUTE_FLAG = ''/tmp/route_available''"
definition DNS_RESOLV_FILE :: string where
  [path_defs]: "DNS_RESOLV_FILE = ''/etc/resolv.dnsmasq''"

definition first_chunk :: "'e sys \<Rightarrow> string \<Rightarrow> ('e, 'z) world_scheme \<Rightarrow> string" where
  "first_chunk S cmd w = (case popen_out S (env w) cmd of
       None \<Rightarrow> []
     | Some out \<Rightarrow> (let r = cstr (fst (fgets 128 out)) in if r \<noteq> [] \<and> last r = NL then butlast r else r))"

definition getErouterIPAddress :: "'e sys \<Rightarrow> ('e, 'z) world_scheme \<Rightarrow> string" where
  "getErouterIPAddress S w =
     (let a = first_chunk S ''dmcli eRT retv Device.DeviceInfo.X_COMCAST-COM_WAN_IPv6'' w in
      if a = [] then first_chunk S ''dmcli eRT retv Device.DeviceInfo.X_COMCAST-COM_WAN_IP'' w else a)"

definition CheckIPConnectivity :: "'e sys \<Rightarrow> ('e, 'z) world_scheme \<Rightarrow> bool" where
  "CheckIPConnectivity S w \<longleftrightarrow> getErouterIPAddress S w \<noteq> []"

text \<open>The wait for the route flag; the counter after the loop is -1 when the flag never came.\<close>

fun route_wait :: "'e sys \<Rightarrow> nat \<Rightarrow> ('e, 'z) world_scheme \<Rightarrow> int \<times> ('e, 'z) world_scheme" where
  "route_wait S 0 w = (-1, w)"
| "route_wait S (Suc n) w =
     (if file_present IP_ROUTE_FLAG w then (int n, w) else route_wait S n (do_sleep S 15 w))"

text \<open>Without a file name (a null pointer) the check fails at once.  What is read from the named file is only
  logged: neither a missing file nor one without an address changes the result.\<close>

definition GATEWAYIP_FILE :: string where
  [path_defs]: "GATEWAYIP_FILE = ''/tmp/.GatewayIP_dfltroute''"

definition CheckIProuteConnectivity ::
    "'e sys \<Rightarrow> string option \<Rightarrow> ('e, 'z) world_scheme \<Rightarrow> bool \<times> ('e, 'z) world_scheme" where
  "CheckIProuteConnectivity S file_name w = (case file_name of None \<Rightarrow> (False, w)
     | Some f \<Rightarrow>
        let (IpRouteCnt, w1) = route_wait S 5 w in
        if IpRouteCnt = 0 \<and> file_present IP_ROUTE_FLAG w1 then (False, w1) else (True, w1))"

fun dns_scan :: "string list \<Rightarrow> bool" where
  "dns_scan [] = False"
| "dns_scan (l # ls) = (case str_find l ''nameserver'' of
       None \<Rightarrow> dns_scan ls
     | Some i \<Rightarrow> (case drop (i + 10) l of [] \<Rightarrow> False | c # _ \<Rightarrow> c \<noteq> NL))"

definition isDnsResolve :: "string \<Rightarrow> ('e, 'z) world_scheme \<Rightarrow> bool" where
  "isDnsResolve f w = (case files w f of None \<Rightarrow> False | Some c \<Rightarrow> dns_scan (map cstr (fgets_all 80 c)))"

text \<open>Not loopback and not link-local; the IPv6 tests are those of the standard macros.\<close>

fun routable :: "if_address \<Rightarrow> bool" where
  "routable (IfInet ip) \<longleftrightarrow> drop_bit 24 ip \<noteq> 127 \<and> drop_bit 16 ip \<noteq> 0xA9FE"
| "routable (IfInet6 ip) \<longleftrightarrow> ip \<noteq> 1 \<and> drop_bit 118 ip \<noteq> 0x3FA"
| "routable _ \<longleftrightarrow> False"

definition has_address :: "'e os \<Rightarrow> 'e \<Rightarrow> bool" where
  "has_address N e = (case getifaddrs N e of None \<Rightarrow> False | Some ifs \<Rightarrow> list_ex routable ifs)"

fun ip_poll :: "'e sys \<Rightarrow> 'e os \<Rightarrow> nat \<Rightarrow> ('e, 'z) world_scheme \<Rightarrow> bool \<times> ('e, 'z) world_scheme" where
  "ip_poll S N 0 w = (False, w)"
| "ip_poll S N (Suc n) w = (if has_address N (env w) then (True, w) else ip_poll S N n (do_sleep S 10 w))"

definition WaitForIpAcquisition :: "'e sys \<Rightarrow> 'e os \<Rightarrow> ('e, 'z) world_scheme \<Rightarrow> bool \<times> ('e, 'z) world_scheme" where
  "WaitForIpAcquisition S N w = ip_poll S N 30 w"

datatype DeviceStatus = RFCMGR_DEVICE_ONLINE | RFCMGR_DEVICE_OFFLINE

abbreviation "MAINT_RFC_COMPLETE \<equiv> (2 :: int)"
abbreviation "MAINT_RFC_ERROR \<equiv> (3 :: int)"
abbreviation "MAINT_CRITICAL_UPDATE \<equiv> (11 :: int)"
abbreviation "MAINT_REBOOT_REQUIRED \<equiv> (12 :: int)"
abbreviation "MAINT_RFC_INPROGRESS \<equiv> (14 :: int)"

text \<open>The builds modelled are those with \<open>EN_MAINTENANCE_MANAGER\<close>; without it the function does nothing.\<close>

definition SendEventToMaintenanceManager :: "int \<Rightarrow> ('e, 'z) world_scheme \<Rightarrow> ('e, 'z) world_scheme" where
  "SendEventToMaintenanceManager ev w = emit (MaintEvent ev) w"

definition CheckDeviceIsOnline ::
    "'e sys \<Rightarrow> 'e os \<Rightarrow> ('e, 'z) world_scheme \<Rightarrow> DeviceStatus \<times> ('e, 'z) world_scheme" where
  "CheckDeviceIsOnline S N w =
     (if plat S = RDKC then
        (let (ok, w1) = WaitForIpAcquisition S N w in
         (if ok then RFCMGR_DEVICE_ONLINE else RFCMGR_DEVICE_OFFLINE, w1))
      else if plat S = STB then
        (let (ok, w1) = CheckIProuteConnectivity S (Some GATEWAYIP_FILE) w in
         if ok then (if isDnsResolve DNS_RESOLV_FILE w1 then RFCMGR_DEVICE_ONLINE else RFCMGR_DEVICE_OFFLINE, w1)
         else (RFCMGR_DEVICE_OFFLINE, SendEventToMaintenanceManager MAINT_RFC_ERROR w1))
      else (if CheckIPConnectivity S w then RFCMGR_DEVICE_ONLINE else RFCMGR_DEVICE_OFFLINE, w))"

section \<open>Polling\<close>

interpretation ip: poll "\<lambda>w. has_address N (env w)" "do_sleep S 10" "ip_poll S N"
  for S :: "'e sys" and N :: "'e os"
  by unfold_locales simp_all

interpretation route: poll "file_present IP_ROUTE_FLAG" "do_sleep S 15"
    "\<lambda>n w. (fst (route_wait S n w) \<noteq> -1, snd (route_wait S n w))"
  for S :: "'e sys"
  by unfold_locales simp_all

text \<open>The counter tells which test found the flag.\<close>

lemma route_wait_count:
  "route_wait S n w = (c, w') \<Longrightarrow> c = -1 \<or> (\<exists>k. Suc k \<le> n \<and> c = int (n - Suc k) \<and> w' = (do_sleep S 15 ^^ k) w \<and>
     (\<forall>j<k. \<not> file_present IP_ROUTE_FLAG ((do_sleep S 15 ^^ j) w)) \<and> file_present IP_ROUTE_FLAG w')"
proof (induction n arbitrary: w)
  case (Suc n)
  show ?case
  proof (cases "file_present IP_ROUTE_FLAG w")
    case True
    with Suc.prems show ?thesis by (intro disjI2 exI [of _ 0]) auto
  next
    case False
    let ?w = "do_sleep S 15 w"
    from False Suc have "c = -1 \<or> (\<exists>k. Suc k \<le> n \<and> c = int (n - Suc k) \<and> w' = (do_sleep S 15 ^^ k) ?w \<and>
       (\<forall>j<k. \<not> file_present IP_ROUTE_FLAG ((do_sleep S 15 ^^ j) ?w)) \<and> file_present IP_ROUTE_FLAG w')" by simp
    then show ?thesis
    proof
      assume "\<exists>k. Suc k \<le> n \<and> c = int (n - Suc k) \<and> w' = (do_sleep S 15 ^^ k) ?w \<and>
       (\<forall>j<k. \<not> file_present IP_ROUTE_FLAG ((do_sleep S 15 ^^ j) ?w)) \<and> file_present IP_ROUTE_FLAG w'"
      then obtain k where k: "Suc k \<le> n" "c = int (n - Suc k)" "w' = (do_sleep S 15 ^^ k) ?w"
       "\<forall>j<k. \<not> file_present IP_ROUTE_FLAG ((do_sleep S 15 ^^ j) ?w)" "file_present IP_ROUTE_FLAG w'" by blast
      have "\<forall>j<Suc k. \<not> file_present IP_ROUTE_FLAG ((do_sleep S 15 ^^ j) w)"
        using k(4) False by (auto simp: less_Suc_eq_0_disj funpow_Suc_right simp del: funpow.simps(2))
      then show ?thesis
        using k(1,2,3,5) by (intro disjI2 exI [of _ "Suc k"]) (auto simp: funpow_Suc_right simp del: funpow.simps(2))
    qed simp
  qed
qed simp

section \<open>Properties\<close>

text \<open>C20: without a file name the route check fails and changes nothing; with one it fails exactly when the
  flag appears at the fifth and last test, so a flag that never appears passes, and the named file, missing or
  without an address, is never a reason to fail.\<close>

theorem route_check_decides:
  "CheckIProuteConnectivity S None w = (False, w) \<and>
   (\<not> fst (CheckIProuteConnectivity S (Some f) w)) = (file_present IP_ROUTE_FLAG ((do_sleep S 15 ^^ 4) w) \<and>
     \<not> (\<exists>j<4. file_present IP_ROUTE_FLAG ((do_sleep S 15 ^^ j) w)))"
proof -
  obtain c w' where r: "route_wait S 5 w = (c, w')" by (cases "route_wait S 5 w")
  have some: "c \<noteq> -1 \<longleftrightarrow> (\<exists>k<5. file_present IP_ROUTE_FLAG ((do_sleep S 15 ^^ k) w))"
    using route.run_succeeds_iff [of S 5 w] by (simp add: r)
  have res: "fst (CheckIProuteConnectivity S (Some f) w) \<longleftrightarrow> \<not> (c = 0 \<and> file_present IP_ROUTE_FLAG w')"
    and none: "CheckIProuteConnectivity S None w = (False, w)"
    by (simp_all add: CheckIProuteConnectivity_def r)
  from route_wait_count [OF r] show ?thesis
  proof
    assume "c = -1"
    with some res none show ?thesis by auto
  next
    assume "\<exists>k. Suc k \<le> 5 \<and> c = int (5 - Suc k) \<and> w' = (do_sleep S 15 ^^ k) w \<and>
      (\<forall>j<k. \<not> file_present IP_ROUTE_FLAG ((do_sleep S 15 ^^ j) w)) \<and> file_present IP_ROUTE_FLAG w'"
    then obtain k where k: "k \<le> 4" "c = int (4 - k)" "w' = (do_sleep S 15 ^^ k) w"
      "\<forall>j<k. \<not> file_present IP_ROUTE_FLAG ((do_sleep S 15 ^^ j) w)" "file_present IP_ROUTE_FLAG w'" by auto
    show ?thesis
    proof (cases "k = 4")
      case True
      with k res none show ?thesis by auto
    next
      case False
      with k(1) have "k < 4" by simp
      with k res none show ?thesis by (auto intro: exI [of _ k])
    qed
  qed
qed

text \<open>The wait for an address ends after at most thirty sleeps of ten seconds and succeeds exactly
  when one of the thirty tests finds a routable address.\<close>

lemma address_wait_bounded:
  "\<exists>k\<le>30. log (snd (WaitForIpAcquisition S N w)) = log w @ replicate k (SleepSec 10) \<and>
     fst (WaitForIpAcquisition S N w) = (\<exists>j<30. has_address N (env ((do_sleep S 10 ^^ j) w)))"
  using ip.run_stops [of 30 S N w] ip.run_succeeds_iff [of S N 30 w]
  by (auto simp: WaitForIpAcquisition_def sleep_pow_log)

text \<open>The bit tests accept exactly the IPv4 addresses outside 127.0.0.0/8 and 169.254.0.0/16 and the
  IPv6 addresses other than ::1 outside fe80::/10.\<close>

lemma routable_ranges:
  "routable (IfInet ip) = (uint ip div 2 ^ 24 \<noteq> 127 \<and> uint ip div 2 ^ 16 \<noteq> 169 * 256 + 254) \<and>
   routable (IfInet6 ip6) = (uint ip6 \<noteq> 1 \<and> uint ip6 div 2 ^ 118 \<noteq> 0xFE80 div 2 ^ 6)"
  by (simp add: word_uint_eq_iff drop_bit_eq_div uint_div_distrib)

end
