(* ===== verification/Rfc_Cron.thy ===== *)
theory Rfc_Cron
  imports Rfc_Connectivity
begin

text \<open>
  The periodic run (\<open>manageCronJob\<close> of rfc_manager.cpp): the schedule from the DCM settings is moved
  three minutes back and written to the crontab in place of earlier entries.  Shown here: the new
  time of day is three minutes earlier on the clock, what happens to a schedule with a star in
  the minute field, and that the installed crontab keeps the exported lines of other programs and ends in the
  one line for the manager, on a line of its own when the export ends in a newline.
\<close>

section \<open>The cron job\<close>

definition CRON_TMP_FILE :: string where
  [path_defs]: "CRON_TMP_FILE = ''/tmp/cron_tab_tmp_file''"

definition cron_defaults :: "int list" where
  "cron_defaults = [0, 0, 1, 1, 0]"

text \<open>The numbers of the fields; \<open>None\<close> when a field is neither a number nor a star.\<close>

fun parse_fields :: "string list \<Rightarrow> int list \<Rightarrow> int list option" where
  "parse_fields (p # ps) (d # ds) =
     (if p = ''*'' then map_option ((#) d) (parse_fields ps ds)
      else case stoi p of None \<Rightarrow> None | Some i \<Rightarrow> map_option ((#) i) (parse_fields ps ds))"
| "parse_fields _ _ = Some []"

definition cron_values :: "string list \<Rightarrow> int list" where
  "cron_values parts = (case parse_fields parts cron_defaults of None \<Rightarrow> cron_defaults | Some vs \<Rightarrow> vs)"

text \<open>Three minutes back.\<close>

fun adjust_cron :: "int list \<Rightarrow> int list res" where
  "adjust_cron (m # h # vs) =
     (if 2 < m then Inr ((m - 3) # h # vs)
      else if h = 0 then Inr ((m + 57) # 23 # vs)
      else if h = - (2 ^ 31) then Inl SignedOverflow
      else Inr ((m + 57) # (h - 1) # vs))"
| "adjust_cron vs = Inr vs"

definition field_text :: "string \<Rightarrow> int \<Rightarrow> string" where
  "field_text p v = (if p = ''*'' then ''*'' else int_str v)"

definition adjusted_fields :: "string list \<Rightarrow> string list res" where
  "adjusted_fields parts =
     rbind (adjust_cron (cron_values parts)) (\<lambda>vs. Inr (map2 field_text parts vs))"

fun join_blank :: "string list \<Rightarrow> string" where
  "join_blank [] = []"
| "join_blank [x] = x"
| "join_blank (x # xs) = x @ '' '' @ join_blank xs"

definition cron_command :: "platform \<Rightarrow> string" where
  "cron_command p = (if p = RDKC then '' /usr/bin/rfcMgr''
     else '' /usr/bin/rfcMgr >> /rdklogs/logs/dcmrfc.log.0 2>&1'')"

definition SED_CMD :: string where
  "SED_CMD = ''sed -i '' @ CHR 0x27 # ''/rfcMgr/d; /RFCbase'' @ CHR 0x5C # ''.sh/d'' @ CHR 0x27 # '' '' @ CRON_TMP_FILE"

text \<open>The current crontab as it is copied: chunk by chunk, as C strings.\<close>

definition exported_crontab :: "'e sys \<Rightarrow> ('e, 'z) world_scheme \<Rightarrow> string" where
  "exported_crontab S w = (case popen_out S (env w) ''crontab -l -c /var/spool/cron/crontabs/ 2>&1'' of
       None \<Rightarrow> [] | Some out \<Rightarrow> concat (map cstr (fgets_all 1024 out)))"

definition replace_entry :: "'e sys \<Rightarrow> 'e os \<Rightarrow> string \<Rightarrow> ('e, 'z) world_scheme \<Rightarrow> ('e, 'z) world_scheme" where
  "replace_entry S N entry w =
     (let w1 = write_file S CRON_TMP_FILE (exported_crontab S w) w;
          c1 = sed_edit N (exported_crontab S w);
          w2 = write_file S CRON_TMP_FILE c1 (emit (System SED_CMD) w1);
          c2 = c1 @ entry @ [NL];
          w3 = write_file S CRON_TMP_FILE c2 w2;
          (e, _) = crontab_install N (env w3) c2;
          w4 = emit (System (''crontab '' @ CRON_TMP_FILE @ '' -c /var/spool/cron/crontabs/'')) (w3\<lparr>env := e\<rparr>)
      in remove_file CRON_TMP_FILE w4)"

definition manageCronJob ::
    "'e sys \<Rightarrow> 'e os \<Rightarrow> string \<Rightarrow> ('e, 'z) world_scheme \<Rightarrow> ('e, 'z) world_scheme res" where
  "manageCronJob S N cron w =
     (let cronParts = take 5 (ws_words cron) in
      if length cronParts < 5 then Inr w
      else rbind (adjusted_fields cronParts) (\<lambda>fs.
        if fopen_w S (env w) CRON_TMP_FILE
        then Inr (replace_entry S N (join_blank fs @ cron_command (plat S)) w) else Inr w))"

section \<open>The schedule\<close>

lemma parse_numbers:
  assumes "stoi a = Some i" "stoi b = Some j" "a \<noteq> ''*''" "b \<noteq> ''*''" "length rest = 3"
    "\<forall>p\<in>set rest. p = ''*'' \<or> stoi p \<noteq> None"
  shows "\<exists>vs. length vs = 3 \<and> cron_values (a # b # rest) = i # j # vs"
proof -
  obtain x y z where rest: "rest = [x, y, z]" using assms(5) by (auto simp: length_Suc_conv numeral_3_eq_3)
  show ?thesis
    using assms(1-4,6) by (auto simp: cron_values_def rest cron_defaults_def split: option.splits)
qed

lemma parse_star:
  assumes "stoi b = Some j" "b \<noteq> ''*''" "length rest = 3" "\<forall>p\<in>set rest. p = ''*'' \<or> stoi p \<noteq> None"
  shows "\<exists>vs. length vs = 3 \<and> cron_values (''*'' # b # rest) = 0 # j # vs"
proof -
  obtain x y z where rest: "rest = [x, y, z]" using assms(3) by (auto simp: length_Suc_conv numeral_3_eq_3)
  show ?thesis
    using assms(1,2,4) by (auto simp: cron_values_def rest cron_defaults_def split: option.splits)
qed

lemma adjusted_fields_numbers:
  assumes "cron_values (a # b # rest) = m # h # vs" "a \<noteq> ''*''" "b \<noteq> ''*''" "h \<noteq> - (2 ^ 31)"
  shows "adjusted_fields (a # b # rest) = Inr
     (int_str (if 2 < m then m - 3 else m + 57) #
      int_str (if 2 < m then h else if h = 0 then 23 else h - 1) # map2 field_text rest vs)"
  using assms(2-4) by (simp add: adjusted_fields_def assms(1) field_text_def)

lemma adjusted_fields_star:
  assumes "cron_values (''*'' # b # rest) = 0 # h # vs" "b \<noteq> ''*''" "h \<noteq> - (2 ^ 31)" "h \<noteq> 0"
  shows "adjusted_fields (''*'' # b # rest) = Inr (''*'' # int_str (h - 1) # map2 field_text rest vs)"
  using assms(2-4) by (simp add: adjusted_fields_def assms(1) field_text_def)

lemma field_text_line: "NL \<notin> set (field_text p v)"
  by (simp add: field_text_def int_str_no_NL)

lemma join_blank_line: "\<forall>x\<in>set xs. NL \<notin> set x \<Longrightarrow> NL \<notin> set (join_blank xs)"
  by (induction xs rule: join_blank.induct) auto

lemma adjusted_fields_line:
  assumes "adjusted_fields parts = Inr fs"
  shows "NL \<notin> set (join_blank fs)"
proof -
  from assms obtain vs where "fs = map2 field_text parts vs" by (auto simp: adjusted_fields_def)
  then have "\<forall>x\<in>set fs. NL \<notin> set x" by (auto simp: field_text_line)
  then show ?thesis by (rule join_blank_line)
qed

lemma replace_entry_env: "env (replace_entry S N entry w) =
    fst (crontab_install N (env w) (sed_edit N (exported_crontab S w) @ entry @ [NL]))"
  by (simp add: replace_entry_def Let_def case_prod_beta)

lemma entry_contains: "str_contains (x @ cron_command p) ''rfcMgr''"
proof -
  have "\<exists>ss. x @ cron_command p = (x @ '' /usr/bin/'') @ ''rfcMgr'' @ ss" by (simp add: cron_command_def)
  then show ?thesis unfolding str_contains_sublist sublist_def by blast
qed

text \<open>The lines the sed command is given to delete, and what it is documented to leave: the other lines, a
  newline after each, except that a last line that came without one is left without one.\<close>

definition manager_line :: "string \<Rightarrow> bool" where
  "manager_line l \<longleftrightarrow> str_contains l ''rfcMgr'' \<or> str_contains l ''RFCbase.sh''"

definition other_lines :: "string \<Rightarrow> string list" where
  "other_lines c = filter (\<lambda>l. \<not> manager_line l) (getlines c)"

definition line_complete :: "string \<Rightarrow> bool" where
  "line_complete c \<longleftrightarrow> c = [] \<or> last c = NL \<or> manager_line (last (getlines c))"

definition sed_deletes :: "'e os \<Rightarrow> bool" where
  "sed_deletes N \<longleftrightarrow> (\<forall>c. sed_edit N c =
     (if line_complete c then unlines (other_lines c) else butlast (unlines (other_lines c))))"

lemma other_lines_no_NL: "\<forall>l\<in>set (other_lines c). NL \<notin> set l"
  by (auto simp: other_lines_def getlines_no_NL)

lemma getlines_not_Nil: "c \<noteq> [] \<Longrightarrow> getlines c \<noteq> []"
  by (subst getlines.simps) (simp add: Let_def)

lemma other_lines_not_Nil: "\<not> line_complete c \<Longrightarrow> other_lines c \<noteq> []"
  using last_in_set [OF getlines_not_Nil [of c]] by (auto simp: line_complete_def other_lines_def filter_empty_conv)

lemma unlines_append: "unlines (xs @ ys) = unlines xs @ unlines ys"
  by (simp add: unlines_def)

text \<open>A line appended to what sed leaves.\<close>

lemma sed_then_entry:
  assumes "sed_deletes N" "NL \<notin> set entry"
  shows "getlines (sed_edit N c @ entry @ [NL]) = (if line_complete c then other_lines c @ [entry]
     else butlast (other_lines c) @ [last (other_lines c) @ entry])"
proof (cases "line_complete c")
  case True
  then have "sed_edit N c @ entry @ [NL] = unlines (other_lines c @ [entry])"
    using assms(1) by (simp add: sed_deletes_def unlines_append)
  with True show ?thesis using getlines_unlines [of "other_lines c @ [entry]"] other_lines_no_NL [of c] assms(2) by auto
next
  case False
  let ?ls = "other_lines c"
  have ls: "butlast ?ls @ [last ?ls] = ?ls" by (rule append_butlast_last_id [OF other_lines_not_Nil [OF False]])
  then have "unlines ?ls = unlines (butlast ?ls) @ last ?ls @ [NL]" by (metis unlines_append unlines_simps)
  then have "sed_edit N c @ entry @ [NL] = unlines (butlast ?ls @ [last ?ls @ entry])"
    using assms(1) False by (simp add: sed_deletes_def unlines_append butlast_append)
  moreover have "NL \<notin> set (last ?ls)" "\<forall>l\<in>set (butlast ?ls). NL \<notin> set l"
    using other_lines_no_NL [of c] other_lines_not_Nil [OF False] by (auto dest: in_set_butlastD)
  ultimately show ?thesis
    using False assms(2) getlines_unlines [of "butlast ?ls @ [last ?ls @ entry]"] by auto
qed

section \<open>Properties\<close>

text \<open>C11: a schedule with a valid minute and hour is moved to the time of day three minutes earlier,
  across the hour and across midnight.\<close>

theorem cron_three_minutes_earlier:
  assumes "0 \<le> m" "m < 60" "0 \<le> h" "h < 24" "length rest = 3" "\<forall>p\<in>set rest. p = ''*'' \<or> stoi p \<noteq> None"
  shows "\<exists>m' h' rest'. adjusted_fields (int_str m # int_str h # rest) = Inr (int_str m' # int_str h' # rest') \<and>
     0 \<le> m' \<and> m' < 60 \<and> 0 \<le> h' \<and> h' < 24 \<and> 60 * h' + m' = (60 * h + m - 3) mod 1440"
proof -
  have "stoi (int_str m) = Some m" "stoi (int_str h) = Some h" using assms(1-4) by (simp_all add: stoi_int_str)
  from parse_numbers [OF this int_str_not_star int_str_not_star assms(5,6)] obtain vs where
    v: "cron_values (int_str m # int_str h # rest) = m # h # vs" by blast
  let ?m = "if 2 < m then m - 3 else m + 57" and ?h = "if 2 < m then h else if h = 0 then 23 else h - 1"
  have "(60 * h + m - 3) mod 1440 = 60 * ?h + ?m"
  proof (cases "2 < m \<or> h \<noteq> 0")
    case True
    with assms(1-4) show ?thesis by (auto simp: mod_pos_pos_trivial)
  next
    case False
    then have "(60 * h + m - 3) mod 1440 = (m + 1437) mod 1440" using mod_add_self2 [of "m - 3" 1440]
      by (simp add: add.commute)
    with False assms(1) show ?thesis by (simp add: mod_pos_pos_trivial)
  qed
  then show ?thesis
    using adjusted_fields_numbers [OF v int_str_not_star int_str_not_star] assms(1-4)
    by (intro exI [of _ ?m] exI [of _ ?h]) auto
qed

text \<open>A star in the minute field stands for minute 0 in the arithmetic, so the hour of such a
  schedule is moved back although the minutes stay.\<close>

lemma star_minute_moves_hour:
  assumes "0 < h" "h < 24" "length rest = 3" "\<forall>p\<in>set rest. p = ''*'' \<or> stoi p \<noteq> None"
  shows "\<exists>rest'. adjusted_fields (''*'' # int_str h # rest) = Inr (''*'' # int_str (h - 1) # rest')"
proof -
  have "stoi (int_str h) = Some h" using assms(1,2) by (simp add: stoi_int_str)
  from parse_star [OF this int_str_not_star assms(3,4)] obtain vs where
    v: "cron_values (''*'' # int_str h # rest) = 0 # h # vs" by blast
  show ?thesis using adjusted_fields_star [OF v int_str_not_star] assms(1) by auto
qed

text \<open>C19: for a schedule of at least five fields, when the temporary file can be written, the crontab handed to the system keeps, in order, the exported lines that concern neither the
  manager nor the old script, and its last line, the only one for the manager, is the new entry; when the
  export ends in a kept line without a newline the entry is appended to that line.\<close>

theorem cron_entry_replaced:
  assumes "sed_deletes N" "fopen_w S (env w) CRON_TMP_FILE" "5 \<le> length (ws_words cron)"
    "adjusted_fields (take 5 (ws_words cron)) = Inr fs" "manageCronJob S N cron w = Inr w'"
  shows "\<exists>c. env w' = fst (crontab_install N (env w) c) \<and>
     getlines c = (if line_complete (exported_crontab S w)
       then other_lines (exported_crontab S w) @ [join_blank fs @ cron_command (plat S)]
       else butlast (other_lines (exported_crontab S w)) @
            [last (other_lines (exported_crontab S w)) @ join_blank fs @ cron_command (plat S)]) \<and>
     filter (\<lambda>l. str_contains l ''rfcMgr'') (getlines c) = [last (getlines c)] \<and>
     files w' CRON_TMP_FILE = None"
proof -
  let ?entry = "join_blank fs @ cron_command (plat S)" and ?old = "other_lines (exported_crontab S w)"
  let ?c = "sed_edit N (exported_crontab S w) @ ?entry @ [NL]"
  have w': "w' = replace_entry S N ?entry w" using assms(2-5) by (simp add: manageCronJob_def Let_def)
  have "NL \<notin> set ?entry" using adjusted_fields_line [OF assms(4)] by (simp add: cron_command_def)
  from sed_then_entry [OF assms(1) this]
  have c: "getlines ?c = (if line_complete (exported_crontab S w) then ?old @ [?entry]
      else butlast ?old @ [last ?old @ ?entry])" .
  have old: "\<not> str_contains l ''rfcMgr''" if "l \<in> set ?old" for l
    using that by (auto simp: other_lines_def manager_line_def)
  then have none: "filter (\<lambda>l. str_contains l ''rfcMgr'') ?old = []"
    "filter (\<lambda>l. str_contains l ''rfcMgr'') (butlast ?old) = []"
    by (auto simp: filter_empty_conv dest: in_set_butlastD)
  have new: "str_contains ?entry ''rfcMgr''" "str_contains (last ?old @ ?entry) ''rfcMgr''"
    using entry_contains [of "join_blank fs"] entry_contains [of "last ?old @ join_blank fs"] by simp_all
  have "filter (\<lambda>l. str_contains l ''rfcMgr'') (getlines ?c) = [last (getlines ?c)]"
    unfolding c using none new by simp
  moreover have "env w' = fst (crontab_install N (env w) ?c)" by (simp add: w' replace_entry_env)
  moreover have "files w' CRON_TMP_FILE = None" by (simp add: w' replace_entry_def Let_def case_prod_beta)
  ultimately show ?thesis using c by (intro exI [of _ ?c]) simp
qed

text \<open>A system below on which the commands behave as documented; a crontab is installed by
  recording it as a parameter of the reference outside.\<close>

definition ref_os :: "refenv os" where
  "ref_os = \<lparr>getifaddrs = (\<lambda>_. Some [IfInet 0x7F000001, IfInet 0xC0A80001]), mkdir = (\<lambda>_ _. MkdirIsDir),
     flock_busy = (\<lambda>_. False),
     sed_edit = (\<lambda>c. if line_complete c then unlines (other_lines c) else butlast (unlines (other_lines c))),
     crontab_install = (\<lambda>e c. (e\<lparr>re_params := (''crontab'', c) # re_params e\<rparr>, 0))\<rparr>"

theorem cron_three_minutes_earlier_witness:
  "\<exists>m' h' rest'. adjusted_fields [int_str 1, int_str 0, ''*'', ''*'', ''*''] = Inr (int_str m' # int_str h' # rest') \<and>
     60 * h' + m' = 1438"
  using cron_three_minutes_earlier [of 1 0 "[''*'', ''*'', ''*'']"] by auto

text \<open>A gateway whose crontab has an entry of another program and an old one of the manager.\<close>

definition crontab_lines :: "string list" where
  "crontab_lines = [''5 * * * * /usr/bin/other'', ''1 1 * * * /usr/bin/rfcMgr'']"

definition crontab_rdkb :: "refenv sys" where
  "crontab_rdkb = ref_rdkb\<lparr>popen_out := \<lambda>_ _. Some (unlines crontab_lines)\<rparr>"

lemma crontab_exported: "exported_crontab crontab_rdkb ref_world = unlines crontab_lines"
proof -
  have "fgets_all 1024 (unlines crontab_lines) = map (\<lambda>l. l @ [NL]) crontab_lines"
    by (rule fgets_all_lines) (simp add: crontab_lines_def)
  then show ?thesis by (simp add: exported_crontab_def crontab_rdkb_def) (simp add: crontab_lines_def)
qed

lemma crontab_kept: "line_complete (unlines crontab_lines)" "other_lines (unlines crontab_lines) = [''5 * * * * /usr/bin/other'']"
proof -
  have "getlines (unlines crontab_lines) = crontab_lines"
    by (rule getlines_unlines) (simp add: crontab_lines_def)
  then show "other_lines (unlines crontab_lines) = [''5 * * * * /usr/bin/other'']"
    by (simp add: other_lines_def crontab_lines_def manager_line_def)
  show "line_complete (unlines crontab_lines)"
    by (simp add: line_complete_def crontab_lines_def)
qed

lemma ten_past_four: "ws_words ''10 4 * * *'' = [''10'', ''4'', ''*'', ''*'', ''*'']"
  by (simp add: ws_words.simps isspace_def)

lemma seven_past_four: "adjusted_fields [''10'', ''4'', ''*'', ''*'', ''*''] = Inr [''7'', ''4'', ''*'', ''*'', ''*'']"
  by code_simp

theorem cron_entry_replaced_witness:
  "\<exists>w' c. manageCronJob crontab_rdkb ref_os ''10 4 * * *'' ref_world = Inr w' \<and>
     env w' = fst (crontab_install ref_os (env ref_world) c) \<and>
     getlines c = [''5 * * * * /usr/bin/other'', ''7 4 * * * /usr/bin/rfcMgr >> /rdklogs/logs/dcmrfc.log.0 2>&1'']"
proof -
  have "\<exists>w'. manageCronJob crontab_rdkb ref_os ''10 4 * * *'' ref_world = Inr w'"
    by (simp add: manageCronJob_def ten_past_four seven_past_four)
  then obtain w' where w': "manageCronJob crontab_rdkb ref_os ''10 4 * * *'' ref_world = Inr w'" ..
  have "sed_deletes ref_os" "fopen_w crontab_rdkb (env ref_world) CRON_TMP_FILE" "5 \<le> length (ws_words ''10 4 * * *'')"
      "adjusted_fields (take 5 (ws_words ''10 4 * * *'')) = Inr [''7'', ''4'', ''*'', ''*'', ''*'']"
    by (simp_all add: ten_past_four seven_past_four sed_deletes_def ref_os_def ref_sys_def crontab_rdkb_def)
  from cron_entry_replaced [OF this w'] obtain c where c: "env w' = fst (crontab_install ref_os (env ref_world) c)"
    "getlines c = [''5 * * * * /usr/bin/other'', join_blank [''7'', ''4'', ''*'', ''*'', ''*''] @ cron_command (plat crontab_rdkb)]"
    by (auto simp only: crontab_exported crontab_kept if_True append.simps)
  have "plat crontab_rdkb = RDKB" by (simp add: crontab_rdkb_def ref_sys_def)
  with c(2) have "getlines c = [''5 * * * * /usr/bin/other'', ''7 4 * * * /usr/bin/rfcMgr >> /rdklogs/logs/dcmrfc.log.0 2>&1'']"
    by (simp add: cron_command_def)
  with w' c(1) show ?thesis by blast
qed

end
