(* ===== verification/Rfc_Manager.thy ===== *)
theory Rfc_Manager
  imports Rfc_Request Rfc_Cron
begin

text \<open>
  The manager process (rfc_manager.cpp, rfc_main.cpp): one run of the processor with its maintenance
  events and post-processing, and the process from its lock over the online check to its exit.  Shown
  here: one execution makes at most five requests and none when it is turned away or offline, the result
  of a run on a set-top box is reported to the maintenance manager exactly once, an
  instance that is turned away removes the lock file, and a broadband run reports a failure whatever
  happened.
\<close>

section \<open>One run\<close>

definition RFC_MGR_IPTBLE_INIT_SCRIPT :: "platform \<Rightarrow> string" where
  "RFC_MGR_IPTBLE_INIT_SCRIPT p =
     (if is_rdkb p then ''/lib/rdk/RFCpostprocess.sh'' else ''/lib/rdk/iptables_init'')"

definition RFCManagerPostProcess :: "'e sys \<Rightarrow> ('e, 'z) world_scheme \<Rightarrow> int \<times> ('e, 'z) world_scheme" where
  "RFCManagerPostProcess S w =
     (let script = RFC_MGR_IPTBLE_INIT_SCRIPT (plat S) in
      if file_present script w then
        (let (rc, w1) = do_system S (''sh '' @ script) w in (if rc = -1 then FAILURE else SUCCESS, w1))
      else (SUCCESS, w))"

text \<open>A new processor: empty strings, no reboot required, not yet initialised.\<close>

definition new_processor :: "'e world \<Rightarrow> 'e proc" where
  "new_processor w = world.extend w (proc.fields [] [] eUNKNOWN [] [] [] [] [] [] [] [] [] [] [] False [] [] Invalid
     [] [] [] [] [] [] [] [] False False False [])"

text \<open>The events after the request; nothing on broadband, and no events on cameras.\<close>

definition report_result :: "'e sys \<Rightarrow> int \<Rightarrow> 'e proc \<Rightarrow> int \<times> 'e proc" where
  "report_result S result p =
     (if is_rdkb (plat S) then (FAILURE, p)
      else if result = SUCCESS then
        (SUCCESS,
         if plat S = RDKC then p
         else (let p1 = SendEventToMaintenanceManager MAINT_RFC_COMPLETE p in
               if isRebootRequired p1
               then SendEventToMaintenanceManager MAINT_REBOOT_REQUIRED
                      (SendEventToMaintenanceManager MAINT_CRITICAL_UPDATE
                         (NotifyTelemetry2Count ''SYST_INFO_RFC_Reboot'' p1))
               else p1))
      else (FAILURE,
         if plat S = RDKC then p
         else SendEventToMaintenanceManager MAINT_RFC_ERROR (NotifyTelemetry2Count ''SYST_INFO_RFC_Error'' p)))"

definition RFCManagerProcess :: "'e sys \<Rightarrow> 'e proc \<Rightarrow> (int \<times> 'e proc) res" where
  "RFCManagerProcess S p =
     rbind (InitializeRuntimeFeatureControlProcessor S p) (\<lambda>(result, p1).
       if result = FAILURE then Inr (FAILURE, p1)
       else rbind (ProcessRuntimeFeatureControlReq S p1) (\<lambda>(result2, p2).
         let (reqStatus, p3) = report_result S result2 p2;
             (post, p4) = RFCManagerPostProcess S p3
         in Inr (reqStatus,
              if post = SUCCESS then NotifyTelemetry2Count ''SYST_INFO_RFC_PostProcess_Success'' p4 else p4)))"

definition RFCManagerProcessXconfRequest :: "'e sys \<Rightarrow> 'e world \<Rightarrow> (int \<times> 'e world) res" where
  "RFCManagerProcessXconfRequest S w =
     rbind (RFCManagerProcess S (new_processor w)) (\<lambda>(st, p). Inr (st, world.truncate p))"

section \<open>The process\<close>

definition RFC_MGR_SERVICE_LOCK_FILE :: string where
  [path_defs]: "RFC_MGR_SERVICE_LOCK_FILE = ''/tmp/.rfcServiceLock''"

definition cleanup_lock_file :: "('e, 'z) world_scheme \<Rightarrow> ('e, 'z) world_scheme" where
  "cleanup_lock_file w = remove_file RFC_MGR_SERVICE_LOCK_FILE w"

definition createDirectoryIfNotExists :: "'e os \<Rightarrow> string \<Rightarrow> ('e, 'z) world_scheme \<Rightarrow> bool" where
  "createDirectoryIfNotExists N path w \<longleftrightarrow> path \<noteq> [] \<and> mkdir N (env w) path \<noteq> MkdirFailed"

definition CurrentRunningInst :: "'e sys \<Rightarrow> 'e os \<Rightarrow> ('e, 'z) world_scheme \<Rightarrow> bool \<times> ('e, 'z) world_scheme" where
  "CurrentRunningInst S N w =
     (if \<not> fopen_w S (env w) RFC_MGR_SERVICE_LOCK_FILE then (False, w)
      else (flock_busy N (env w),
            if file_present RFC_MGR_SERVICE_LOCK_FILE w then w else write_file S RFC_MGR_SERVICE_LOCK_FILE [] w))"

text \<open>An online device: the request, and on broadband the cron job.\<close>

definition online_run :: "'e sys \<Rightarrow> 'e os \<Rightarrow> 'e world \<Rightarrow> 'e world res" where
  "online_run S N w =
     rbind (RFCManagerProcessXconfRequest S w) (\<lambda>(_, w1).
       if is_rdkb (plat S) then (let (cron, w2) = getCronFromDCMSettings S w1 in manageCronJob S N cron w2)
       else Inr w1)"

text \<open>The child process from its start to its exit; the handler registered with \<open>atexit\<close> runs on
  every regular exit.\<close>

definition main :: "'e sys \<Rightarrow> 'e os \<Rightarrow> 'e world \<Rightarrow> (int \<times> 'e world) res" where
  "main S N w =
     (if \<not> createDirectoryIfNotExists N ''/opt/secure/RFC'' w then Inr (1, cleanup_lock_file w)
      else
        let w1 = (if is_rdkb (plat S) then waitForRfcCompletion S w else w);
            (busy, w2) = CurrentRunningInst S N w1 in
        if busy
        then Inr (1, cleanup_lock_file
               (if is_rdkb (plat S) then w2 else SendEventToMaintenanceManager MAINT_RFC_INPROGRESS w2))
        else
          let (st, w3) = CheckDeviceIsOnline S N w2 in
          if st = RFCMGR_DEVICE_ONLINE
          then rbind (online_run S N w3) (\<lambda>w4. Inr (0, cleanup_lock_file w4))
          else Inr (0, cleanup_lock_file w3))"

text \<open>The fork before it: the parent leaves at once, before the exit handler is registered.\<close>

datatype fork_result = ForkFailed | ForkParent | ForkChild

definition start :: "'e sys \<Rightarrow> 'e os \<Rightarrow> fork_result \<Rightarrow> 'e world \<Rightarrow> (int \<times> 'e world) res" where
  "start S N pid w = (case pid of ForkFailed \<Rightarrow> Inr (1, w) | ForkParent \<Rightarrow> Inr (0, w) | ForkChild \<Rightarrow> main S N w)"

text \<open>A signal ends the process with status 0; the exit handler runs a second time.\<close>

definition signal_handler :: "('e, 'z) world_scheme \<Rightarrow> int \<times> ('e, 'z) world_scheme" where
  "signal_handler w = (0, cleanup_lock_file (cleanup_lock_file w))"

section \<open>The event bus\<close>

text \<open>The IARM bus is not part of the repository; its calls act on a state of their own.\<close>

datatype IARM_Result = IARM_RESULT_SUCCESS | IARM_RESULT_INVALID_STATE | IARM_RESULT_OTHER

record 'b iarm =
  Bus_IsConnected :: "'b \<Rightarrow> bool"
  Bus_Init :: "'b \<Rightarrow> 'b \<times> IARM_Result"
  Bus_Connect :: "'b \<Rightarrow> 'b \<times> IARM_Result"
  Bus_RegisterEventHandler :: "'b \<Rightarrow> 'b"
  Bus_UnRegisterEventHandler :: "'b \<Rightarrow> 'b"
  Bus_Disconnect :: "'b \<Rightarrow> 'b"
  Bus_Term :: "'b \<Rightarrow> 'b"

definition IsIarmBusConnected :: "'b iarm \<Rightarrow> 'b \<Rightarrow> bool" where
  "IsIarmBusConnected B b = Bus_IsConnected B b"

text \<open>The handler is registered even when the bus could not be reached.\<close>

definition InitializeIARM :: "'b iarm \<Rightarrow> 'b \<Rightarrow> 'b" where
  "InitializeIARM B b =
     (if IsIarmBusConnected B b then b
      else case Bus_Init B b of (b1, r1) \<Rightarrow>
        Bus_RegisterEventHandler B
          (if r1 = IARM_RESULT_SUCCESS \<or> r1 = IARM_RESULT_INVALID_STATE then fst (Bus_Connect B b1) else b1))"

definition term_event_handler :: "'b iarm \<Rightarrow> 'b \<Rightarrow> int \<times> 'b" where
  "term_event_handler B b = (0, Bus_Term B (Bus_Disconnect B (Bus_UnRegisterEventHandler B b)))"

lemma InitializeIARM_connects:
  assumes "\<And>b. snd (Bus_Init B b) \<noteq> IARM_RESULT_OTHER" "\<And>b. Bus_IsConnected B (fst (Bus_Connect B b))"
    "\<And>b. Bus_IsConnected B (Bus_RegisterEventHandler B b) = Bus_IsConnected B b"
  shows "IsIarmBusConnected B (InitializeIARM B b)"
  using assms(1) [of b] assms(2,3)
  by (cases "snd (Bus_Init B b)") (auto simp: InitializeIARM_def IsIarmBusConnected_def case_prod_beta)

section \<open>Requests of a whole run\<close>

lemma quiet_init_updates [simp]:
  "quiet p (q\<lparr>boot_strap_xconf_url := x\<rparr>) = quiet p q" "quiet p (q\<lparr>partnerId := x\<rparr>) = quiet p q"
  "quiet p (q\<lparr>experience := x\<rparr>) = quiet p q" "quiet p (q\<lparr>osclass := x\<rparr>) = quiet p q"
  "quiet p (q\<lparr>last_firmware := x\<rparr>) = quiet p q" "quiet p (q\<lparr>is_first_request := b\<rparr>) = quiet p q"
  "quiet p (q\<lparr>serialNumber := x\<rparr>) = quiet p q" "quiet p (q\<lparr>extendermacAddress := x\<rparr>) = quiet p q"
  by (simp_all add: quiet_def traffic_def)

lemma read_quiet: "read_RFCProperty S t k b n p = Inr (i, buf, q) \<Longrightarrow> quiet p q" for p q :: "'e proc"
  by (drule read_RFCProperty_frame) (intro quiet_log_more, simp_all add: param_frame_def)

lemma GetBootstrap_quiet:
  assumes "GetBootstrapXconfUrl S p = Inr (rc, q)"
  shows "quiet p q"
proof -
  from assms obtain url p1 where l: "bootstrap_url_loop S 0 [] p = Inr (rc, url, p1)"
      "q = p1 \<or> (\<exists>u. q = p1\<lparr>boot_strap_xconf_url := u\<rparr>)"
    by (auto simp: GetBootstrapXconfUrl_def split: option.splits)
  from bootstrap_url_loop_bounded [OF l(1)] obtain k where
    "log p1 = log p @ replicate k (SleepSec 10)" "world.more p1 = world.more p" by auto
  then have "quiet p p1" by (intro quiet_more) (simp_all add: traffic_def)
  with l(2) show ?thesis by auto
qed

lemma initializeXconfHandler_quiet: "quiet p (snd (initializeXconfHandler S p))"
  by (simp add: initializeXconfHandler_def Let_def quiet_def traffic_def)

lemma GetServURL_quiet: "quiet p (snd (GetServURL S f p))"
  by (simp add: GetServURL_def Let_def split: option.splits)

lemma GetExperience_quiet: "GetExperience S p = Inr (r, q) \<Longrightarrow> quiet p q"
  unfolding GetExperience_def rbind_eq_Inr by (elim exE conjE) (auto split: if_splits)

lemma GetAccountID_quiet: "GetAccountID S p = Inr (u, q) \<Longrightarrow> quiet p q"
  using GetAccountID_log [of S p u q] GetAccountID_map [of S p u q] by (simp add: quiet_def traffic_def)

lemma GetOsClass_quiet:
  assumes "GetOsClass S p = Inr (u, q)"
  shows "quiet p q"
proof (cases "checkWhoamiSupport S p")
  case True
  with assms obtain i b p1 where r: "read_RFCProperty S ''OsClass'' RFC_OSCLASS_KEY_STR [] 100 p = Inr (i, b, p1)"
      "q = (if i = READ_RFC_FAILURE then p1 else p1\<lparr>osclass := b\<rparr>)"
    unfolding GetOsClass_def by (auto simp: case_prod_beta)
  from read_quiet [OF r(1)] show ?thesis by (simp add: r(2))
next
  case False
  with assms show ?thesis by (simp add: GetOsClass_def)
qed

lemma GetRFCPartnerID_quiet:
  assumes "GetRFCPartnerID S p = Inr (u, q)"
  shows "quiet p q"
proof (cases "checkWhoamiSupport S p")
  case True
  with assms obtain i b p1 where r: "read_RFCProperty S ''PartnerName'' RFC_PARTNERNAME_KEY_STR [] 1024 p = Inr (i, b, p1)"
      "q = (if i = READ_RFC_FAILURE then p1 else p1\<lparr>partnerId := b\<rparr>)"
    unfolding GetRFCPartnerID_def by (auto simp: case_prod_beta)
  from read_quiet [OF r(1)] show ?thesis by (simp add: r(2))
next
  case False
  with assms show ?thesis by (auto simp: GetRFCPartnerID_def)
qed

lemma GetLast_quiet: "quiet p (snd (GetLastProcessedFirmware f p))"
  by (simp add: GetLastProcessedFirmware_def Let_def split: option.splits)

lemma extender_quiet: "quiet p (GetSerialNumber S (GetExtenderMacAddress S p))"
proof -
  have "quiet q (GetSerialNumber S q)" "quiet q (GetExtenderMacAddress S q)" for q
    by (simp_all add: GetSerialNumber_def GetExtenderMacAddress_def split: option.splits)
  then show ?thesis using quiet_trans by blast
qed

lemma init_choose_quiet:
  assumes "init_choose S p = Inr (f, q)"
  shows "quiet p q"
proof -
  from assms obtain b p1 where c:
      "(if file_present (RFC_PROPERTIES_PERSISTENCE_FILE (plat S)) p then isSecureDbgSrvUnlocked S p else Inr (False, p))
         = Inr (b, p1)" "q = p1\<lparr>rfc_state := Local\<rparr> \<or> q = p1\<lparr>rfc_state := Init\<rparr>"
    unfolding init_choose_def Let_def rbind_eq_Inr by (elim exE conjE) (auto split: prod.splits if_splits)
  have "quiet p p1"
    using c(1) unlock_quiet [of S p b p1] by (cases "file_present (RFC_PROPERTIES_PERSISTENCE_FILE (plat S)) p") auto
  with c(2) show ?thesis by auto
qed

lemma init_ids_quiet:
  assumes "init_ids S p = Inr (r, q)"
  shows "quiet p q"
proof -
  let ?p1 = "snd (GetLastProcessedFirmware RFC_LAST_VERSION p)"
  let ?ext = "\<lambda>p3. if plat S = RDKB_EXTENDER then GetSerialNumber S (GetExtenderMacAddress S p3) else p3"
  from assms obtain p2 where s2: "GetAccountID S ?p1 = Inr ((), p2)"
      "rbind (GetOsClass S p2) (\<lambda>(_, p3). Inr (SUCCESS, (?ext p3)\<lparr>is_first_request :=
             (if is_rdkb (plat S) then \<not> file_present TIME_VALUE_FILE (?ext p3)
              else IsNewFirmwareFirstRequest (?ext p3))\<rparr>)) = Inr (r, q)"
    unfolding init_ids_def case_prod_beta Let_def rbind_eq_Inr by (elim exE conjE) auto
  from s2(2) obtain p3 where o: "GetOsClass S p2 = Inr ((), p3)" by auto
  from s2(2) obtain b where s3: "q = (?ext p3)\<lparr>is_first_request := b\<rparr>"
    unfolding o rbind.simps prod.case by blast
  have "quiet p p3" using GetLast_quiet GetAccountID_quiet [OF s2(1)] GetOsClass_quiet [OF o] quiet_trans by blast
  moreover have "quiet p3 q" unfolding s3 by (simp add: extender_quiet)
  ultimately show ?thesis by (rule quiet_trans)
qed

lemma init_server_quiet:
  assumes "init_server S f p = Inr (r, q)"
  shows "quiet p q"
proof -
  let ?p1 = "snd (GetServURL S f p)"
  from assms consider "q = ?p1" | p2 where "GetExperience S ?p1 = Inr (-1, p2)" "q = p2"
      | r2 p2 where "GetExperience S ?p1 = Inr (r2, p2)" "init_ids S p2 = Inr (r, q)"
    unfolding init_server_def by (auto simp: case_prod_beta split: if_splits)
  then show ?thesis
    using GetServURL_quiet [of p S f] by cases (auto dest: GetExperience_quiet init_ids_quiet intro: quiet_trans)
qed

lemma Initialize_quiet:
  assumes "InitializeRuntimeFeatureControlProcessor S p = Inr (r, q)"
  shows "quiet p q"
proof -
  from assms obtain rc p1 where p1: "(if plat S = RDKC then Inr (0, p) else GetBootstrapXconfUrl S p) = Inr (rc, p1)"
    by (auto simp: InitializeRuntimeFeatureControlProcessor_def split: if_splits)
  then have a: "quiet p p1" using GetBootstrap_quiet by (auto split: if_splits)
  let ?p2 = "snd (initializeXconfHandler S p1)"
  from assms p1 consider "q = ?p2"
      | p3 f p4 where "GetRFCPartnerID S ?p2 = Inr ((), p3)" "init_choose S p3 = Inr (f, p4)" "init_server S f p4 = Inr (r, q)"
    by (auto simp: InitializeRuntimeFeatureControlProcessor_def case_prod_beta Let_def split: if_splits)
  then have "quiet ?p2 q"
  proof cases
    case 2
    then show ?thesis by (meson GetRFCPartnerID_quiet init_choose_quiet init_server_quiet quiet_trans)
  qed simp
  with a initializeXconfHandler_quiet [of p1 S] show ?thesis by (meson quiet_trans)
qed


lemma traffic_append: "log q = log p @ replicate k (SleepSec d) \<Longrightarrow> traffic q = traffic p"
  by (simp add: traffic_def)

lemma waitForRfcCompletion_traffic: "traffic (waitForRfcCompletion S w) = traffic w"
proof -
  obtain k where "log (wait_loop S 1 w) = log w @ replicate k (SleepSec 100)" using wait_loop_bounded [of 1 S w] by auto
  then show ?thesis by (simp add: waitForRfcCompletion_def Let_def traffic_append)
qed

lemma CurrentRunningInst_traffic: "traffic (snd (CurrentRunningInst S N w)) = traffic w"
  by (simp add: CurrentRunningInst_def)

lemma SendEvent_traffic [simp]: "traffic (SendEventToMaintenanceManager ev w) = traffic w @ [MaintEvent ev]"
  by (simp add: SendEventToMaintenanceManager_def traffic_def)

text \<open>The online check of a set-top box reports an error when it finds no route.\<close>

lemma CheckDeviceIsOnline_traffic:
  "traffic (snd (CheckDeviceIsOnline S N w)) = traffic w @
     (if plat S = STB \<and> \<not> fst (CheckIProuteConnectivity S (Some GATEWAYIP_FILE) w) then [MaintEvent MAINT_RFC_ERROR] else [])"
proof -
  have ip: "traffic (snd (WaitForIpAcquisition S N w)) = traffic w"
    using ip.run_stops [of 30 S N w] by (auto simp: WaitForIpAcquisition_def traffic_append [OF sleep_pow_log])
  have "traffic (snd (route_wait S 5 w)) = traffic w"
    using route.run_stops [of 5 S w] by (auto simp: traffic_append [OF sleep_pow_log])
  then have "traffic (snd (CheckIProuteConnectivity S (Some GATEWAYIP_FILE) w)) = traffic w"
    by (simp add: CheckIProuteConnectivity_def case_prod_beta Let_def)
  with ip show ?thesis by (simp add: CheckDeviceIsOnline_def case_prod_beta Let_def)
qed

lemma do_system_traffic [simp]: "traffic (snd (do_system S c w)) = traffic w"
  by (simp add: do_system_def traffic_def)

lemma PostProcess_frame:
  "traffic (snd (RFCManagerPostProcess S w)) = traffic w"
  "isRebootRequired (snd (RFCManagerPostProcess S p)) = isRebootRequired p"
  by (simp_all add: RFCManagerPostProcess_def Let_def case_prod_beta do_system_def emit_def traffic_def)

text \<open>The events that report the result \<open>r\<close> of the request.\<close>

definition outcome_events :: "'e sys \<Rightarrow> int \<Rightarrow> bool \<Rightarrow> effect list" where
  "outcome_events S r reboot = map MaintEvent
     (if plat S \<noteq> STB then [] else if r \<noteq> SUCCESS then [MAINT_RFC_ERROR]
      else if reboot then [MAINT_RFC_COMPLETE, MAINT_CRITICAL_UPDATE, MAINT_REBOOT_REQUIRED] else [MAINT_RFC_COMPLETE])"

lemma report_result_traffic:
  "traffic (snd (report_result S r p)) = traffic p @ outcome_events S r (isRebootRequired p)"
  "isRebootRequired (snd (report_result S r p)) = isRebootRequired p"
  "\<not> is_rdkb (plat S) \<Longrightarrow> (fst (report_result S r p) = SUCCESS) = (r = SUCCESS)"
  by (cases "plat S"; auto simp: report_result_def outcome_events_def Let_def SendEventToMaintenanceManager_def traffic_def
      NotifyTelemetry2Count_def emit_def)+

lemma RFCManagerProcess_traffic:
  assumes "RFCManagerProcess S p = Inr (r, q)" "map_wf (RFCKeyAndValueMap p)"
  shows "\<exists>r0 p1 rs. InitializeRuntimeFeatureControlProcessor S p = Inr (r0, p1) \<and>
     traffic q = traffic p @ rs @ (if r0 = FAILURE then [] else outcome_events S r (isRebootRequired q)) \<and>
     length rs \<le> RETRY_COUNT + 2 \<and> list_all is_request rs"
proof -
  from assms(1) obtain r0 p1 where i: "InitializeRuntimeFeatureControlProcessor S p = Inr (r0, p1)"
    by (auto simp: RFCManagerProcess_def)
  have p1: "traffic p1 = traffic p" "map_wf (RFCKeyAndValueMap p1)"
    using Initialize_quiet [OF i] assms(2) by (simp_all add: quiet_def)
  show ?thesis
  proof (cases "r0 = FAILURE")
    case True
    with assms(1) i p1 show ?thesis by (simp add: RFCManagerProcess_def)
  next
    case False
    with assms(1) i obtain r2 p2 where s: "ProcessRuntimeFeatureControlReq S p1 = Inr (r2, p2)"
      by (auto simp: RFCManagerProcess_def)
    let ?p3 = "snd (report_result S r2 p2)" let ?p4 = "snd (RFCManagerPostProcess S ?p3)"
    from assms(1) i False s have q: "r = fst (report_result S r2 p2)" "traffic q = traffic ?p4"
        "isRebootRequired q = isRebootRequired ?p4"
      by (auto simp: RFCManagerProcess_def case_prod_beta Let_def NotifyTelemetry2Count_def emit_def traffic_def split: if_splits)
    have "isRebootRequired ?p4 = isRebootRequired p2"
      by (simp add: PostProcess_frame report_result_traffic)
    then have "outcome_events S r2 (isRebootRequired p2) = outcome_events S r (isRebootRequired q)"
      using report_result_traffic(3) [of S r2 p2] q(1,3) by (cases "plat S") (auto simp: outcome_events_def)
    then have "traffic q = traffic p2 @ outcome_events S r (isRebootRequired q)"
      using q(2) by (simp add: PostProcess_frame report_result_traffic)
    with ProcessReq_adds [OF s p1(2)] p1(1) i False show ?thesis by (auto simp: adds_requests_def)
  qed
qed

lemma new_processor_traffic [simp]: "traffic (new_processor w) = traffic w"
  by (simp add: new_processor_def traffic_def world.defs)

lemma new_processor_map [simp]: "RFCKeyAndValueMap (new_processor w) = []"
  by (simp add: new_processor_def world.defs proc.defs)

lemma truncate_traffic [simp]: "traffic (world.truncate p) = traffic p"
  by (simp add: traffic_def world.defs)

lemma replace_entry_traffic: "traffic (replace_entry S N e w) = traffic w"
  by (simp add: replace_entry_def Let_def case_prod_beta traffic_def)

lemma manageCronJob_traffic: "manageCronJob S N cron w = Inr w' \<Longrightarrow> traffic w' = traffic w"
  by (auto simp: manageCronJob_def Let_def replace_entry_traffic split: if_splits)

lemma getCron_traffic: "traffic (snd (getCronFromDCMSettings S w)) = traffic w"
  by (simp add: getCronFromDCMSettings_def split: option.splits)

text \<open>What one execution may report: nothing, a failure, or a completion with or without a reboot.\<close>

definition outcomes :: "effect list list" where
  "outcomes = map (map MaintEvent) [[], [MAINT_RFC_ERROR], [MAINT_RFC_COMPLETE],
     [MAINT_RFC_COMPLETE, MAINT_CRITICAL_UPDATE, MAINT_REBOOT_REQUIRED]]"

lemma outcome_events_outcomes: "outcome_events S r b \<in> set outcomes" "[] \<in> set outcomes" "[MaintEvent MAINT_RFC_ERROR] \<in> set outcomes"
  by (simp_all add: outcome_events_def outcomes_def)

lemma online_run_traffic:
  assumes "online_run S N w = Inr w'"
  shows "\<exists>rs es. traffic w' = traffic w @ rs @ es \<and> length rs \<le> RETRY_COUNT + 2 \<and> list_all is_request rs \<and> es \<in> set outcomes"
proof -
  from assms obtain r p where p: "RFCManagerProcess S (new_processor w) = Inr (r, p)"
      "w' = world.truncate p \<or> (\<exists>cron. manageCronJob S N cron (snd (getCronFromDCMSettings S (world.truncate p))) = Inr w')"
    by (auto simp: online_run_def RFCManagerProcessXconfRequest_def case_prod_beta Let_def split: if_splits)
  have "traffic w' = traffic p" using p(2) by (auto simp: getCron_traffic dest: manageCronJob_traffic)
  moreover obtain r0 rs where t: "traffic p = traffic w @ rs @ (if r0 = FAILURE then [] else outcome_events S r (isRebootRequired p))"
      "length rs \<le> RETRY_COUNT + 2" "list_all is_request rs"
    using RFCManagerProcess_traffic [OF p(1)] by (force simp: map_wf_def)
  moreover have "(if r0 = FAILURE then [] else outcome_events S r (isRebootRequired p)) \<in> set outcomes"
    by (simp add: outcome_events_outcomes)
  ultimately show ?thesis by metis
qed

section \<open>Results\<close>

text \<open>On broadband the result of the request never reaches the caller.\<close>

lemma broadband_run_fails: "is_rdkb (plat S) \<Longrightarrow> RFCManagerProcess S p = Inr (rc, p') \<Longrightarrow> rc = FAILURE"
  unfolding RFCManagerProcess_def rbind_eq_Inr
  by (elim exE conjE) (auto simp: report_result_def Let_def case_prod_beta split: if_splits)

text \<open>An instance that finds the lock taken leaves with status 1 and without the lock file.\<close>

lemma turned_away_removes_lock:
  assumes "plat S = STB" "mkdir N (env w) ''/opt/secure/RFC'' \<noteq> MkdirFailed"
    "fopen_w S (env w) RFC_MGR_SERVICE_LOCK_FILE" "flock_busy N (env w)"
  shows "\<exists>w'. main S N w = Inr (1, w') \<and> files w' RFC_MGR_SERVICE_LOCK_FILE = None"
  using assms by (simp add: main_def createDirectoryIfNotExists_def CurrentRunningInst_def Let_def
      cleanup_lock_file_def SendEventToMaintenanceManager_def)

section \<open>Properties\<close>

text \<open>C4: what one execution of the manager tells the rest of the world is at most five requests, three
  for features and two to validate a new server URL, and none at all when another instance holds the lock
  or the device is offline, followed by at most one report to the maintenance manager.\<close>

theorem manager_requests_bounded:
  assumes "main S N w = Inr (rc, w')"
  shows "\<exists>rs es. traffic w' = traffic w @ rs @ es \<and> list_all is_request rs \<and> length rs \<le> RETRY_COUNT + 2 \<and>
     es \<in> set ([MaintEvent MAINT_RFC_INPROGRESS] # outcomes) \<and> (rs \<noteq> [] \<longrightarrow>
     (let w1 = (if is_rdkb (plat S) then waitForRfcCompletion S w else w);
          (busy, w2) = CurrentRunningInst S N w1
      in \<not> busy \<and> fst (CheckDeviceIsOnline S N w2) = RFCMGR_DEVICE_ONLINE))"
proof -
  define w1 where "w1 = (if is_rdkb (plat S) then waitForRfcCompletion S w else w)"
  define w2 where "w2 = snd (CurrentRunningInst S N w1)"
  define w3 where "w3 = snd (CheckDeviceIsOnline S N w2)"
  have r2: "traffic w2 = traffic w"
    by (simp add: w1_def w2_def waitForRfcCompletion_traffic CurrentRunningInst_traffic)
  have clean: "traffic (cleanup_lock_file v) = traffic v" for v :: "'a world"
    by (simp add: cleanup_lock_file_def)
  show ?thesis
  proof (cases "\<not> fst (CurrentRunningInst S N w1) \<and> fst (CheckDeviceIsOnline S N w2) = RFCMGR_DEVICE_ONLINE \<and>
      createDirectoryIfNotExists N ''/opt/secure/RFC'' w")
    case True
    with assms obtain w4 where w4: "online_run S N w3 = Inr w4" "w' = cleanup_lock_file w4"
      by (auto simp: main_def Let_def case_prod_beta w1_def w2_def w3_def)
    have "traffic w3 = traffic w"
      using True r2 by (auto simp: w3_def CheckDeviceIsOnline_traffic)
        (simp add: CheckDeviceIsOnline_def case_prod_beta Let_def split: if_splits)
    with online_run_traffic [OF w4(1)] obtain rs es where "traffic w' = traffic w @ rs @ es" "length rs \<le> RETRY_COUNT + 2"
        "list_all is_request rs" "es \<in> set outcomes" by (auto simp: w4(2) clean)
    with True show ?thesis
      by (intro exI [of _ rs] exI [of _ es]) (simp add: w1_def [symmetric] w2_def [symmetric] case_prod_beta Let_def)
  next
    case False
    then have "\<exists>es. traffic w' = traffic w @ es \<and> es \<in> set ([MaintEvent MAINT_RFC_INPROGRESS] # outcomes)"
      using assms r2 outcome_events_outcomes(2,3)
      by (auto simp: main_def Let_def case_prod_beta w1_def [symmetric] w2_def [symmetric] clean
          CheckDeviceIsOnline_traffic split: if_splits)
    then obtain es where "traffic w' = traffic w @ [] @ es" "es \<in> set ([MaintEvent MAINT_RFC_INPROGRESS] # outcomes)" by auto
    then show ?thesis by (intro exI [of _ "[]"] exI [of _ es]) simp
  qed
qed

text \<open>C5: on a set-top box a run that could be initialised reports its result exactly once: completion, with
  the two further events when a changed value requires a reboot, for success and an error otherwise.  A
  run that could not be initialised makes no request and reports nothing.\<close>

theorem outcome_reported:
  assumes "plat S = STB" "RFCManagerProcess S p = Inr (rc, q)" "RFCKeyAndValueMap p = []"
    "InitializeRuntimeFeatureControlProcessor S p = Inr (r0, p1)"
  shows "filter is_event (traffic q) = filter is_event (traffic p) @ map MaintEvent
     (if r0 = FAILURE then [] else if rc \<noteq> SUCCESS then [MAINT_RFC_ERROR]
      else if isRebootRequired q then [MAINT_RFC_COMPLETE, MAINT_CRITICAL_UPDATE, MAINT_REBOOT_REQUIRED]
      else [MAINT_RFC_COMPLETE])"
proof -
  from RFCManagerProcess_traffic [OF assms(2)] assms(3,4) obtain rs where
      t: "traffic q = traffic p @ rs @ (if r0 = FAILURE then [] else outcome_events S rc (isRebootRequired q))"
        "list_all is_request rs" by (auto simp: map_wf_def)
  have "filter is_event rs = []" using t(2) by (induction rs) (auto elim: is_request.elims)
  then show ?thesis using t(1) assms(1) by (simp add: outcome_events_def)
qed

text \<open>A camera with an address, a properties file and a server that has nothing new.\<close>

definition cam_server :: "refenv sys" where
  "cam_server = (ref_sys RDKC (\<lambda>_. None))\<lparr>xconf_download := (\<lambda>e u h t. (e, 0, 304, [], []))\<rparr>"

definition cam_world :: "refenv world" where
  "cam_world = ref_world\<lparr>files := [RFC_PROPERTIES_FILE \<mapsto> ''RFC_CONFIG_SERVER_URL=h'']\<rparr>"

lemma cam_server_plat [simp]: "plat cam_server = RDKC"
  by (simp add: cam_server_def ref_sys_def)

lemma cam_server_unmodified: "always_unmodified cam_server"
  by (simp add: always_unmodified_def cam_server_def ref_sys_def)

lemma cam_initialises:
  assumes "files w RFC_PROPERTIES_FILE = Some ''RFC_CONFIG_SERVER_URL=h''" "files w ''/opt/rfc.properties'' = None"
    "env w = ref_env0"
  shows "\<exists>p. InitializeRuntimeFeatureControlProcessor cam_server (new_processor w) = Inr (SUCCESS, p) \<and>
     \<not> url_validation_in_progress p \<and> env p = ref_env0 \<and> files p = files w \<and> ebuild_type p = ePROD"
proof -
  have "getlines ''RFC_CONFIG_SERVER_URL=h'' = [''RFC_CONFIG_SERVER_URL=h'']" by (rule getlines_last) simp_all
  then show ?thesis
    using assms
    by (simp add: InitializeRuntimeFeatureControlProcessor_def initializeXconfHandler_def Let_def
        GetRFCPartnerID_def checkWhoamiSupport_def init_choose_def file_present_def init_server_def GetServURL_def
        prefix_values_def GetExperience_def query_experience_def init_ids_def GetLastProcessedFirmware_def
        GetAccountID_def GetOsClass_def read_RFCProperty_def ref_sys_def cam_server_def new_processor_def ref_env0_def
        RFC_PROPERTIES_PERSISTENCE_FILE_def world.defs proc.defs split: option.splits)
qed

lemma cam_requests:
  assumes "\<not> url_validation_in_progress p" "env p = ref_env0" "files p DIRECT_BLOCK_FILENAME = None" "ebuild_type p = ePROD"
  shows "\<exists>q. ProcessRuntimeFeatureControlReq cam_server p = Inr (SUCCESS, q)"
proof -
  let ?p1 = "p\<lparr>rfcSelectOpt := (if rfc_state p = Local then ''local'' else ''prod'')\<rparr>"
  have "isSecureDbgSrvUnlocked cam_server ?p1 = Inr (False, ?p1)"
    using assms
    by (simp add: isSecureDbgSrvUnlocked_def isDebugServicesEnabled_def getDeviceTypeRFC_def read_RFCProperty_def
        cam_server_def ref_sys_def ref_env0_def RFC_VALUE_BUF_SIZE_def)
  then have "ProcessRuntimeFeatureControlReq cam_server p = request_loop cam_server False 0 ?p1"
    using assms(3) by (simp add: ProcessRuntimeFeatureControlReq_def IsDirectBlocked_def file_present_def)
  with bus_loop_unmodified [OF _ cam_server_unmodified, of ?p1 False] assms(1) show ?thesis by auto
qed

lemma cam_runs: "\<exists>w'. main cam_server ref_os cam_world = Inr (0, w')"
proof -
  let ?w = "write_file cam_server RFC_MGR_SERVICE_LOCK_FILE [] cam_world"
  have f: "fopen_w cam_server e p" for e p by (simp add: cam_server_def ref_sys_def)
  have w: "files ?w RFC_PROPERTIES_FILE = Some ''RFC_CONFIG_SERVER_URL=h''" "files ?w ''/opt/rfc.properties'' = None"
      "env ?w = ref_env0" "files ?w DIRECT_BLOCK_FILENAME = None"
    by (simp_all add: cam_world_def write_file_files f path_defs ref_world_def)
  from cam_initialises [OF w(1-3)] obtain p where p:
      "InitializeRuntimeFeatureControlProcessor cam_server (new_processor ?w) = Inr (SUCCESS, p)"
      "\<not> url_validation_in_progress p" "env p = ref_env0" "files p = files ?w" "ebuild_type p = ePROD" by blast
  from cam_requests [OF p(2,3) _ p(5)] w(4) p(4) obtain q where
    q: "ProcessRuntimeFeatureControlReq cam_server p = Inr (SUCCESS, q)" by auto
  have "has_address ref_os (env ?w)" by (simp add: has_address_def ref_os_def)
  then have "ip_poll cam_server ref_os (Suc 29) ?w = (True, ?w)" by (simp only: ip_poll.simps if_True)
  moreover have "Suc 29 = 30" by simp
  ultimately have "WaitForIpAcquisition cam_server ref_os ?w = (True, ?w)" unfolding WaitForIpAcquisition_def by metis
  then have online: "CheckDeviceIsOnline cam_server ref_os ?w = (RFCMGR_DEVICE_ONLINE, ?w)"
    by (simp add: CheckDeviceIsOnline_def)
  have lock: "CurrentRunningInst cam_server ref_os cam_world = (False, ?w)"
    by (simp add: CurrentRunningInst_def f file_present_def ref_os_def cam_world_def ref_world_def path_defs)
  have dir: "createDirectoryIfNotExists ref_os ''/opt/secure/RFC'' cam_world"
    by (simp add: createDirectoryIfNotExists_def ref_os_def)
  have "\<exists>w4. online_run cam_server ref_os ?w = Inr w4"
    by (simp add: online_run_def RFCManagerProcessXconfRequest_def RFCManagerProcess_def p(1) q case_prod_beta Let_def)
  then obtain w4 where "online_run cam_server ref_os ?w = Inr w4" ..
  then show ?thesis by (simp add: main_def dir lock online)
qed

theorem manager_requests_bounded_witness:
  "\<exists>w' rs es. main cam_server ref_os cam_world = Inr (0, w') \<and> traffic w' = traffic cam_world @ rs @ es \<and>
     length rs \<le> RETRY_COUNT + 2"
  using cam_runs manager_requests_bounded by blast

text \<open>A set-top box whose parameter service does not answer and that is blocked by an earlier failure.\<close>

definition blocked_files :: "string \<rightharpoonup> string" where
  "blocked_files = [DIRECT_BLOCK_FILENAME \<mapsto> [], RFC_PROPERTIES_FILE \<mapsto> ''RFC_CONFIG_SERVER_URL=h'']"

definition blocked_stb :: "refenv proc" where
  "blocked_stb = (ref_proc ref_env0 blocked_files Invalid)\<lparr>http_ready := True\<rparr>"

definition stays_blocked :: "refenv proc \<Rightarrow> bool" where
  "stays_blocked p \<longleftrightarrow> http_ready p \<and> env p = ref_env0 \<and> files p = blocked_files"

lemma silent_read:
  "http_ready p \<Longrightarrow> k \<noteq> [] \<Longrightarrow> last k \<noteq> CHR ''.'' \<Longrightarrow> 0 < n \<Longrightarrow>
     read_RFCProperty ref_stb t k b n p = Inr (READ_RFC_FAILURE, [], p)" for p :: "refenv proc"
  by (simp add: read_RFCProperty_def getRFCParameter_def hostif_request_def is_wildcard_def ref_sys_def Let_def)

lemma silent_bootstrap:
  "stays_blocked p \<Longrightarrow> n < 10 \<Longrightarrow> \<exists>q. bootstrap_url_loop ref_stb n b p = Inr (-1, None, q) \<and> stays_blocked q"
proof (induction "9 - n" arbitrary: n b p)
  case 0
  then show ?case
    by (subst bootstrap_url_loop.simps) (simp add: silent_read stays_blocked_def BOOTSTRAP_XCONF_URL_KEY_STR_def ref_plat)
next
  case (Suc m)
  then have n: "n < 9" "m = 9 - Suc n" by simp_all
  have "stays_blocked (do_sleep ref_stb 10 p)" using Suc.prems(1) by (simp add: stays_blocked_def ref_sys_def)
  with Suc(1) [OF n(2), of "do_sleep ref_stb 10 p" "[]"] n(1) obtain q where
      "bootstrap_url_loop ref_stb (Suc n) [] (do_sleep ref_stb 10 p) = Inr (-1, None, q)" "stays_blocked q" by auto
  moreover have "read_RFCProperty ref_stb ''XconfUrl'' (BOOTSTRAP_XCONF_URL_KEY_STR (plat ref_stb)) b 1024 p =
      Inr (READ_RFC_FAILURE, [], p)"
    using Suc.prems(1) by (intro silent_read) (simp_all add: stays_blocked_def BOOTSTRAP_XCONF_URL_KEY_STR_def ref_plat)
  ultimately show ?case using n(1) by (subst bootstrap_url_loop.simps) simp
qed

lemma blocked_stb_initialises:
  assumes "stays_blocked p"
  shows "\<exists>q. InitializeRuntimeFeatureControlProcessor ref_stb p = Inr (SUCCESS, q) \<and> stays_blocked q \<and> ebuild_type q = ePROD"
proof -
  obtain q where q: "bootstrap_url_loop ref_stb 0 [] p = Inr (-1, None, q)" "stays_blocked q"
    using silent_bootstrap [OF assms, of 0 "[]"] by auto
  obtain p2 where p2: "initializeXconfHandler ref_stb q = (0, p2)" "stays_blocked p2" "ebuild_type p2 = ePROD"
    using q(2) by (auto simp: initializeXconfHandler_def Let_def ref_sys_def stays_blocked_def)
  obtain p3 where p3: "GetRFCPartnerID ref_stb p2 = Inr ((), p3)" "stays_blocked p3" "ebuild_type p3 = ePROD"
    using p2(2,3) by (auto simp: GetRFCPartnerID_def checkWhoamiSupport_def ref_sys_def stays_blocked_def ref_env0_def)
  have p4: "init_choose ref_stb p3 = Inr (RFC_PROPERTIES_FILE, p3\<lparr>rfc_state := Init\<rparr>)"
    using p3(2) by (simp add: init_choose_def Let_def file_present_def stays_blocked_def blocked_files_def ref_plat
        RFC_PROPERTIES_PERSISTENCE_FILE_def path_defs)
  have "getlines ''RFC_CONFIG_SERVER_URL=h'' = [''RFC_CONFIG_SERVER_URL=h'']" by (rule getlines_last) simp_all
  then obtain p5 where p5: "GetServURL ref_stb RFC_PROPERTIES_FILE (p3\<lparr>rfc_state := Init\<rparr>) = (SUCCESS, p5)" "stays_blocked p5"
      "ebuild_type p5 = ePROD"
    using p3(2,3) by (auto simp: GetServURL_def Let_def stays_blocked_def blocked_files_def ref_plat prefix_values_def path_defs)
  obtain p6 where p6: "GetExperience ref_stb p5 = Inr (3, p6)" "stays_blocked p6" "ebuild_type p6 = ePROD"
    using p5(2,3) by (auto simp: GetExperience_def query_experience_def ref_sys_def stays_blocked_def)
  have "GetLastProcessedFirmware RFC_LAST_VERSION p6 = (FAILURE, p6)"
    using p6(2) by (simp add: GetLastProcessedFirmware_def stays_blocked_def blocked_files_def path_defs)
  moreover have "GetAccountID ref_stb p6 = Inr ((), p6)"
    using p6(2) by (simp add: GetAccountID_def silent_read stays_blocked_def path_defs)
  moreover have "GetOsClass ref_stb p6 = Inr ((), p6)"
    using p6(2) by (simp add: GetOsClass_def checkWhoamiSupport_def ref_sys_def stays_blocked_def ref_env0_def)
  ultimately obtain b where "init_ids ref_stb p6 = Inr (SUCCESS, p6\<lparr>is_first_request := b\<rparr>)"
    by (simp add: init_ids_def Let_def ref_plat)
  with q(1) p2(1) p3(1) p4 p5(1) p6 show ?thesis
    by (auto simp: InitializeRuntimeFeatureControlProcessor_def GetBootstrapXconfUrl_def init_server_def ref_plat stays_blocked_def)
qed

lemma blocked_stb_fails:
  assumes "stays_blocked p" "ebuild_type p = ePROD"
  shows "\<exists>q. ProcessRuntimeFeatureControlReq ref_stb p = Inr (FAILURE, q)"
proof -
  let ?p = "p\<lparr>rfcSelectOpt := (if rfc_state p = Local then ''local'' else ''prod'')\<rparr>"
  have b: "IsDirectBlocked ref_stb ?p = (True, ?p)"
    using assms(1) by (simp add: IsDirectBlocked_def file_present_def stays_blocked_def blocked_files_def ref_sys_def
        ref_env0_def path_defs)
  have "isDebugServicesEnabled ref_stb ?p = Inr (False, ?p)" "\<exists>d. getDeviceTypeRFC ref_stb 16 ?p = Inr (d, ?p)"
    using assms(1) by (simp_all add: isDebugServicesEnabled_def getDeviceTypeRFC_def silent_read stays_blocked_def
        RFC_VALUE_BUF_SIZE_def path_defs strncmp_eq_def cstr_def)
  then have "\<exists>u. isSecureDbgSrvUnlocked ref_stb ?p = Inr (u, ?p)"
    using assms(2) by (auto simp: isSecureDbgSrvUnlocked_def Let_def)
  with b show ?thesis by (auto simp: ProcessRuntimeFeatureControlReq_def Let_def)
qed

theorem outcome_reported_witness:
  "\<exists>q. RFCManagerProcess ref_stb blocked_stb = Inr (FAILURE, q) \<and>
     filter is_event (traffic q) = [MaintEvent MAINT_RFC_ERROR]"
proof -
  have "stays_blocked blocked_stb" by (simp add: stays_blocked_def blocked_stb_def ref_proc_def)
  then obtain p1 where p1: "InitializeRuntimeFeatureControlProcessor ref_stb blocked_stb = Inr (SUCCESS, p1)"
      "stays_blocked p1" "ebuild_type p1 = ePROD" using blocked_stb_initialises by blast
  obtain p2 where "ProcessRuntimeFeatureControlReq ref_stb p1 = Inr (FAILURE, p2)" using blocked_stb_fails [OF p1(2,3)] by blast
  then obtain q where q: "RFCManagerProcess ref_stb blocked_stb = Inr (FAILURE, q)"
    using p1(1) by (auto simp: RFCManagerProcess_def report_result_def ref_plat case_prod_beta Let_def)
  have "RFCKeyAndValueMap blocked_stb = []" "traffic blocked_stb = []"
    by (simp_all add: blocked_stb_def ref_proc_def traffic_def)
  with outcome_reported [OF ref_plat q _ p1(1)] q show ?thesis by auto
qed

end
