(* ===== verification/Rfc_Lock.thy ===== *)
theory Rfc_Lock
  imports Rfc_Prelude
begin

text \<open>
  Several instances of the manager and their lock file.  Each instance opens the file (creating it
  when the name is free), tries to lock what it opened, and either runs or is turned away; when the
  file cannot be opened the test for a running instance answers no and the instance runs without a
  lock.  On every exit the handler registered in \<open>main\<close> removes the name of the file, whoever
  holds the lock; a signal removes it once more.  A lock belongs to the file that was opened, not to
  its name.  The interleavings of the instances are a step relation.  Shown here: as long as nobody
  has exited and every running instance holds a lock at most one runs; an instance that could not
  open the file runs beside another; an instance that is turned away removes the name of the file,
  after which any instance not yet started can run beside the one that holds the lock.
\<close>

section \<open>The machine\<close>

text \<open>What an instance is doing.  \<open>Opened\<close> carries the file it opened (an inode number); the phases after
  the test carry the lock it holds, if any.\<close>

datatype phase = Starting | Opened nat | Running "nat option" | Turned_Away
  | Signalled "nat option" | Leaving "nat option" | Gone

record lock_state =
  lock_name :: "nat option"
  next_file :: nat
  phase_of :: "nat \<Rightarrow> phase"

fun holds :: "phase \<Rightarrow> nat option" where
  "holds (Running h) = h"
| "holds (Signalled h) = h"
| "holds (Leaving h) = h"
| "holds _ = None"

fun exited :: "phase \<Rightarrow> bool" where
  "exited (Signalled _) = True"
| "exited (Leaving _) = True"
| "exited Gone = True"
| "exited _ = False"

definition locked :: "lock_state \<Rightarrow> nat \<Rightarrow> bool" where
  "locked s i \<longleftrightarrow> (\<exists>p. holds (phase_of s p) = Some i)"

definition set_phase :: "nat \<Rightarrow> phase \<Rightarrow> lock_state \<Rightarrow> lock_state" where
  "set_phase p ph s = s\<lparr>phase_of := (phase_of s)(p := ph)\<rparr>"

text \<open>\<open>cleanup_lock_file\<close> removes the name, whatever file it stands for.\<close>

definition unlink_name :: "lock_state \<Rightarrow> lock_state" where
  "unlink_name s = s\<lparr>lock_name := None\<rparr>"

definition no_instance :: lock_state where
  "no_instance = \<lparr>lock_name = None, next_file = 0, phase_of = \<lambda>_. Starting\<rparr>"

text \<open>The rules, in the order of the code: \<open>open\<close> finds the file, creates it, or fails; \<open>flock\<close> succeeds only
  when nobody holds the file, and is refused when somebody does or for a reason of the system; the
  process returns from \<open>main\<close> (\<open>finish\<close>, \<open>give_up\<close>), exits because the directory cannot be made
  (\<open>abort\<close>), or handles a signal, and its exit handler removes the name; the lock goes with the process.
  A process that is killed runs no handler.\<close>

inductive lock_step :: "lock_state \<Rightarrow> lock_state \<Rightarrow> bool" where
  abort: "phase_of s p = Starting \<Longrightarrow> lock_step s (set_phase p (Leaving None) (unlink_name s))"
| open_found: "phase_of s p = Starting \<Longrightarrow> lock_name s = Some i \<Longrightarrow> lock_step s (set_phase p (Opened i) s)"
| open_new: "phase_of s p = Starting \<Longrightarrow> lock_name s = None \<Longrightarrow>
    lock_step s (set_phase p (Opened (next_file s)) (s\<lparr>lock_name := Some (next_file s), next_file := Suc (next_file s)\<rparr>))"
| open_fails: "phase_of s p = Starting \<Longrightarrow> lock_step s (set_phase p (Running None) s)"
| take: "phase_of s p = Opened i \<Longrightarrow> \<not> locked s i \<Longrightarrow> lock_step s (set_phase p (Running (Some i)) s)"
| refuse: "phase_of s p = Opened i \<Longrightarrow> lock_step s (set_phase p Turned_Away s)"
| finish: "phase_of s p = Running h \<Longrightarrow> lock_step s (set_phase p (Leaving h) (unlink_name s))"
| give_up: "phase_of s p = Turned_Away \<Longrightarrow> lock_step s (set_phase p (Leaving None) (unlink_name s))"
| signal: "\<not> exited (phase_of s p) \<Longrightarrow>
    lock_step s (set_phase p (Signalled (holds (phase_of s p))) (unlink_name s))"
| after_signal: "phase_of s p = Signalled h \<Longrightarrow> lock_step s (set_phase p (Leaving h) (unlink_name s))"
| release: "phase_of s p = Leaving h \<Longrightarrow> lock_step s (set_phase p Gone s)"
| killed: "lock_step s (set_phase p Gone s)"

inductive_cases lock_step_E: "lock_step s s'"

inductive lock_reach :: "lock_state \<Rightarrow> bool" where
  start: "lock_reach no_instance"
| step: "lock_reach s \<Longrightarrow> lock_step s s' \<Longrightarrow> lock_reach s'"

lemma set_phase_simps [simp]:
  "lock_name (set_phase p ph s) = lock_name s" "next_file (set_phase p ph s) = next_file s"
  "phase_of (set_phase p ph s) q = (if q = p then ph else phase_of s q)"
  by (simp_all add: set_phase_def)

lemma unlink_name_simps [simp]:
  "lock_name (unlink_name s) = None" "next_file (unlink_name s) = next_file s" "phase_of (unlink_name s) = phase_of s"
  by (simp_all add: unlink_name_def)

section \<open>Exclusion while nobody has exited\<close>

text \<open>As long as nobody has exited every instance that opened the file works on the one file of that name.\<close>

definition lock_inv :: "lock_state \<Rightarrow> bool" where
  "lock_inv s \<longleftrightarrow> (\<exists>p. exited (phase_of s p)) \<or>
     ((\<forall>p i. phase_of s p = Opened i \<or> phase_of s p = Running (Some i) \<longrightarrow> lock_name s = Some i) \<and>
      (\<forall>p q i j. phase_of s p = Running (Some i) \<longrightarrow> phase_of s q = Running (Some j) \<longrightarrow> p = q))"

lemma exited_stays: "lock_step s s' \<Longrightarrow> exited (phase_of s p) \<Longrightarrow> exited (phase_of s' p)"
  by (erule lock_step_E) auto

lemma holds_not_exited: "\<not> exited ph \<Longrightarrow> holds ph = Some i \<longleftrightarrow> ph = Running (Some i)"
  by (cases ph) auto

lemma lock_inv_step:
  assumes step: "lock_step s s'" and inv: "lock_inv s"
  shows "lock_inv s'"
proof (cases "\<exists>p. exited (phase_of s' p)")
  case False
  have "\<not> (\<exists>p. exited (phase_of s p))" using False exited_stays [OF step] by blast
  with inv have name: "phase_of s p = Opened i \<or> phase_of s p = Running (Some i) \<Longrightarrow> lock_name s = Some i"
    and one: "phase_of s p = Running (Some i) \<Longrightarrow> phase_of s q = Running (Some j) \<Longrightarrow> p = q" for p q i j
    by (auto simp: lock_inv_def)
  from step show ?thesis
  proof cases
    case (take p i)
    from take(2) have n: "lock_name s = Some i" by (rule name [OF disjI1])
    have idle: "phase_of s q \<noteq> Running (Some j)" for q j
      using take(3) n name [of q j] by (auto simp: locked_def dest!: spec [of _ q])
    have opened: "phase_of s q = Opened j \<Longrightarrow> j = i" for q j using n name [of q j] by simp
    show ?thesis using take(1) idle opened n by (auto simp: lock_inv_def)
  next
    case (open_new p)
    have "phase_of s q \<noteq> Opened j" "phase_of s q \<noteq> Running (Some j)" for q j
      using open_new(3) name [of q j] by auto
    with open_new show ?thesis by (auto simp: lock_inv_def)
  qed (use False name one in \<open>auto simp: lock_inv_def split: if_splits\<close>)
qed (simp add: lock_inv_def)

lemma lock_inv_reach: "lock_reach s \<Longrightarrow> lock_inv s"
proof (induction rule: lock_reach.induct)
  case start
  show ?case by (simp add: lock_inv_def no_instance_def)
next
  case (step s s')
  then show ?case by (blast intro: lock_inv_step)
qed

section \<open>Fresh files\<close>

text \<open>The file that \<open>open\<close> creates is one that nobody has opened or locked.\<close>

definition fresh_inv :: "lock_state \<Rightarrow> bool" where
  "fresh_inv s \<longleftrightarrow> (\<forall>p i. phase_of s p = Opened i \<or> holds (phase_of s p) = Some i \<longrightarrow> i < next_file s) \<and>
     (\<forall>i. lock_name s = Some i \<longrightarrow> i < next_file s)"

lemma fresh_inv_step:
  assumes "lock_step s s'" "fresh_inv s"
  shows "fresh_inv s'"
proof -
  have old: "phase_of s p = Opened i \<Longrightarrow> i < next_file s" "holds (phase_of s p) = Some i \<Longrightarrow> i < next_file s"
    "lock_name s = Some i \<Longrightarrow> i < next_file s" for p i
    using assms(2) by (auto simp: fresh_inv_def)
  have held: "phase_of s p = Running (Some i) \<Longrightarrow> i < next_file s" "phase_of s p = Signalled (Some i) \<Longrightarrow> i < next_file s" for p i
    using old(2) [of p i] by auto
  from assms(1) show ?thesis
    by cases (auto simp: fresh_inv_def less_Suc_eq split: if_splits dest: old held)
qed

lemma fresh_inv_reach: "lock_reach s \<Longrightarrow> fresh_inv s"
proof (induction rule: lock_reach.induct)
  case start
  show ?case by (simp add: fresh_inv_def no_instance_def)
next
  case (step s s')
  then show ?case by (blast intro: fresh_inv_step)
qed

lemma fresh_unlocked: "fresh_inv s \<Longrightarrow> \<not> locked s (next_file s)"
  by (auto simp: fresh_inv_def locked_def)

text \<open>While the name is free an instance that starts runs, whoever else does.\<close>

definition beside :: "nat \<Rightarrow> lock_state \<Rightarrow> lock_state" where
  "beside r s = set_phase r (Running (Some (next_file s)))
     (set_phase r (Opened (next_file s)) (s\<lparr>lock_name := Some (next_file s), next_file := Suc (next_file s)\<rparr>))"

lemma beside_simps [simp]: "phase_of (beside r s) q = (if q = r then Running (Some (next_file s)) else phase_of s q)"
  by (simp add: beside_def)

lemma beside_steps:
  assumes "fresh_inv s" "phase_of s r = Starting" "lock_name s = None"
  shows "lock_step\<^sup>*\<^sup>* s (beside r s)"
proof -
  let ?o = "set_phase r (Opened (next_file s)) (s\<lparr>lock_name := Some (next_file s), next_file := Suc (next_file s)\<rparr>)"
  have "\<not> locked ?o (next_file s)"
    using fresh_unlocked [OF assms(1)] by (auto simp: locked_def)
  then have "lock_step ?o (beside r s)" unfolding beside_def by (intro take) auto
  moreover have "lock_step s ?o" using assms(2,3) by (rule open_new)
  ultimately show ?thesis by (meson rtranclp.simps)
qed

section \<open>Concrete states\<close>

text \<open>The first instance runs; a second one is turned away; or the second could not open the file.\<close>

definition first_runs :: lock_state where
  "first_runs = beside 0 no_instance"

definition second_refused :: lock_state where
  "second_refused = set_phase 1 Turned_Away (set_phase 1 (Opened 0) first_runs)"

lemma first_runs_simps [simp]:
  "lock_name first_runs = Some 0" "next_file first_runs = Suc 0"
  "phase_of first_runs p = (if p = 0 then Running (Some 0) else Starting)"
  by (simp_all add: first_runs_def beside_def no_instance_def)

lemma lock_reach_steps: "lock_step\<^sup>*\<^sup>* s t \<Longrightarrow> lock_reach s \<Longrightarrow> lock_reach t"
  by (induction rule: rtranclp_induct) (auto intro: lock_reach.step)

lemma first_runs_reach: "lock_reach first_runs"
  unfolding first_runs_def
  by (rule lock_reach_steps [OF beside_steps lock_reach.start])
     (simp_all add: fresh_inv_reach [OF lock_reach.start], simp_all add: no_instance_def)

lemma second_refused_simps [simp]:
  "lock_name second_refused = Some 0" "next_file second_refused = Suc 0"
  "phase_of second_refused p = (if p = 0 then Running (Some 0) else if p = 1 then Turned_Away else Starting)"
  by (simp_all add: second_refused_def)

lemma second_refused_reach: "lock_reach second_refused"
proof -
  have "lock_step first_runs (set_phase 1 (Opened 0) first_runs)" by (rule open_found) auto
  moreover have "lock_step (set_phase 1 (Opened 0) first_runs) second_refused"
    unfolding second_refused_def by (rule refuse [of _ _ 0]) simp
  ultimately show ?thesis using first_runs_reach lock_reach.step by blast
qed

text \<open>An instance whose \<open>open\<close> fails is not turned away: beside the one that holds the lock it runs, and
  nobody has exited.\<close>

lemma failed_open_runs:
  assumes "lock_reach s" "phase_of s p = Running h" "phase_of s q = Starting" "\<not> (\<exists>r. exited (phase_of s r))"
  shows "\<exists>t. lock_step s t \<and> lock_reach t \<and> phase_of t p = Running h \<and> phase_of t q = Running None \<and>
    \<not> (\<exists>r. exited (phase_of t r))"
proof -
  let ?t = "set_phase q (Running None) s"
  have "lock_step s ?t" using assms(3) by (rule open_fails)
  moreover have "phase_of ?t p = Running h" using assms(2,3) by auto
  moreover have "\<not> (\<exists>r. exited (phase_of ?t r))" using assms(4) by simp
  ultimately show ?thesis using lock_reach.step [OF assms(1)] by (intro exI [of _ ?t]) auto
qed

section \<open>Properties\<close>

text \<open>C12: in every interleaving, as long as no instance has exited and none of the running ones had its
  opening of the lock file fail, at most one instance is running.  (An instance whose opening fails runs
  without a lock, beside whichever instance holds it: lemma \<open>failed_open_runs\<close>.)\<close>

theorem lock_excludes_before_exit:
  assumes "lock_reach s" "\<not> (\<exists>r. exited (phase_of s r))" "\<forall>r. phase_of s r \<noteq> Running None"
    "phase_of s p = Running h" "phase_of s q = Running k"
  shows "p = q"
  using lock_inv_reach [OF assms(1)] assms(2-5) by (cases h; cases k) (auto simp: lock_inv_def)

theorem lock_excludes_before_exit_witness:
  "phase_of first_runs 0 = Running (Some 0) \<and> \<not> (\<exists>k. phase_of first_runs 1 = Running k)"
proof -
  have live: "\<not> (\<exists>p. exited (phase_of first_runs p))" "\<forall>p. phase_of first_runs p \<noteq> Running None"
    "phase_of first_runs 0 = Running (Some 0)" by auto
  have "\<not> (\<exists>k. phase_of first_runs 1 = Running k)"
  proof
    assume "\<exists>k. phase_of first_runs 1 = Running k"
    then obtain k where "phase_of first_runs 1 = Running k" ..
    from lock_excludes_before_exit [OF first_runs_reach live this] show False by simp
  qed
  with live show ?thesis by simp
qed

text \<open>C24: whenever one instance runs under the lock, a second has been turned away and a third has not
  yet started, the second can exit, and whatever step it exits by removes the name of the lock file
  although the first still holds the file; from there the third gets a lock of its own, on a new file, and
  runs while the first is running.\<close>

theorem turned_away_breaks_lock:
  assumes "lock_reach s" "phase_of s p = Running (Some i)" "phase_of s q = Turned_Away" "phase_of s r = Starting"
  shows "(\<exists>s1. lock_step s s1 \<and> phase_of s1 q = Leaving None) \<and>
    (\<forall>s1. lock_step s s1 \<longrightarrow> phase_of s1 q = Leaving None \<longrightarrow>
       lock_name s1 = None \<and> phase_of s1 p = Running (Some i) \<and>
       (\<exists>t j. lock_step\<^sup>*\<^sup>* s1 t \<and> phase_of t p = Running (Some i) \<and> phase_of t r = Running (Some j) \<and> j \<noteq> i))"
proof (intro conjI allI impI)
  show "\<exists>s1. lock_step s s1 \<and> phase_of s1 q = Leaving None"
    by (rule exI [of _ "set_phase q (Leaving None) (unlink_name s)"]) (simp add: give_up assms(3))
next
  fix s1 assume step: "lock_step s s1" and left: "phase_of s1 q = Leaving None"
  then have s1: "s1 = set_phase q (Leaving None) (unlink_name s)"
    using assms(3) by cases (auto split: if_splits)
  have distinct: "p \<noteq> q" "r \<noteq> q" "p \<noteq> r" using assms(2-4) by auto
  have fresh: "fresh_inv s1" using fresh_inv_step [OF step fresh_inv_reach [OF assms(1)]] .
  have free: "lock_name s1 = None" and runs: "phase_of s1 p = Running (Some i)" and new: "phase_of s1 r = Starting"
    using s1 distinct assms(2,4) by auto
  have "locked s1 i" unfolding locked_def by (rule exI [of _ p]) (simp add: runs)
  then have "next_file s1 \<noteq> i" using fresh_unlocked [OF fresh] by blast
  then show "\<exists>t j. lock_step\<^sup>*\<^sup>* s1 t \<and> phase_of t p = Running (Some i) \<and> phase_of t r = Running (Some j) \<and> j \<noteq> i"
    using beside_steps [OF fresh new free] runs distinct(3)
    by (intro exI [of _ "beside r s1"] exI [of _ "next_file s1"]) auto
  show "lock_name s1 = None" "phase_of s1 p = Running (Some i)" by (fact free, fact runs)
qed

theorem turned_away_breaks_lock_witness:
  "lock_reach second_refused \<and> phase_of second_refused 0 = Running (Some 0) \<and>
   (\<exists>s1. lock_step second_refused s1 \<and> phase_of s1 1 = Leaving None \<and> lock_name s1 = None \<and>
     (\<exists>t j. lock_step\<^sup>*\<^sup>* s1 t \<and> phase_of t 0 = Running (Some 0) \<and> phase_of t 2 = Running (Some j) \<and> j \<noteq> 0))"
  using turned_away_breaks_lock [OF second_refused_reach, of 0 0 1 2] second_refused_reach by auto

end
