(* ===== verification/Config_Target.thy ===== *)
theory Config_Target
  imports Rfc_Request
begin

text \<open>
  Applying the configuration entries of an answer, independently of how parameters are reached.  The
  locale \<open>config_target\<close> states what the code relies on: one entry that can be set holds its value
  afterwards and touches no other parameter, the store can be cleared before and closed after the entries,
  and a parameter that holds a value reads back.  From this follows, once for all platforms, that
  every entry of a processed answer reads back with the value it had there last.  It is interpreted for rbus
  in \<open>Rfc_Apply\<close> and for the parameter service of the set-top box in \<open>Rfc_Host\<close>.
\<close>

section \<open>The change test\<close>

text \<open>The comparison writes unless the value already reads as the new one.\<close>

lemma change_test:
  assumes "read_RFCProperty S n k [] 4096 p = Inr (case cur of
      None \<Rightarrow> (READ_RFC_FAILURE, [], p1) | Some v \<Rightarrow> (READ_RFC_SUCCESS, v, p1))"
    "\<not> (str_contains k RFC_ACCOUNT_ID_KEY_STR \<and> StringCaseCompare v ''Unknown'')"
  shows "\<exists>changed c. isConfigValueChange S n k v c0 p = Inr ((changed, v, c), p1) \<and> (\<not> changed \<longrightarrow> cur = Some v)"
proof (cases cur)
  case None
  with assms(1) show ?thesis by (auto simp: isConfigValueChange_def)
next
  case (Some u)
  let ?b = "\<not> checkBootstrap BS_STORE_FILENAME k p1 \<and> \<not> str_contains k ''.X_RDKCENTRAL-COM_RFC.''"
  have "isConfigValueChange S n k v c0 p = Inr ((?b \<longrightarrow> v \<noteq> u, v, u), p1)"
    using assms Some by (auto simp: isConfigValueChange_def Let_def)
  with Some show ?thesis by blast
qed

lemma value_changed_env [simp]:
  "env (value_changed S k v c p) = env p" "http_ready (value_changed S k v c p) = http_ready p"
  by (simp_all add: value_changed_def Let_def do_system_def NotifyTelemetry2Count_def)

text \<open>The server the run uses, which the processing of entries other than its URL leaves alone.\<close>

definition endpoint :: "'e proc \<Rightarrow> string \<times> string" where
  "endpoint p = (rfcSelectOpt p, xconf_server_url p)"

lemma endpoint_more: "world.more q = world.more p \<Longrightarrow> endpoint q = endpoint p" for p q :: "'e proc"
  by (cases p; cases q) (simp add: endpoint_def)

lemma endpoint_simps [simp]:
  "endpoint (p\<lparr>env := e\<rparr>) = endpoint p" "endpoint (p\<lparr>http_ready := b\<rparr>) = endpoint p"
  "endpoint (p\<lparr>accountId := a\<rparr>) = endpoint p" "endpoint (p\<lparr>stashAccountId := a\<rparr>) = endpoint p"
  "endpoint (p\<lparr>rfcRebootCronNeeded := b\<rparr>) = endpoint p" "endpoint (p\<lparr>isRebootRequired := b\<rparr>) = endpoint p"
  "endpoint (write_file S f c p) = endpoint p" "endpoint (append_file S f c p) = endpoint p" "endpoint (emit x p) = endpoint p"
  by (simp_all add: endpoint_def write_file_def append_file_def emit_def)

lemma endpoint_writes [simp]:
  "endpoint (value_changed S k v c p) = endpoint p" "endpoint (updateTR181File S f ps p) = endpoint p"
  "endpoint (WriteFile S f c p) = endpoint p" "endpoint (NotifyTelemetry2RemoteFeatures S f st p) = endpoint p"
  "endpoint (NotifyTelemetry2Count m p) = endpoint p" "endpoint (HandleScheduledReboot S b p) = endpoint p"
  "endpoint (saveAccountIdToFile S a k t p) = endpoint p"
  by (simp_all add: value_changed_def Let_def do_system_def HandleScheduledReboot_def saveAccountIdToFile_def NotifyTelemetry2Count_def updateTR181File_def WriteFile_def
      NotifyTelemetry2RemoteFeatures_def split: option.splits)

text \<open>Writing the feature files cannot fail and stays inside the files.\<close>

lemma write_feature_outside [simp]:
  "env (snd (write_feature S fo st)) = env (snd st)" "http_ready (snd (write_feature S fo st)) = http_ready (snd st)"
  "world.more (snd (write_feature S fo st)) = world.more (snd st)"
  by (simp_all add: write_feature_def writeRemoteFeatureCntrlFile_def Let_def case_prod_beta)

lemma write_features_total:
  "\<forall>f\<in>set fs. \<exists>r. read_feature S f = Inr r \<Longrightarrow> \<exists>l q. write_features S fs (l0, p) = Inr (l, q) \<and> env q = env p \<and>
     http_ready q = http_ready p \<and> world.more q = world.more p"
proof (induction fs arbitrary: l0 p)
  case (Cons f fs)
  then obtain r where r: "read_feature S f = Inr r" by auto
  define st where "st = (case r of None \<Rightarrow> (l0, p) | Some fo \<Rightarrow> write_feature S fo (l0, p))"
  have "env (snd st) = env p" "http_ready (snd st) = http_ready p" "world.more (snd st) = world.more p"
    by (auto simp: st_def split: option.splits)
  with Cons.IH [of "fst st" "snd st"] Cons.prems r show ?case by (simp add: st_def [symmetric])
qed simp

section \<open>The interface\<close>

text \<open>The last steps of an update: the marks on a set-top box, the scheduled reboot on a camera.\<close>

definition close_update :: "'e sys \<Rightarrow> 'e proc \<Rightarrow> (unit \<times> 'e proc) res" where
  "close_update S p = (if plat S = STB then clearDBEnd S p
     else if plat S = RDKC then Inr ((), HandleScheduledReboot S (rfcRebootCronNeeded p) p) else Inr ((), p))"

locale config_target =
  fixes good :: "'e sys \<Rightarrow> bool"
    and start :: "'e sys \<Rightarrow> 'e proc \<Rightarrow> bool"
    and ready :: "'e sys \<Rightarrow> 'e proc \<Rightarrow> bool"
    and settable :: "'e sys \<Rightarrow> 'e proc \<Rightarrow> string \<times> string \<Rightarrow> bool"
    and holds :: "'e sys \<Rightarrow> 'e proc \<Rightarrow> string \<Rightarrow> string \<Rightarrow> bool"
    and moves :: "'e sys \<Rightarrow> string \<Rightarrow> 'e proc \<Rightarrow> 'e proc \<Rightarrow> bool"
  assumes entry: "good S \<Longrightarrow> ready S p \<Longrightarrow> settable S p (k, v) \<Longrightarrow>
      \<exists>c' q. config_entry S (k, v) (c, p) = Inr (c', q) \<and> holds S q k v \<and> moves S k p q"
    and moves_ready: "moves S k p q \<Longrightarrow> ready S p \<Longrightarrow> ready S q"
    and moves_holds: "moves S k p q \<Longrightarrow> k' \<noteq> k \<Longrightarrow> holds S q k' v = holds S p k' v"
    and moves_settable: "moves S k p q \<Longrightarrow> fst kv \<noteq> k \<Longrightarrow> settable S p kv \<Longrightarrow> settable S q kv"
    and same_outside: "env t = env q \<Longrightarrow> http_ready t = http_ready q \<Longrightarrow> endpoint t = endpoint q \<Longrightarrow>
      ready S t = ready S q \<and> settable S t = settable S q \<and> holds S t = holds S q"
    and clear: "good S \<Longrightarrow> start S p \<Longrightarrow>
      \<exists>q. (if is_rdkb (plat S) then Inr ((), p) else clearDB S p) = Inr ((), q) \<and> ready S q \<and>
        (\<forall>kv. settable S p kv \<longrightarrow> settable S q kv)"
    and close: "good S \<Longrightarrow> ready S p \<Longrightarrow>
      \<exists>q. close_update S p = Inr ((), q) \<and> ready S q \<and> (\<forall>k v. holds S p k v \<longrightarrow> holds S q k v) \<and>
        (\<forall>kv. settable S p kv \<longrightarrow> settable S q kv)"
    and reads: "good S \<Longrightarrow> ready S p \<Longrightarrow> holds S p k v \<Longrightarrow>
      \<exists>q. read_RFCProperty S ''rfc'' k [] 4096 p = Inr (READ_RFC_SUCCESS, v, q)"
begin

lemma entries:
  "good S \<Longrightarrow> ready S p \<Longrightarrow> \<forall>kv\<in>set kvs. settable S p kv \<Longrightarrow> distinct (map fst kvs) \<Longrightarrow>
     \<exists>c' q. config_entries S kvs (c, p) = Inr (c', q) \<and> ready S q \<and> (\<forall>(k, v)\<in>set kvs. holds S q k v) \<and>
       (\<forall>k v. k \<notin> fst ` set kvs \<longrightarrow> holds S q k v = holds S p k v) \<and>
       (\<forall>kv. fst kv \<notin> fst ` set kvs \<longrightarrow> settable S p kv \<longrightarrow> settable S q kv)"
proof (induction kvs arbitrary: c p)
  case (Cons kv kvs)
  obtain k v where kv: "kv = (k, v)" by (cases kv)
  from entry [OF Cons.prems(1,2), of k v c] Cons.prems(3) obtain c1 p1 where
      s: "config_entry S (k, v) (c, p) = Inr (c1, p1)" "holds S p1 k v" "moves S k p p1"
    by (auto simp: kv)
  have k: "k \<notin> fst ` set kvs" using Cons.prems(4) by (simp add: kv)
  have "\<forall>kv\<in>set kvs. settable S p1 kv"
    using Cons.prems(3) moves_settable [OF s(3)] k by (metis image_eqI list.set_intros(2))
  with Cons.IH [OF Cons.prems(1) moves_ready [OF s(3) Cons.prems(2)], of c1] Cons.prems(4) obtain c' q where
      q: "config_entries S kvs (c1, p1) = Inr (c', q)" "ready S q" "\<forall>(k, v)\<in>set kvs. holds S q k v"
        "\<forall>k v. k \<notin> fst ` set kvs \<longrightarrow> holds S q k v = holds S p1 k v"
        "\<forall>kv. fst kv \<notin> fst ` set kvs \<longrightarrow> settable S p1 kv \<longrightarrow> settable S q kv" by auto
  have "\<forall>kv'. fst kv' \<notin> fst ` set (kv # kvs) \<longrightarrow> settable S p kv' \<longrightarrow> settable S q kv'"
    using q(5) moves_settable [OF s(3)] by (simp add: kv)
  moreover have "\<forall>k' v'. k' \<notin> fst ` set (kv # kvs) \<longrightarrow> holds S q k' v' = holds S p k' v'"
    using q(4) moves_holds [OF s(3)] by (simp add: kv)
  moreover have "\<forall>(k, v)\<in>set (kv # kvs). holds S q k v" using q(3,4) s(2) k by (simp add: kv)
  ultimately show ?case using s(1) q(1,2) by (simp add: kv)
qed simp

lemma config_data:
  assumes "good S" "CreateConfigDataValueMap S features p0 = Inr ((), p)" "map_wf (RFCKeyAndValueMap p)"
    "start S p" "RFCKeyAndValueMap p \<noteq> []" "\<forall>kv\<in>set (RFCKeyAndValueMap p). settable S p kv"
  shows "\<exists>q. processXconfResponseConfigDataPart S features p0 = Inr ((), q) \<and> ready S q \<and>
     (\<forall>(k, v)\<in>set (RFCKeyAndValueMap p). holds S q k v) \<and>
     (\<forall>kv. fst kv \<notin> fst ` set (RFCKeyAndValueMap p) \<longrightarrow> settable S p kv \<longrightarrow> settable S q kv)"
proof -
  let ?clear = "if is_rdkb (plat S) then Inr ((), p) else clearDB S p"
  from clear [OF assms(1,4)] obtain p1 where p1: "?clear = Inr ((), p1)" "ready S p1"
      "\<forall>kv. settable S p kv \<longrightarrow> settable S p1 kv" by blast
  then have m: "RFCKeyAndValueMap p1 = RFCKeyAndValueMap p" using clearDB_map [of S p "()" p1] by (auto split: if_splits)
  define p2 where "p2 = (if plat S = RDKC then p1\<lparr>rfcRebootCronNeeded := False\<rparr> else p1)"
  have p2: "env p2 = env p1" "http_ready p2 = http_ready p1" "RFCKeyAndValueMap p2 = RFCKeyAndValueMap p"
      "endpoint p2 = endpoint p1"
    by (simp_all add: p2_def m)
  have s2: "ready S p2" "\<forall>kv. settable S p kv \<longrightarrow> settable S p2 kv"
    using same_outside [OF p2(1,2,4), of S] p1(2,3) by auto
  then have "\<forall>kv\<in>set (RFCKeyAndValueMap p). settable S p2 kv" using assms(6) by blast
  from entries [OF assms(1) s2(1) this map_wf_distinct [OF assms(3)], of "([], [])"] obtain c ps q where
      q: "config_entries S (RFCKeyAndValueMap p2) (([], []), p2) = Inr ((c, ps), q)" "ready S q"
        "\<forall>(k, v)\<in>set (RFCKeyAndValueMap p). holds S q k v"
        "\<forall>kv. fst kv \<notin> fst ` set (RFCKeyAndValueMap p) \<longrightarrow> settable S p2 kv \<longrightarrow> settable S q kv"
    unfolding p2(3) by (metis surj_pair)
  let ?q = "updateTR181File S ''tr181.list'' ps q"
  have "env ?q = env q" "http_ready ?q = http_ready q" "endpoint ?q = endpoint q" by (simp_all add: updateTR181File_def)
  from same_outside [OF this, of S] have u: "ready S ?q" "holds S ?q = holds S q" "settable S ?q = settable S q"
    using q(2) by auto
  from close [OF assms(1) u(1)] obtain r where r: "close_update S ?q = Inr ((), r)" "ready S r"
      "\<forall>k v. holds S q k v \<longrightarrow> holds S r k v" "\<forall>kv. settable S q kv \<longrightarrow> settable S r kv" unfolding u(2,3) by blast
  have "processXconfResponseConfigDataPart S features p0 = close_update S ?q"
    using assms(2,5) p1(1) q(1)
    by (simp add: processXconfResponseConfigDataPart_def Let_def p2_def [symmetric] close_update_def)
  moreover have "\<forall>kv. fst kv \<notin> fst ` set (RFCKeyAndValueMap p) \<longrightarrow> settable S p kv \<longrightarrow> settable S r kv"
    using s2(2) q(4) r(4) by blast
  ultimately show ?thesis using r(1-3) q(3) by auto
qed

text \<open>All entries of an answer.\<close>

lemma answer_map:
  assumes "RFCKeyAndValueMap p1 = []" "CreateConfigDataValueMap S (Some fs) p1 = Inr ((), p2)"
  shows "map_wf (RFCKeyAndValueMap p2) \<and>
    map_of (RFCKeyAndValueMap p2) = map_of (rev (answer_entries S (feature_list S fs)))"
proof -
  have m: "RFCKeyAndValueMap p2 = std_map.put_all (answer_entries S (feature_list S fs)) []"
    using CreateConfigDataValueMap_map [OF assms(2)] assms(1) by simp
  then have "map_wf (RFCKeyAndValueMap p2)" using std_map.invar_put_all [OF std_map.invar_empty] by simp
  moreover have "map_of (RFCKeyAndValueMap p2) = map_of (rev (answer_entries S (feature_list S fs)))"
    unfolding m by (rule ext) (simp add: std_map.get_put_all [OF std_map.invar_empty] split: option.splits)
  ultimately show ?thesis ..
qed

lemma answer_data:
  assumes "good S" "RFCKeyAndValueMap p1 = []" "CreateConfigDataValueMap S (Some fs) p1 = Inr ((), p2)"
    "start S p2" "answer_entries S (feature_list S fs) \<noteq> []"
    "\<forall>kv\<in>set (answer_entries S (feature_list S fs)). settable S p2 kv"
  shows "\<exists>q. processXconfResponseConfigDataPart S (Some fs) p1 = Inr ((), q) \<and> ready S q \<and>
     (\<forall>k v. map_of (rev (answer_entries S (feature_list S fs))) k = Some v \<longrightarrow> holds S q k v) \<and>
     (\<forall>kv. fst kv \<notin> fst ` set (answer_entries S (feature_list S fs)) \<longrightarrow> settable S p2 kv \<longrightarrow> settable S q kv)"
proof -
  let ?m = "RFCKeyAndValueMap p2" and ?es = "answer_entries S (feature_list S fs)"
  have wf: "map_wf ?m" and g: "map_of ?m = map_of (rev ?es)" using answer_map [OF assms(2,3)] by auto
  have dom: "fst ` set ?m = fst ` set ?es"
    using arg_cong [OF g, of dom] by (simp add: dom_map_of_conv_image_fst)
  have "?m \<noteq> []" using dom assms(5) by auto
  moreover have "\<forall>kv\<in>set ?m. settable S p2 kv"
    using assms(6) map_of_is_SomeI [OF map_wf_distinct [OF wf]] g by (metis map_of_SomeD set_rev surj_pair)
  ultimately obtain q where q: "processXconfResponseConfigDataPart S (Some fs) p1 = Inr ((), q)" "ready S q"
      "\<forall>(k, v)\<in>set ?m. holds S q k v" "\<forall>kv. fst kv \<notin> fst ` set ?m \<longrightarrow> settable S p2 kv \<longrightarrow> settable S q kv"
    using config_data [OF assms(1,3) wf assms(4)] by blast
  have "\<forall>k v. map_of (rev ?es) k = Some v \<longrightarrow> holds S q k v" using q(3) unfolding g [symmetric] by (auto dest: map_of_SomeD)
  with q(1,2,4) show ?thesis unfolding dom by blast
qed

text \<open>Reading back in every later state in which the outside is the same.\<close>

lemma read_back:
  assumes "good S" "RFCKeyAndValueMap p1 = []" "CreateConfigDataValueMap S (Some fs) p1 = Inr ((), p2)"
    "start S p2" "\<forall>kv\<in>set (answer_entries S (feature_list S fs)). settable S p2 kv"
  shows "\<exists>q. processXconfResponseConfigDataPart S (Some fs) p1 = Inr ((), q) \<and>
     (\<forall>(t :: 'e proc) k v. env t = env q \<longrightarrow> http_ready t = http_ready q \<longrightarrow> endpoint t = endpoint q \<longrightarrow>
        map_of (rev (answer_entries S (feature_list S fs))) k = Some v \<longrightarrow>
        (\<exists>t'. read_RFCProperty S ''rfc'' k [] 4096 t = Inr (READ_RFC_SUCCESS, v, t')))"
proof (cases "answer_entries S (feature_list S fs) = []")
  case True
  then have "RFCKeyAndValueMap p2 = []" using answer_map [OF assms(2,3)] by (simp add: map_of_eq_empty_iff)
  then show ?thesis using assms(3) True by (simp add: processXconfResponseConfigDataPart_def)
next
  case False
  from answer_data [OF assms(1-4) False assms(5)] obtain q where q:
      "processXconfResponseConfigDataPart S (Some fs) p1 = Inr ((), q)" "ready S q"
      "\<forall>k v. map_of (rev (answer_entries S (feature_list S fs))) k = Some v \<longrightarrow> holds S q k v" by blast
  have "\<exists>t'. read_RFCProperty S ''rfc'' k [] 4096 t = Inr (READ_RFC_SUCCESS, v, t')"
    if t: "env t = env q" "http_ready t = http_ready q" "endpoint t = endpoint q"
      and kv: "map_of (rev (answer_entries S (feature_list S fs))) k = Some v" for t :: "'e proc" and k v
    by (rule reads [OF assms(1)]) (use same_outside [OF t, of S] q(2,3) kv in auto)
  with q(1) show ?thesis by blast
qed

end

end
