(* ===== verification/Rfc_Apply.thy ===== *)
theory Rfc_Apply
  imports Config_Target
begin

text \<open>
  What an update leaves in the data model: on the platforms whose parameters are reached over rbus, the
  camera and the broadband gateways, every configuration entry of the answer reads back with its value
  after the answer has been processed, when every feature carries configData.
  The rbus data model is code outside the repository; what is relied on is that a set which reports
  success is what later gets return, and that it changes no other parameter (\<open>bus_law\<close>).
\<close>

section \<open>The data model over rbus\<close>

definition bus_law :: "'e sys \<Rightarrow> bool" where
  "bus_law S \<longleftrightarrow> (\<forall>e k x e' ok. rbus_set S e k x = (e', ok) \<longrightarrow>
     rbus_open S e' = rbus_open S e \<and> rbus_get S e' = (if ok then (rbus_get S e)(k \<mapsto> x) else rbus_get S e))"

text \<open>How a value reads, in the buffer used for the comparison.\<close>

fun bus_reads :: "rbus_value \<Rightarrow> string option" where
  "bus_reads (RbString s) = Some (copy_rbus_string (cstr s) 4096)"
| "bus_reads (RbBool b) = Some (buf_copy 4096 (if b then ''true'' else ''false''))"
| "bus_reads (RbInt32 i) = Some (buf_copy 4096 (int_str i))"
| "bus_reads _ = None"

definition applied :: "'e sys \<Rightarrow> 'e \<Rightarrow> string \<Rightarrow> string \<Rightarrow> bool" where
  "applied S e k v \<longleftrightarrow> (\<exists>x. rbus_get S e k = Some x \<and> bus_reads x = Some v)"

text \<open>A parameter that exists, whose type can represent the value, and that can be written.\<close>

definition accepts :: "'e sys \<Rightarrow> 'e \<Rightarrow> string \<Rightarrow> string \<Rightarrow> bool" where
  "accepts S e k v \<longleftrightarrow> (\<exists>old x. rbus_get S e k = Some old \<and> rbus_convert S old v = Inr (Some x) \<and>
     bus_reads x = Some v \<and> (\<forall>e. snd (rbus_set S e k x)))"

lemma read_RFCProperty_bus:
  assumes "uses_rbus (plat S)" "rbus_open S (env w)" "rbus_get S (env w) k = Some x"
  shows "read_RFCProperty S n k [] 4096 w = Inr (case bus_reads x of
     None \<Rightarrow> (READ_RFC_FAILURE, [], w) | Some v \<Rightarrow> (READ_RFC_SUCCESS, v, w))"
  using assms by (cases x) (simp_all add: read_RFCProperty_def)

lemma applied_reads:
  "uses_rbus (plat S) \<Longrightarrow> rbus_open S (env w) \<Longrightarrow> applied S (env w) k v \<Longrightarrow>
     read_RFCProperty S n k [] 4096 w = Inr (READ_RFC_SUCCESS, v, w)"
  by (auto simp: applied_def read_RFCProperty_bus)

lemma convert_again: "rbus_convert S old u = Inr (Some x) \<Longrightarrow> rbus_convert S x v = rbus_convert S old v"
  by (cases old) (auto split: option.splits)

section \<open>One parameter\<close>

text \<open>A write changes the one parameter, to the converted value.\<close>

definition bus_moves :: "'e sys \<Rightarrow> string \<Rightarrow> 'e \<Rightarrow> 'e \<Rightarrow> bool" where
  "bus_moves S k e e' \<longleftrightarrow> rbus_open S e' = rbus_open S e \<and> (\<forall>k'. k' \<noteq> k \<longrightarrow> rbus_get S e' k' = rbus_get S e k')"

lemma bus_moves_refl [simp]: "bus_moves S k e e"
  by (simp add: bus_moves_def)

lemma set_bus_frame:
  assumes "bus_law S" "set_RFCProperty_rbus S k v w = Inr (st, w')"
  shows "bus_moves S k (env w) (env w') \<and> files w' = files w \<and>
     (\<forall>u. accepts S (env w) k u \<longrightarrow> accepts S (env w') k u)"
proof (cases "\<exists>old x. rbus_open S (env w) \<and> rbus_get S (env w) k = Some old \<and> rbus_convert S old v = Inr (Some x)")
  case False
  with assms(2) have "w' = w" by (auto simp: set_RFCProperty_rbus_def split: if_splits option.splits)
  then show ?thesis by simp
next
  case True
  then obtain old x where x: "rbus_open S (env w)" "rbus_get S (env w) k = Some old" "rbus_convert S old v = Inr (Some x)"
    by blast
  obtain e ok where s: "rbus_set S (env w) k x = (e, ok)" by fastforce
  with assms(2) x have w': "w' = w\<lparr>env := e\<rparr>" by (simp add: set_RFCProperty_rbus_def)
  have g: "rbus_open S e = rbus_open S (env w)"
      "rbus_get S e = (if ok then (rbus_get S (env w))(k \<mapsto> x) else rbus_get S (env w))"
    using assms(1) s by (auto simp: bus_law_def)
  have "accepts S (env w) k u \<Longrightarrow> accepts S e k u" for u
    using g(2) x(2) convert_again [OF x(3), of u] by (cases ok) (auto simp: accepts_def)
  then show ?thesis using g w' by (simp add: bus_moves_def)
qed

lemma set_bus_applies:
  assumes "bus_law S" "rbus_open S (env w)" "accepts S (env w) k v"
  shows "\<exists>e. set_RFCProperty_rbus S k v w = Inr (WDMP_SUCCESS, w\<lparr>env := e\<rparr>) \<and> applied S e k v"
proof -
  from assms(3) obtain old x where x: "rbus_get S (env w) k = Some old" "rbus_convert S old v = Inr (Some x)"
      "bus_reads x = Some v" "\<forall>e. snd (rbus_set S e k x)" by (auto simp: accepts_def)
  obtain e where s: "rbus_set S (env w) k x = (e, True)" using x(4) by (metis prod.collapse)
  then have "rbus_get S e k = Some x" using assms(1) by (auto simp: bus_law_def)
  with x s assms(2) show ?thesis by (auto simp: set_RFCProperty_rbus_def applied_def)
qed

section \<open>The entries of an answer\<close>

definition entry_settable :: "'e sys \<Rightarrow> 'e \<Rightarrow> string \<times> string \<Rightarrow> bool" where
  "entry_settable S e kv \<longleftrightarrow> fst kv \<noteq> BOOTSTRAP_XCONF_URL_KEY_STR (plat S) \<and>
     \<not> (str_contains (fst kv) RFC_ACCOUNT_ID_KEY_STR \<and> StringCaseCompare (snd kv) ''Unknown'') \<and>
     accepts S e (fst kv) (snd kv)"

lemma config_entry_applies:
  assumes "plat S \<noteq> STB" "bus_law S" "rbus_open S (env p)" "entry_settable S (env p) (k, v)"
  shows "\<exists>c' q. config_entry S (k, v) (c, p) = Inr (c', q) \<and> applied S (env q) k v \<and> bus_moves S k (env p) (env q)"
proof -
  obtain cur0 ps where c: "c = (cur0, ps)" by (cases c)
  from assms(4) have a: "accepts S (env p) k v" and nb: "k \<noteq> BOOTSTRAP_XCONF_URL_KEY_STR (plat S)"
    and nu: "\<not> (str_contains k RFC_ACCOUNT_ID_KEY_STR \<and> StringCaseCompare v ''Unknown'')"
    by (auto simp: entry_settable_def)
  then obtain old where old: "rbus_get S (env p) k = Some old" by (auto simp: accepts_def)
  have r: "read_RFCProperty S ''rfc'' k [] 4096 p = Inr (case bus_reads old of
      None \<Rightarrow> (READ_RFC_FAILURE, [], p) | Some v \<Rightarrow> (READ_RFC_SUCCESS, v, p))"
    using read_RFCProperty_bus [OF _ assms(3) old] assms(1) by simp
  from set_bus_applies [OF assms(2,3) a] obtain e where
      s: "set_RFCProperty S ''rfc'' k v p = Inr (WDMP_SUCCESS, p\<lparr>env := e\<rparr>)" "applied S e k v"
    using assms(1) by (auto simp: set_RFCProperty_def)
  have m: "bus_moves S k (env p) e"
    using set_bus_frame [OF assms(2), of k v p WDMP_SUCCESS "p\<lparr>env := e\<rparr>"] s(1) assms(1)
    by (simp add: set_RFCProperty_def)
  have w: "\<exists>q. write_entry S k v cur p = Inr (True, q) \<and> env q = e" for cur
    using s(1) nb assms(1) by (auto simp: write_entry_def)
  obtain cur changed where i: "isConfigValueChange S ''rfc'' k v cur0 p = Inr ((changed, v, cur), p)"
      "\<not> changed \<Longrightarrow> applied S (env p) k v"
    using change_test [OF r nu, of cur0] old by (auto simp: applied_def)
  show ?thesis
  proof (cases changed)
    case True
    from w [of cur] obtain q where "write_entry S k v cur p = Inr (True, q)" "env q = e" by blast
    then show ?thesis using i True s(2) m by (simp add: config_entry_def c)
  next
    case False
    with i show ?thesis by (simp add: config_entry_def c)
  qed
qed

lemma applied_moves: "bus_moves S k e e' \<Longrightarrow> k' \<noteq> k \<Longrightarrow> applied S e' k' v = applied S e k' v"
  by (simp add: bus_moves_def applied_def)

lemma settable_moves: "bus_moves S k e e' \<Longrightarrow> fst kv \<noteq> k \<Longrightarrow> entry_settable S e' kv = entry_settable S e kv"
  by (simp add: bus_moves_def entry_settable_def accepts_def)

section \<open>Clearing the store first\<close>

text \<open>What the account parameter has to be for the restore not to throw.\<close>

definition account_text :: "'e sys \<Rightarrow> 'e \<Rightarrow> bool" where
  "account_text S e \<longleftrightarrow> (\<forall>x. rbus_get S e RFC_ACCOUNT_ID_KEY_STR = Some x \<longrightarrow> (\<exists>s. x = RbString s))"

lemma read_bus_total: "uses_rbus (plat S) \<Longrightarrow> \<exists>i b. read_RFCProperty S n k o' m w = Inr (i, b, w)"
  by (auto simp: read_RFCProperty_def split: option.splits rbus_value.splits)

lemma read_bus_same: "plat S \<noteq> STB \<Longrightarrow> \<exists>t'. read_RFCProperty S n k o' m w = Inr (i, b, t') \<Longrightarrow>
    read_RFCProperty S n k o' m w = Inr (i, b, w)"
  using read_bus_total [of S n k o' m w] by auto

lemma GetAccountID_bus: "plat S = RDKC \<Longrightarrow> \<exists>q. GetAccountID S p = Inr ((), q) \<and> env q = env p"
proof -
  assume c: "plat S = RDKC"
  then obtain i b where "read_RFCProperty S ''AccountID'' RFC_ACCOUNT_ID_KEY_STR [] 1024 p = Inr (i, b, p)"
    using read_bus_total [of S] by fastforce
  with c show ?thesis by (cases "i = READ_RFC_FAILURE") (simp_all add: GetAccountID_def Let_def)
qed

lemma settable_set:
  assumes "bus_law S" "set_RFCProperty_rbus S k v w = Inr (st, w')" "entry_settable S (env w) kv"
  shows "entry_settable S (env w') kv"
  using set_bus_frame [OF assms(1,2)] assms(3) settable_moves [of S k "env w" "env w'" kv]
  by (cases "fst kv = k") (auto simp: entry_settable_def)

lemma clearDB_bus:
  assumes "plat S = RDKC" "bus_law S" "account_text S (env p)"
  shows "\<exists>q. clearDB S p = Inr ((), q) \<and> rbus_open S (env q) = rbus_open S (env p) \<and>
     (\<forall>kv. entry_settable S (env p) kv \<longrightarrow> entry_settable S (env q) kv)"
proof -
  obtain p1 where p1: "GetAccountID S p = Inr ((), p1)" "env p1 = env p" using GetAccountID_bus [OF assms(1)] by blast
  define p2 where "p2 = remove_file TR181STORE_FILE (p1\<lparr>stashAccountId := accountId p1\<rparr>)"
  have e: "env p2 = env p" by (simp add: p2_def p1(2))
  have c: "clearDB S p = rfcStashRetrieveParams S p2"
    by (simp add: clearDB_def rfcStashStoreParams_def clear_store_def p1(1) assms(1) p2_def)
  let ?set = "set_RFCProperty_rbus S RFC_ACCOUNT_ID_KEY_STR (stashAccountId p2) p2"
  obtain st p3 where s: "?set = Inr (st, p3)"
    using assms(3) by (cases ?set) (auto simp: account_text_def set_RFCProperty_rbus_def e rbind_eq_Inl split: if_splits option.splits prod.splits)
  have f: "rbus_open S (env p3) = rbus_open S (env p)" "entry_settable S (env p) kv \<Longrightarrow> entry_settable S (env p3) kv" for kv
    using set_bus_frame [OF assms(2) s] settable_set [OF assms(2) s] e by (simp_all add: bus_moves_def)
  show ?thesis
    using s f e assms(1) unfolding c by (auto simp: rfcStashRetrieveParams_def set_RFCProperty_def)
qed

section \<open>rbus as a target of configuration\<close>

definition bus_good :: "'e sys \<Rightarrow> bool" where
  "bus_good S \<longleftrightarrow> plat S \<noteq> STB \<and> bus_law S"

definition bus_start :: "'e sys \<Rightarrow> 'e proc \<Rightarrow> bool" where
  "bus_start S p \<longleftrightarrow> rbus_open S (env p) \<and> account_text S (env p)"

interpretation bus: config_target bus_good bus_start "\<lambda>S p. rbus_open S (env p)"
    "\<lambda>S p. entry_settable S (env p)" "\<lambda>S p. applied S (env p)" "\<lambda>S k p q. bus_moves S k (env p) (env q)"
proof (unfold_locales, goal_cases)
  case (1 S p k v c)
  then show ?case unfolding bus_good_def by (intro config_entry_applies) auto
next
  case (2 S k p q)
  then show ?case by (simp add: bus_moves_def)
next
  case (3 S k p q k' v)
  then show ?case by (simp add: applied_moves)
next
  case (4 S k p q kv)
  then show ?case by (simp add: settable_moves)
next
  case (6 S p)
  show ?case
  proof (cases "is_rdkb (plat S)")
    case False
    with 6(1) have "plat S = RDKC" unfolding bus_good_def by (cases "plat S") auto
    with clearDB_bus [OF this, of p] 6 False show ?thesis unfolding bus_good_def bus_start_def by auto
  qed (use 6 in \<open>auto simp: bus_start_def\<close>)
next
  case (7 S p)
  then show ?case by (auto simp: bus_good_def close_update_def HandleScheduledReboot_def do_system_def)
next
  case (8 S p k v)
  then show ?case unfolding bus_good_def using applied_reads [of S p k v "''rfc''"] by auto
qed auto

section \<open>A whole run\<close>

text \<open>Processing an answer on a camera.\<close>

lemma answer_applied:
  assumes "plat S = RDKC" "bus_law S" "cJSON_Parse S (cstr msg) = Some j" "feature_array S j = Some fs"
    "write_features S (feature_list S fs) ([], p) = Inr (rfcList, p1)" "RFCKeyAndValueMap p1 = []"
    "CreateConfigDataValueMap S (Some fs) p1 = Inr ((), p2)" "rbus_open S (env p2)" "account_text S (env p2)"
    "\<forall>kv\<in>set (answer_entries S (feature_list S fs)). entry_settable S (env p2) kv"
  shows "\<exists>q. ProcessJsonResponse S msg p = Inr (SUCCESS, q) \<and>
     (\<forall>k v. map_of (rev (answer_entries S (feature_list S fs))) k = Some v \<longrightarrow>
        read_RFCProperty S ''rfc'' k [] 4096 q = Inr (READ_RFC_SUCCESS, v, q))"
proof -
  have "bus_good S" "bus_start S p2" using assms(1,2,8,9) by (simp_all add: bus_good_def bus_start_def)
  from bus.read_back [OF this(1) assms(6,7) this(2) assms(10)] obtain q where q:
      "processXconfResponseConfigDataPart S (Some fs) p1 = Inr ((), q)"
      "\<And>(t :: 'a proc) k v. env t = env q \<Longrightarrow> http_ready t = http_ready q \<Longrightarrow> endpoint t = endpoint q \<Longrightarrow>
        map_of (rev (answer_entries S (feature_list S fs))) k = Some v \<Longrightarrow>
        \<exists>t'. read_RFCProperty S ''rfc'' k [] 4096 t = Inr (READ_RFC_SUCCESS, v, t')" by auto
  let ?r = "NotifyTelemetry2RemoteFeatures S FEATURE_LIST_FILE ''STAGING'' (WriteFile S ''rfcFeature.list'' rfcList q)"
  let ?t = "WriteFile S ''.version'' (firmware_version ?r) ?r"
  have "endpoint ?t = endpoint q" by simp
  moreover have "env ?t = env q" "http_ready ?t = http_ready q"
    by (simp_all add: WriteFile_def NotifyTelemetry2RemoteFeatures_def Let_def split: option.splits)
  moreover have "ProcessJsonResponse S msg p = Inr (SUCCESS, ?t)"
    using assms(3-5) q(1) by (simp add: ProcessJsonResponse_def Let_def)
  moreover have "plat S \<noteq> STB" using assms(1) by simp
  ultimately show ?thesis using read_bus_same [OF _ q(2)] by blast
qed

text \<open>The outside as the run of a camera needs it, for the entries of an answer.\<close>

definition camera_ready :: "'e sys \<Rightarrow> (string \<times> string) list \<Rightarrow> 'e \<Rightarrow> bool" where
  "camera_ready S es e \<longleftrightarrow> rbus_open S e \<and> account_text S e \<and> (\<forall>kv\<in>set es. entry_settable S e kv)"

lemma unlock_bus:
  assumes "uses_rbus (plat S)"
  shows "\<exists>b q. isSecureDbgSrvUnlocked S p = Inr (b, q) \<and> env q = env p \<and> RFCKeyAndValueMap q = RFCKeyAndValueMap p"
proof -
  obtain d where d: "isDebugServicesEnabled S p = Inr (d, p)"
    using read_bus_total [OF assms, of "''DEBUGSRV''" RFC_DEBUGSRV "[]" RFC_VALUE_BUF_SIZE p]
    by (auto simp: isDebugServicesEnabled_def)
  obtain t where t: "getDeviceTypeRFC S 16 p = Inr (t, p)"
    using read_bus_total [OF assms, of "''LABSGND''" RFC_DEVICETYPE "[]" RFC_VALUE_BUF_SIZE p]
    by (auto simp: getDeviceTypeRFC_def)
  have n: "env (NotifyTelemetry2Count m p) = env p" "RFCKeyAndValueMap (NotifyTelemetry2Count m p) = RFCKeyAndValueMap p" for m
    by (simp_all add: NotifyTelemetry2Count_def emit_def)
  show ?thesis unfolding isSecureDbgSrvUnlocked_def by (auto simp: d t Let_def n)
qed

text \<open>What an update leaves for the next request.\<close>

definition records :: "'e sys \<Rightarrow> string \<Rightarrow> 'e proc \<Rightarrow> 'e proc \<Rightarrow> bool" where
  "records S header p q \<longleftrightarrow> (\<forall>h. header_hash (cstr header) = Some h \<longrightarrow> NL \<notin> set h \<longrightarrow> (\<forall>f. fopen_w S (env p) f) \<longrightarrow>
     files q HASH_VALUE_FILE = Some h \<and> files q TIME_VALUE_FILE = Some (int_str (clock S (env p))))"

lemma camera_records:
  assumes "uses_rbus (plat S)"
  shows "\<exists>r. updateHashAndTimeInDB S header q = Inr ((), r) \<and> env r = env q \<and> records S header q r"
proof (cases "header_hash (cstr header)")
  case None
  then show ?thesis using assms by (simp add: updateHashAndTimeInDB_def updateTimeInDB_def records_def)
next
  case (Some h)
  obtain c where "updateHashInDB S h q = Inr ((), (write_file S HASH_VALUE_FILE h q)\<lparr>isRebootRequired := c\<rparr>)"
    using updateHashInDB_rbus [OF assms] by blast
  with Some assms obtain r where r: "updateHashAndTimeInDB S header q = Inr ((), r)" "env r = env q"
    by (simp add: updateHashAndTimeInDB_def updateTimeInDB_def)
  have "records S header q r" unfolding records_def
  proof (intro allI impI)
    fix h assume h: "header_hash (cstr header) = Some h" "NL \<notin> set h" "\<forall>f. fopen_w S (env q) f"
    show "files r HASH_VALUE_FILE = Some h \<and> files r TIME_VALUE_FILE = Some (int_str (clock S (env q)))"
      using hash_time_roundtrip [OF assms h(3,1,2)] r(1) by auto
  qed
  with r show ?thesis by blast
qed

lemma finish_camera:
  assumes "plat S = RDKC" "ProcessJsonResponse S body p = Inr (SUCCESS, q)"
  shows "\<exists>r. finish_pass S body header p = Inr (SUCCESS, r) \<and> env r = env q \<and> records S header q r"
proof -
  have b: "uses_rbus (plat S)" using assms(1) by simp
  obtain r where r: "updateHashAndTimeInDB S header q = Inr ((), r)" "env r = env q" "records S header q r"
    using camera_records [OF b] by blast
  let ?r = "NotifyTelemetry2Count ''SYST_INFO_RFC_Complete'' r"
  have "records S header q ?r" using r(3) by (simp add: records_def NotifyTelemetry2Count_def)
  moreover have "finish_pass S body header p = Inr (SUCCESS, ?r)"
    using assms r(1) by (simp add: finish_pass_def process_answer_def StoreXconfEndpointMetadata_def)
  ultimately show ?thesis using r(2) by (intro exI [of _ ?r]) (simp add: NotifyTelemetry2Count_def)
qed

section \<open>Properties\<close>

text \<open>C2: a run on a camera that is not blocked, with a server that answers every request with a usable
  document whose features all carry \<open>configData\<close> and whose entries can all be set (the parameter exists, the
  value converts to its type and is accepted, it is not the bootstrap URL and not an unknown account id), ends
  with success from every phase of the state machine.  Afterwards every configuration entry of the answer reads
  back with the value it had there last, as long as downloads and pauses do not change the data model.  When the
  files can be written and the answer has a hash header, every process that finds these files, has the firmware of
  the update and knows its partner and account sends its next request with this hash and with the time of the
  update, the clock of the outside the run ends in.\<close>

theorem camera_run_applied:
  assumes "plat S = RDKC" "bus_law S" "always_answers S body header"
    "cJSON_Parse S (cstr body) = Some j" "feature_array S j = Some fs" "all_have_config S (feature_list S fs)"
    "\<forall>f\<in>set (feature_list S fs). \<exists>r. read_feature S f = Inr r"
    "\<forall>me. \<exists>me'. add_features S (feature_list S fs) me = Inr me'"
    "keeps_outside S (camera_ready S (all_entries S (feature_list S fs)))"
    "camera_ready S (all_entries S (feature_list S fs)) (env p)" "RFCKeyAndValueMap p = []"
    "\<not> fst (IsDirectBlocked S p)"
  shows "\<exists>q. ProcessRuntimeFeatureControlReq S p = Inr (SUCCESS, q) \<and>
     (\<forall>k v. map_of (rev (all_entries S (feature_list S fs))) k = Some v \<longrightarrow>
        read_RFCProperty S ''rfc'' k [] 4096 q = Inr (READ_RFC_SUCCESS, v, q)) \<and>
     (\<forall>h r. header_hash (cstr header) = Some h \<longrightarrow> NL \<notin> set h \<longrightarrow> (\<forall>f. fopen_w S (env q) f) \<longrightarrow>
        files r = files q \<longrightarrow> same_device r \<longrightarrow>
        (\<exists>r'. GetStoredHashAndTime S r = Inr ((h, int_str (clock S (env q))), r')))"
proof -
  let ?P = "camera_ready S (answer_entries S (feature_list S fs))"
  note es = all_entries_collected [OF assms(6)]
  define p1 where "p1 = p\<lparr>rfcSelectOpt := (if rfc_state p = Local then ''local'' else ''prod'')\<rparr>"
  let ?p2 = "snd (IsDirectBlocked S p1)"
  have nb: "\<not> fst (IsDirectBlocked S p1)"
    using assms(12) by (auto simp: p1_def IsDirectBlocked_def file_present_def Let_def split: if_splits)
  have p2: "env ?p2 = env p" "RFCKeyAndValueMap ?p2 = RFCKeyAndValueMap p"
    by (simp_all add: p1_def IsDirectBlocked_def Let_def remove_file_def)
  have b: "uses_rbus (plat S)" using assms(1) by simp
  obtain u p3 where p3: "isSecureDbgSrvUnlocked S ?p2 = Inr (u, p3)" "env p3 = env p" "RFCKeyAndValueMap p3 = []"
    using unlock_bus [OF b, of ?p2] p2 assms(11) by auto
  have good: "good_body S body" unfolding good_body_def using assms(4,5,8) by blast
  have "rank (rfc_state p3, is_first_request p3) + 0 \<le> RETRY_COUNT"
    by (auto simp: RETRY_COUNT_def split: RfcState.splits)
  moreover have "uses_rbus (plat S) \<and> keeps_outside S ?P" "between_rounds True ?P p3"
    using b assms(9,10) p3(2,3) by (simp_all add: between_rounds_def es)
  ultimately obtain q where q: "request_loop S u 0 p3 = finish_pass S body header q" "between_rounds True ?P q"
    using bus_run.loop [OF _ assms(3) good] by blast
  from write_features_total [OF assms(7), of "[]" q] obtain l q1 where
    q1: "write_features S (feature_list S fs) ([], q) = Inr (l, q1)" "env q1 = env q" "world.more q1 = world.more q" by blast
  have m1: "RFCKeyAndValueMap q1 = []" using proc_more_eq(9) [OF q1(3)] q(2) by (simp add: between_rounds_def)
  from CreateConfig_good [OF assms(8)] obtain m es where
    c: "CreateConfigDataValueMap S (Some fs) q1 = Inr ((), q1\<lparr>RFCKeyAndValueMap := m, effectiveImmediateParams := es\<rparr>)" by blast
  let ?q2 = "q1\<lparr>RFCKeyAndValueMap := m, effectiveImmediateParams := es\<rparr>"
  have "rbus_open S (env ?q2)" "account_text S (env ?q2)"
      "\<forall>kv\<in>set (answer_entries S (feature_list S fs)). entry_settable S (env ?q2) kv"
    using q(2) q1(2) by (simp_all add: between_rounds_def camera_ready_def)
  from answer_applied [OF assms(1,2,4,5) q1(1) m1 c this] obtain r where
    r: "ProcessJsonResponse S body q = Inr (SUCCESS, r)"
      "\<forall>k v. map_of (rev (answer_entries S (feature_list S fs))) k = Some v \<longrightarrow>
        read_RFCProperty S ''rfc'' k [] 4096 r = Inr (READ_RFC_SUCCESS, v, r)" by blast
  from finish_camera [OF assms(1) r(1), of header] obtain t where
    t: "finish_pass S body header q = Inr (SUCCESS, t)" "env t = env r" "records S header r t" by blast
  have "ProcessRuntimeFeatureControlReq S p = Inr (SUCCESS, t)"
    using p3(1) nb q(1) t(1) by (simp add: ProcessRuntimeFeatureControlReq_def p1_def [symmetric] Let_def case_prod_beta)
  moreover have "read_RFCProperty S ''rfc'' k [] 4096 t = Inr (READ_RFC_SUCCESS, v, t)"
    if "read_RFCProperty S ''rfc'' k [] 4096 r = Inr (READ_RFC_SUCCESS, v, r)" for k v
    using that t(2) assms(1) by (auto simp: read_RFCProperty_def split: option.splits rbus_value.splits if_splits)
  moreover have "\<exists>r'. GetStoredHashAndTime S r'' = Inr ((h, int_str (clock S (env t))), r')"
    if "header_hash (cstr header) = Some h" "NL \<notin> set h" "\<forall>f. fopen_w S (env t) f" "files r'' = files t" "same_device r''"
    for h and r'' :: "'a proc"
  proof -
    have "files r'' HASH_VALUE_FILE = Some h" "files r'' TIME_VALUE_FILE = Some (int_str (clock S (env t)))"
      using t(2,3) that unfolding records_def by auto
    from camera_sends [OF assms(1) that(5) this(1) that(2) this(2)] show ?thesis by blast
  qed
  ultimately show ?thesis using r(2) unfolding es by blast
qed

text \<open>C10: the processing of an answer on a broadband gateway, which goes through the answer feature by feature
  and then through its map of values: when all features carry \<open>configData\<close> and, in the state after the first
  walk, every entry can be set (the parameter exists, the value converts to its type and is accepted, it is not
  the bootstrap URL and not an unknown account id), the processing succeeds and every configuration entry of the answer reads back with the
  value it had there last.\<close>

theorem broadband_answer_applied:
  assumes "is_rdkb (plat S)" "bus_law S" "rbus_open S (env p)" "cJSON_Parse S (cstr msg) = Some j"
    "feature_array S j = Some fs"
    "all_features_b S (Some fs) (begin_update S p) = Inr ((rfcList, cron), p1)" "RFCKeyAndValueMap p1 = []"
    "CreateConfigDataValueMap S (Some fs) (end_update S p1) = Inr ((), p2)" "rbus_open S (env p2)" "account_text S (env p2)"
    "all_have_config S (feature_list S fs)"
    "\<forall>kv\<in>set (all_entries S (feature_list S fs)). entry_settable S (env p2) kv"
  shows "\<exists>q. ProcessJsonResponseB S msg p = Inr (SUCCESS, q) \<and>
     (\<forall>k v. map_of (rev (all_entries S (feature_list S fs))) k = Some v \<longrightarrow>
        read_RFCProperty S ''rfc'' k [] 4096 q = Inr (READ_RFC_SUCCESS, v, q))"
proof -
  note es = all_entries_collected [OF assms(11)]
  have settable: "\<forall>kv\<in>set (answer_entries S (feature_list S fs)). entry_settable S (env p2) kv"
    using assms(12) by (simp add: es)
  have b: "plat S \<noteq> STB" using assms(1) by auto
  have e: "RFCKeyAndValueMap (end_update S p1) = []"
    using assms(7) by (simp add: end_update_def bus_set_def case_prod_beta)
  have "bus_good S" "bus_start S p2" using b assms(2,9,10) by (simp_all add: bus_good_def bus_start_def)
  from bus.read_back [OF this(1) e assms(8) this(2) settable] obtain q where q:
      "processXconfResponseConfigDataPart S (Some fs) (end_update S p1) = Inr ((), q)"
      "\<And>(t :: 'a proc) k v. env t = env q \<Longrightarrow> http_ready t = http_ready q \<Longrightarrow> endpoint t = endpoint q \<Longrightarrow>
        map_of (rev (answer_entries S (feature_list S fs))) k = Some v \<Longrightarrow>
        \<exists>t'. read_RFCProperty S ''rfc'' k [] 4096 t = Inr (READ_RFC_SUCCESS, v, t')" by auto
  obtain i b' where "read_RFCProperty S ''AccountID'' RFC_ACCOUNT_ID_KEY_STR [] 1024 q = Inr (i, b', q)"
    using read_bus_total [of S] b by fastforce
  then obtain a where a: "rfcCheckAccountId S q = Inr ((), saveAccountIdToFile S a RFC_ACCOUNT_ID_KEY_STR ''string'' q)"
    by (auto simp: rfcCheckAccountId_def)
  let ?q = "saveAccountIdToFile S a RFC_ACCOUNT_ID_KEY_STR ''string'' q"
  let ?r = "NotifyTelemetry2RemoteFeatures S FEATURE_LIST_FILE ''STAGING'' (WriteFile S ''rfcFeature.list'' rfcList ?q)"
  let ?t = "HandleScheduledReboot S cron (WriteFile S ''.version'' (firmware_version ?r) ?r)"
  have "endpoint ?t = endpoint q" by simp
  moreover have "env ?t = env q" "http_ready ?t = http_ready q"
    by (simp_all add: WriteFile_def NotifyTelemetry2RemoteFeatures_def HandleScheduledReboot_def do_system_def Let_def
        saveAccountIdToFile_def split: option.splits)
  moreover have "ProcessJsonResponseB S msg p = Inr (SUCCESS, ?t)"
    using assms(3-6) q(1) a by (simp add: ProcessJsonResponseB_def finish_answer_b_def Let_def)
  ultimately show ?thesis using read_bus_same [OF b q(2)] unfolding es by blast
qed

text \<open>A device that has the parameter \<open>k\<close>, and the answer that sets it twice.\<close>

definition device_proc :: "refenv proc" where
  "device_proc = ref_proc (ref_env0\<lparr>re_params := [(''k'', ''0'')]\<rparr>) Map.empty Init"

lemma ref_bus_law: "bus_law (ref_sys pl parse)"
  by (auto simp: bus_law_def ref_sys_def fun_eq_iff split: rbus_value.splits)

lemma device_entries:
  "answer_entries (ref_parsing pl) (feature_list (ref_parsing pl) two_features) = [(''k'', ''1''), (''k'', ''2'')]"
  by (simp add: answer_entries_def GetJsonItem_def item_sample child_entries_def config_key_sample)

lemma no_item:
  "cJSON_GetObjectItem (ref_sys pl parse) (JObject [(''configData'', v)]) ''name'' = None"
  "cJSON_GetObjectItem (ref_sys pl parse) (JObject [(''configData'', v)]) ''effectiveImmediate'' = None"
  by (simp_all add: ref_sys_def ref_json_item_def tolower_def isupper_def)

lemma device_map:
  "\<exists>q. CreateConfigDataValueMap (ref_parsing pl) (Some two_features) device_proc = Inr ((), q) \<and> env q = env device_proc"
  by (auto simp: CreateConfigDataValueMap_def GetJsonItem_def item_sample no_item ref_plat Let_def
      isFeatureEffectiveImmediate_def GetJsonVal_def simp del: rbind_eq_Inr)

lemma device_features:
  "write_features (ref_parsing pl) (feature_list (ref_parsing pl) two_features) ([], device_proc) = Inr ([], device_proc)"
  "all_features_b (ref_parsing pl) (Some two_features) device_proc = Inr (([], False), device_proc)"
  by (simp_all add: all_features_b_def read_feature_def getRFCName_def GetJsonVal_def no_item)

text \<open>The reference data model has no boolean parameters, so the marks around an update do not show in it.\<close>

lemma device_update: "begin_update (ref_parsing pl) device_proc = device_proc" "end_update (ref_parsing pl) device_proc = device_proc"
  by (simp_all add: begin_update_def end_update_def bus_set_def ref_sys_def)

lemma device_ready:
  "RFCKeyAndValueMap device_proc = []" "rbus_open (ref_parsing pl) e" "account_text (ref_parsing pl) e'"
  "cJSON_Parse (ref_parsing pl) t = Some answer_doc"
  "feature_array (ref_parsing pl) answer_doc = Some two_features"
  by (auto simp: device_proc_def ref_proc_def ref_sys_def account_text_def)
    (simp add: feature_array_def GetJsonItem_def item_sample answer_doc_def IsJsonArray_def two_features_def
      ref_sys_def ref_json_item_def)

lemma device_settable: "v = ''1'' \<or> v = ''2'' \<Longrightarrow> entry_settable (ref_parsing pl) (env device_proc) (''k'', v)"
  by (auto simp: entry_settable_def accepts_def ref_sys_def device_proc_def ref_proc_def BOOTSTRAP_XCONF_URL_KEY_STR_def
      copy_rbus_string_def quoted_def StringCaseCompare_def)

lemma device_entries_settable:
  "\<forall>kv\<in>set (answer_entries (ref_parsing pl) (feature_list (ref_parsing pl) two_features)).
      entry_settable (ref_parsing pl) (env device_proc) kv"
  unfolding device_entries using device_settable by simp

text \<open>A camera whose server always gives this answer.\<close>

definition camera :: "refenv sys" where
  "camera = (ref_parsing RDKC)\<lparr>xconf_download := (\<lambda>e u h t. (e, 0, 200, [], ''configSetHash: ab'' @ [CR, NL]))\<rparr>"

lemma camera_fields:
  "plat camera = RDKC" "bus_law camera" "always_answers camera [] (''configSetHash: ab'' @ [CR, NL])" "keeps_outside camera P"
  "cJSON_Parse camera t = Some answer_doc" "cJSON_GetObjectItem camera = ref_json_item"
  "rbus_open camera e" "rbus_get camera = rbus_get (ref_parsing RDKC)" "rbus_set camera = rbus_set (ref_parsing RDKC)"
  using ref_bus_law [of RDKC "\<lambda>_. Some answer_doc"]
  by (simp_all add: camera_def always_answers_def keeps_outside_def bus_law_def) (simp_all add: ref_sys_def)

lemma camera_features: "feature_list camera two_features =
    [JObject [(''configData'', JObject [(''tr181.k'', JString ''1'')])], JObject [(''configData'', JObject [(''k'', JString ''2'')])]]"
  unfolding two_features_def
  by (rule feature_list_array) (simp add: cjson_arrays_def camera_def ref_sys_def ref_array_size_def ref_array_item_def)

lemma camera_items:
  "ref_json_item (JObject [(k, v)]) k = Some v" "ref_json_item (JObject [(''configData'', v)]) ''name'' = None"
  "ref_json_item (JObject [(''configData'', v)]) ''effectiveImmediate'' = None"
  by (simp_all add: ref_json_item_def tolower_def isupper_def)

lemma camera_answer:
  "answer_entries camera (feature_list camera two_features) = [(''k'', ''1''), (''k'', ''2'')]"
  "\<forall>f\<in>set (feature_list camera two_features). \<exists>r. read_feature camera f = Inr r"
  "\<forall>me. \<exists>me'. add_features camera (feature_list camera two_features) me = Inr me'"
  "feature_array camera answer_doc = Some two_features"
  by (simp_all add: camera_features answer_entries_def GetJsonItem_def camera_fields camera_items child_entries_def config_key_sample
      read_feature_def getRFCName_def GetJsonVal_def isFeatureEffectiveImmediate_def)
    (simp add: feature_array_def GetJsonItem_def answer_doc_def camera_fields camera_items IsJsonArray_def
      two_features_def)

lemma camera_all:
  "all_have_config camera (feature_list camera two_features)"
  "all_entries camera (feature_list camera two_features) = [(''k'', ''1''), (''k'', ''2'')]"
proof -
  show c: "all_have_config camera (feature_list camera two_features)"
    by (simp add: all_have_config_def camera_features GetJsonItem_def camera_fields camera_items)
  show "all_entries camera (feature_list camera two_features) = [(''k'', ''1''), (''k'', ''2'')]"
    using camera_answer(1) all_entries_collected [OF c] by simp
qed

lemma rbus_convert_same: "stof_text S = stof_text T \<Longrightarrow> stod_text S = stod_text T \<Longrightarrow> rbus_convert S old v = rbus_convert T old v"
  by (cases old) simp_all

lemma camera_is_ready: "camera_ready camera [(''k'', ''1''), (''k'', ''2'')] (env device_proc)"
proof -
  have "entry_settable camera (env device_proc) kv" if "entry_settable (ref_parsing RDKC) (env device_proc) kv" for kv
    using that rbus_convert_same [of camera "ref_parsing RDKC"]
    by (simp add: entry_settable_def accepts_def camera_fields ref_plat) (simp add: camera_def)
  then show ?thesis using device_settable [of _ RDKC] device_ready(3) [of RDKC "env device_proc"]
    by (simp add: camera_ready_def camera_fields account_text_def)
qed

theorem camera_run_applied_witness:
  "\<exists>q. ProcessRuntimeFeatureControlReq camera device_proc = Inr (SUCCESS, q) \<and>
     read_RFCProperty camera ''rfc'' ''k'' [] 4096 q = Inr (READ_RFC_SUCCESS, ''2'', q) \<and>
     (\<exists>r. GetStoredHashAndTime camera (next_proc q) = Inr ((''ab'', int_str (clock camera (env q))), r))"
proof -
  have hd: "header_hash (cstr (''configSetHash: ab'' @ [CR, NL])) = Some ''ab''" "\<forall>f. fopen_w camera e f" for e
    using sample_header by (simp_all add: cstr_def camera_def ref_sys_def)
  have "\<not> fst (IsDirectBlocked camera device_proc)"
    by (simp add: IsDirectBlocked_def file_present_def device_proc_def ref_proc_def)
  from camera_run_applied [OF camera_fields(1,2,3,5) camera_answer(4) camera_all(1) camera_answer(2,3) camera_fields(4) _ device_ready(1) this]
  obtain q where q: "ProcessRuntimeFeatureControlReq camera device_proc = Inr (SUCCESS, q)"
    "\<forall>k v. map_of (rev [(''k'', ''1''), (''k'', ''2'')]) k = Some v \<longrightarrow>
        read_RFCProperty camera ''rfc'' k [] 4096 q = Inr (READ_RFC_SUCCESS, v, q)"
    "\<forall>h r. Some ''ab'' = Some h \<longrightarrow> NL \<notin> set h \<longrightarrow> (\<forall>f. fopen_w camera (env q) f) \<longrightarrow>
        files r = files q \<longrightarrow> same_device r \<longrightarrow>
        (\<exists>r'. GetStoredHashAndTime camera r = Inr ((h, int_str (clock camera (env q))), r'))"
    unfolding camera_all(2) hd(1) using camera_is_ready by blast
  have "NL \<notin> set ''ab''" by simp
  from q(3) [rule_format, OF refl this hd(2) [rule_format] next_proc_simps(1,3)]
  have "\<exists>r. GetStoredHashAndTime camera (next_proc q) = Inr ((''ab'', int_str (clock camera (env q))), r)" .
  moreover have "map_of (rev [(''k'', ''1''), (''k'', ''2'')]) ''k'' = Some ''2''" by simp
  ultimately show ?thesis using q(1,2) by blast
qed

theorem broadband_answer_applied_witness:
  "\<exists>q. ProcessJsonResponseB (ref_parsing RDKB) [] device_proc = Inr (SUCCESS, q) \<and>
     read_RFCProperty (ref_parsing RDKB) ''rfc'' ''k'' [] 4096 q = Inr (READ_RFC_SUCCESS, ''2'', q)"
proof -
  obtain q where q: "CreateConfigDataValueMap (ref_parsing RDKB) (Some two_features) (end_update (ref_parsing RDKB) device_proc) = Inr ((), q)"
      "env q = env device_proc" using device_map unfolding device_update by blast
  have c: "all_have_config (ref_parsing RDKB) (feature_list (ref_parsing RDKB) two_features)"
    by (simp add: all_have_config_def GetJsonItem_def item_sample)
  have es: "all_entries (ref_parsing RDKB) (feature_list (ref_parsing RDKB) two_features) = [(''k'', ''1''), (''k'', ''2'')]"
    using all_entries_collected [OF c] device_entries by simp
  have "is_rdkb (plat (ref_parsing RDKB))" by (simp add: ref_plat)
  moreover have "all_features_b (ref_parsing RDKB) (Some two_features) (begin_update (ref_parsing RDKB) device_proc) =
      Inr (([], False), device_proc)" by (simp only: device_update device_features)
  moreover have "\<forall>kv\<in>set (all_entries (ref_parsing RDKB) (feature_list (ref_parsing RDKB) two_features)).
      entry_settable (ref_parsing RDKB) (env q) kv"
    using device_entries_settable unfolding q(2) es device_entries .
  ultimately show ?thesis
    using broadband_answer_applied [OF _ ref_bus_law device_ready(2,4,5) _ device_ready(1) q(1) device_ready(2,3) c]
    unfolding es by fastforce
qed

end
