(* ===== verification/Host_Service.thy ===== *)
theory Host_Service
  imports Rfc_Request
begin

text \<open>
  The parameter service of a set-top box (tr69hostif) as rfcapi reaches it over HTTP.  The service is code
  outside the repository; what is relied on is the format of its requests and replies, and that a parameter
  it takes is served afterwards (\<open>host_law\<close>).  Shown here: what \<open>getRFCParameter\<close> and
  \<open>setRFCParameter\<close> make of such a service, and with them \<open>read_RFCProperty\<close> and \<open>set_RFCProperty\<close> of the manager.
\<close>

section \<open>The parameter service\<close>

text \<open>Texts that stand for themselves between the quotes of a JSON string.\<close>

definition plain_text :: "string \<Rightarrow> bool" where
  "plain_text s \<longleftrightarrow> (\<forall>c\<in>set s. (32::nat) \<le> of_char c \<and> c \<noteq> DQ \<and> c \<noteq> CHR 0x5C)"

type_synonym served = "string \<rightharpoonup> string \<times> data_type"

definition num :: "int \<Rightarrow> json" where
  "num i = JNumber i (int_str i @ ''.000000'')"

fun get_reply :: "string \<Rightarrow> (string \<times> data_type) option \<Rightarrow> json" where
  "get_reply k None = JObject [(''statusCode'', num WDMP_FAILURE)]"
| "get_reply k (Some (v, t)) = JObject
     [(''parameters'', JArray [JObject [(''name'', JString k), (''value'', JString v), (''dataType'', num t)]]),
      (''statusCode'', num WDMP_SUCCESS)]"

definition cjson_access :: "'e sys \<Rightarrow> bool" where
  "cjson_access S \<longleftrightarrow> cJSON_GetObjectItem S = ref_json_item \<and> cJSON_GetArraySize S = ref_array_size \<and>
     cJSON_GetArrayItem S = ref_array_item"

text \<open>The controls: the first two may reset values but keep every parameter and its type, the others
  only end the update.\<close>

definition clear_controls :: "string list" where
  "clear_controls = [CLEAR_DB, BOOTSTRAP_CLEAR_DB]"

definition end_controls :: "string list" where
  "end_controls = [''Device.DeviceInfo.X_RDKCENTRAL-COM_RFC.Control.ClearDBEnd'',
     ''Device.DeviceInfo.X_RDKCENTRAL-COM_RFC.Bootstrap.Control.ClearDBEnd'', ''RFC_CONTROL_RELOADCACHE'']"

definition keeps_types :: "served \<Rightarrow> served \<Rightarrow> bool" where
  "keeps_types m m' \<longleftrightarrow> (\<forall>k v t. m k = Some (v, t) \<longrightarrow> (\<exists>v'. m' k = Some (v', t)))"

definition host_step :: "string \<Rightarrow> string \<Rightarrow> data_type \<Rightarrow> served \<Rightarrow> served \<Rightarrow> bool" where
  "host_step k v t m m' \<longleftrightarrow> (if k \<in> set clear_controls then keeps_types m m'
     else if k \<in> set end_controls then m' = m
     else m' = m \<or> m' = m(k \<mapsto> (v, t)))"

abbreviation get_request :: "string \<Rightarrow> string \<Rightarrow> http_req" where
  "get_request h k \<equiv> \<lparr>req_method = HttpGet, req_header = h, req_body = get_request_body k\<rparr>"

abbreviation post_request :: "string \<Rightarrow> string \<Rightarrow> string \<Rightarrow> data_type \<Rightarrow> http_req" where
  "post_request h k v t \<equiv> \<lparr>req_method = HttpPost, req_header = h, req_body = set_request_body k v t\<rparr>"

definition host_law :: "'e sys \<Rightarrow> ('e \<Rightarrow> served) \<Rightarrow> bool" where
  "host_law S srv \<longleftrightarrow> plat S = STB \<and> cjson_access S \<and> (\<forall>e. curl_init S e) \<and>
     (\<forall>e h k e' rc body. plain_text k \<longrightarrow> http S e (get_request h k) = (e', rc, body) \<longrightarrow>
        rc = CURLE_OK \<and> srv e' = srv e \<and> cJSON_Parse S (cstr body) = Some (get_reply k (srv e k))) \<and>
     (\<forall>e h k v t e' rc body. plain_text k \<longrightarrow> plain_text v \<longrightarrow> http S e (post_request h k v t) = (e', rc, body) \<longrightarrow>
        host_step k v t (srv e) (srv e'))"

text \<open>A value the service takes for a parameter of this type.\<close>

definition host_takes :: "'e sys \<Rightarrow> ('e \<Rightarrow> served) \<Rightarrow> string \<Rightarrow> string \<Rightarrow> data_type \<Rightarrow> bool" where
  "host_takes S srv k v t \<longleftrightarrow> (\<forall>e h. srv (fst (http S e (post_request h k v t))) = (srv e)(k \<mapsto> (v, t)))"

section \<open>One parameter\<close>

definition host_name :: "string \<Rightarrow> bool" where
  "host_name k \<longleftrightarrow> k \<noteq> [] \<and> \<not> is_wildcard k \<and> plain_text k"

definition host_up :: "('e, 'z) world_scheme \<Rightarrow> bool" where
  "host_up w \<longleftrightarrow> http_ready w \<or> file_present HTTP_READY_FILE w"

definition served_param :: "string \<Rightarrow> (string \<times> data_type) option \<Rightarrow> RFC_ParamData \<Rightarrow> RFC_ParamData" where
  "served_param k s prm = (case s of None \<Rightarrow> prm | Some (v, t) \<Rightarrow> fill_param k v t prm)"

lemma keeps_types_refl [simp]: "keeps_types m m"
  by (simp add: keeps_types_def)

lemma keeps_types_trans: "keeps_types m m' \<Longrightarrow> keeps_types m' m'' \<Longrightarrow> keeps_types m m''"
  unfolding keeps_types_def by blast

lemma ref_item_simps:
  "ref_json_item (get_reply k None) ''parameters'' = None"
  "ref_json_item (get_reply k None) ''statusCode'' = Some (num WDMP_FAILURE)"
  "ref_json_item (get_reply k (Some (v, t))) ''parameters'' =
     Some (JArray [JObject [(''name'', JString k), (''value'', JString v), (''dataType'', num t)]])"
  "ref_json_item (get_reply k (Some (v, t))) ''statusCode'' = Some (num WDMP_SUCCESS)"
  "ref_json_item (JObject [(''name'', a), (''value'', b), (''dataType'', c)]) ''name'' = Some a"
  "ref_json_item (JObject [(''name'', a), (''value'', b), (''dataType'', c)]) ''value'' = Some b"
  "ref_json_item (JObject [(''name'', a), (''value'', b), (''dataType'', c)]) ''dataType'' = Some c"
  by (simp_all add: ref_json_item_def tolower_def isupper_def)

lemma get_response_served:
  assumes "cjson_access S" "cJSON_Parse S (cstr body) = Some (get_reply k s)"
  shows "get_response S body prm = Inr (if s = None then WDMP_FAILURE else WDMP_SUCCESS, served_param k s prm)"
proof (cases s)
  case None
  with assms show ?thesis
    by (simp add: get_response_def response_status_def cjson_access_def ref_item_simps num_def served_param_def
        del: get_reply.simps)
next
  case (Some vt)
  obtain v t where "vt = (v, t)" by (cases vt)
  with Some assms show ?thesis
    by (simp add: get_response_def response_status_def cjson_access_def ref_item_simps num_def served_param_def
        ref_array_size_def ref_array_item_def apply_subitem_def fill_param_def del: get_reply.simps)
qed

lemma host_get:
  assumes "host_law S srv" "host_name k" "host_up w"
  shows "\<exists>e. getRFCParameter S c k prm w = Inr (if srv (env w) k = None then WDMP_FAILURE else WDMP_SUCCESS,
       served_param k (srv (env w) k) prm, w\<lparr>http_ready := True, env := e\<rparr>) \<and> srv e = srv (env w)"
proof -
  obtain e rc body where h: "http S (env w) (get_request (caller_header c) k) = (e, rc, body)" by (metis prod_cases3)
  with assms(1,2) have l: "rc = CURLE_OK" "srv e = srv (env w)" "cJSON_Parse S (cstr body) = Some (get_reply k (srv (env w) k))"
      "cjson_access S" "curl_init S (env w)"
    unfolding host_law_def host_name_def by blast+
  from get_response_served [OF l(4,3)] show ?thesis
    using assms(2,3) h l(1,2,5)
    by (auto simp: getRFCParameter_def host_name_def host_up_def hostif_request_def)
qed

lemma host_post:
  assumes "host_law S srv" "host_name k" "plain_text v"
  shows "\<exists>st e. setRFCParameter S c k (Some v) t w = Inr (st, w\<lparr>env := e\<rparr>) \<and> host_step k v t (srv (env w)) (srv e) \<and>
     (host_takes S srv k v t \<longrightarrow> srv e = (srv (env w))(k \<mapsto> (v, t)))"
proof -
  obtain e rc body where h: "http S (env w) (post_request (caller_header c) k v t) = (e, rc, body)" by (metis prod_cases3)
  with assms have l: "host_step k v t (srv (env w)) (srv e)" "curl_init S (env w)"
    unfolding host_law_def host_name_def by blast+
  have "host_takes S srv k v t \<Longrightarrow> srv e = (srv (env w))(k \<mapsto> (v, t))"
    using h unfolding host_takes_def by (metis fst_conv)
  with l h assms(2) show ?thesis
    by (auto simp: setRFCParameter_def host_name_def hostif_request_def split: option.splits)
qed

text \<open>The type a write is sent with: that of the served parameter, text for one that is not served.\<close>

definition sent_type :: "served \<Rightarrow> string \<Rightarrow> data_type" where
  "sent_type m k = (case m k of None \<Rightarrow> WDMP_STRING | Some (_, t) \<Rightarrow> t)"

lemma host_set:
  assumes "host_law S srv" "host_name k" "plain_text v" "host_up w"
  shows "\<exists>st e. set_RFCProperty S n k v w = Inr (st, w\<lparr>http_ready := True, env := e\<rparr>) \<and>
     (srv e = srv (env w) \<or> host_step k v (sent_type (srv (env w)) k) (srv (env w)) (srv e)) \<and>
     (\<forall>u t. srv (env w) k = Some (u, t) \<longrightarrow> t \<noteq> WDMP_NONE \<longrightarrow> host_takes S srv k v t \<longrightarrow>
        st = WDMP_SUCCESS \<and> srv e = (srv (env w))(k \<mapsto> (v, t)))"
proof -
  let ?prm = "served_param k (srv (env w) k) param0"
  from host_get [OF assms(1,2,4), of None param0] obtain e1 where g: "getRFCParameter S None k param0 w =
      Inr (if srv (env w) k = None then WDMP_FAILURE else WDMP_SUCCESS, ?prm, w\<lparr>http_ready := True, env := e1\<rparr>)"
      "srv e1 = srv (env w)" by blast
  have t: "prm_type ?prm = sent_type (srv (env w)) k"
    by (simp add: served_param_def sent_type_def param0_def fill_param_def split: option.splits prod.splits)
  let ?w1 = "w\<lparr>http_ready := True, env := e1\<rparr>"
  from host_post [OF assms(1-3), of "Some n" "prm_type ?prm" ?w1] obtain st e where
      s: "setRFCParameter S (Some n) k (Some v) (prm_type ?prm) ?w1 = Inr (st, ?w1\<lparr>env := e\<rparr>)"
        "host_step k v (prm_type ?prm) (srv e1) (srv e)"
        "host_takes S srv k v (prm_type ?prm) \<Longrightarrow> srv e = (srv e1)(k \<mapsto> (v, prm_type ?prm))" by auto
  have api: "set_RFCProperty S n k v w = set_RFCProperty_api S n k v w"
    using assms(1) by (simp add: set_RFCProperty_def host_law_def)
  show ?thesis
  proof (cases "prm_type ?prm = WDMP_NONE")
    case True
    then show ?thesis using g t unfolding api
      by (auto simp: set_RFCProperty_api_def sent_type_def)
  next
    case False
    then show ?thesis using g s t unfolding api
      by (auto simp: set_RFCProperty_api_def sent_type_def)
  qed
qed

lemma sent_step_keeps: "host_step k v (sent_type m k) m m' \<Longrightarrow> keeps_types m m'"
  by (auto simp: host_step_def keeps_types_def sent_type_def split: if_splits option.splits)

text \<open>How a served value reads, in the buffer used for the comparison.\<close>

definition host_text :: "string \<Rightarrow> string" where
  "host_text u = (let b = buf_copy MAX_PARAM_LEN u
     in if quoted b then take (length b - 2) (buf_copy 4096 (tl b)) else buf_copy 4096 b)"

lemma host_read:
  assumes "host_law S srv" "host_name k" "host_up w"
  shows "\<exists>e. read_RFCProperty S n k [] 4096 w = Inr (case srv (env w) k of
      None \<Rightarrow> (READ_RFC_FAILURE, [], w\<lparr>http_ready := True, env := e\<rparr>)
    | Some (u, t) \<Rightarrow> (READ_RFC_SUCCESS, host_text u, w\<lparr>http_ready := True, env := e\<rparr>)) \<and> srv e = srv (env w)"
proof -
  from host_get [OF assms, of "Some n" param0] obtain e where g: "getRFCParameter S (Some n) k param0 w =
      Inr (if srv (env w) k = None then WDMP_FAILURE else WDMP_SUCCESS, served_param k (srv (env w) k) param0,
        w\<lparr>http_ready := True, env := e\<rparr>)" "srv e = srv (env w)" by blast
  have p: "plat S = STB" using assms(1) by (simp add: host_law_def)
  have len: "length (buf_copy MAX_PARAM_LEN u) < 2048" for u
    using buf_copy_length [of MAX_PARAM_LEN u] by (simp add: MAX_PARAM_LEN_def)
  have q: "copy_quoted (buf_copy MAX_PARAM_LEN u) 4096 =
      Inr (take (length (buf_copy MAX_PARAM_LEN u) - 2) (buf_copy 4096 (tl (buf_copy MAX_PARAM_LEN u))))" for u
    using len [of u] by (simp add: copy_quoted_def)
  show ?thesis
  proof (cases "srv (env w) k")
    case None
    with g p show ?thesis by (auto simp: read_RFCProperty_def)
  next
    case (Some ut)
    obtain u t where "ut = (u, t)" by (cases ut)
    with Some g p show ?thesis
      by (auto simp: read_RFCProperty_def served_param_def fill_param_def host_text_def q Let_def)
  qed
qed

lemma quoted_has_quote: "quoted s \<Longrightarrow> DQ \<in> set s"
  using quoted_split [of s] by (metis list.set_intros(1))

lemma plain_text_unquoted:
  assumes "plain_text s"
  shows "\<not> quoted s \<and> NUL \<notin> set s"
proof -
  have "DQ \<notin> set s" using assms unfolding plain_text_def by blast
  moreover have "NUL \<notin> set s"
  proof
    assume "NUL \<in> set s"
    then have "(32::nat) \<le> of_char NUL" using assms unfolding plain_text_def by blast
    then show False by simp
  qed
  ultimately show ?thesis using quoted_has_quote by blast
qed

lemma host_text_plain: "plain_text v \<Longrightarrow> length v < MAX_PARAM_LEN \<Longrightarrow> host_text v = v"
  using plain_text_unquoted [of v] by (simp add: host_text_def buf_copy_fits MAX_PARAM_LEN_def)

end
