(* ===== verification/Rfc_Host.thy ===== *)
theory Rfc_Host
  imports Config_Target Host_Service
begin

text \<open>
  What an update leaves in the data model of a set-top box: the parameter service is a target of
  configuration, so every entry of a processed answer reads back, through the clearing of the store and the
  marks around the update; and the hash and the time recorded after it are what the next request is sent
  with.  A concrete service that keeps the law is at the end.
\<close>

section \<open>One configuration entry\<close>

definition host_settable :: "('e \<Rightarrow> served) \<Rightarrow> 'e sys \<Rightarrow> 'e proc \<Rightarrow> string \<times> string \<Rightarrow> bool" where
  "host_settable srv S p kv \<longleftrightarrow> (let (k, v) = kv in
     host_name k \<and> k \<noteq> BOOTSTRAP_XCONF_URL_KEY_STR STB \<and> k \<notin> set clear_controls \<and>
     \<not> (str_contains k RFC_ACCOUNT_ID_KEY_STR \<and> StringCaseCompare v ''Unknown'') \<and>
     v \<noteq> [] \<and> plain_text v \<and> length v < MAX_PARAM_LEN \<and>
     (\<exists>u t. srv (env p) k = Some (u, t) \<and> t \<noteq> WDMP_NONE \<and> host_takes S srv k v t))"

definition host_holds :: "('e \<Rightarrow> served) \<Rightarrow> 'e sys \<Rightarrow> 'e proc \<Rightarrow> string \<Rightarrow> string \<Rightarrow> bool" where
  "host_holds srv S p k v \<longleftrightarrow> host_name k \<and> (\<exists>u t. srv (env p) k = Some (u, t) \<and> host_text u = v)"

text \<open>The service is used, and the endpoint can be sent to it.\<close>

definition host_ready :: "'e proc \<Rightarrow> bool" where
  "host_ready p \<longleftrightarrow> http_ready p \<and> plain_text (rfcSelectOpt p) \<and> plain_text (xconf_server_url p)"

definition host_moves :: "('e \<Rightarrow> served) \<Rightarrow> 'e sys \<Rightarrow> string \<Rightarrow> 'e proc \<Rightarrow> 'e proc \<Rightarrow> bool" where
  "host_moves srv S k p q \<longleftrightarrow> http_ready q \<and> endpoint q = endpoint p \<and> (\<forall>k'. k' \<noteq> k \<longrightarrow> srv (env q) k' = srv (env p) k')"

lemma host_config_entry:
  assumes "host_law S srv" "http_ready p" "host_settable srv S p (k, v)"
  shows "\<exists>c' q. config_entry S (k, v) (c, p) = Inr (c', q) \<and> host_holds srv S q k v \<and> host_moves srv S k p q"
proof -
  obtain cur0 ps where c: "c = (cur0, ps)" by (cases c)
  from assms(3) obtain u t where st: "host_name k" "k \<noteq> BOOTSTRAP_XCONF_URL_KEY_STR STB" "v \<noteq> []" "plain_text v"
      "length v < MAX_PARAM_LEN" "\<not> (str_contains k RFC_ACCOUNT_ID_KEY_STR \<and> StringCaseCompare v ''Unknown'')"
      "srv (env p) k = Some (u, t)" "t \<noteq> WDMP_NONE" "host_takes S srv k v t"
    by (auto simp: host_settable_def)
  have p: "plat S = STB" using assms(1) by (simp add: host_law_def)
  have up: "host_up p" using assms(2) by (simp add: host_up_def)
  from host_read [OF assms(1) st(1) up, of "''rfc''"] st(7) obtain e1 where
      r: "read_RFCProperty S ''rfc'' k [] 4096 p = Inr (case Some (host_text u) of
        None \<Rightarrow> (READ_RFC_FAILURE, [], p\<lparr>http_ready := True, env := e1\<rparr>)
      | Some v \<Rightarrow> (READ_RFC_SUCCESS, v, p\<lparr>http_ready := True, env := e1\<rparr>))" "srv e1 = srv (env p)" by auto
  let ?p1 = "p\<lparr>http_ready := True, env := e1\<rparr>"
  from change_test [OF r(1) st(6), of cur0] obtain changed cur where
      i: "isConfigValueChange S ''rfc'' k v cur0 p = Inr ((changed, v, cur), ?p1)" "\<not> changed \<Longrightarrow> host_text u = v" by auto
  show ?thesis
  proof (cases changed)
    case False
    with i st(1,7) r(2) show ?thesis
      by (simp add: config_entry_def c host_holds_def host_moves_def)
  next
    case True
    have "host_up ?p1" by (simp add: host_up_def)
    from host_set [OF assms(1) st(1,4) this, of "''rfc''"] st(7,8,9) r(2) obtain e where
        s: "set_RFCProperty S ''rfc'' k v ?p1 = Inr (WDMP_SUCCESS, ?p1\<lparr>http_ready := True, env := e\<rparr>)"
          "srv e = (srv (env p))(k \<mapsto> (v, t))" by auto
    have "\<exists>q. write_entry S k v cur ?p1 = Inr (True, q) \<and> env q = e \<and> http_ready q \<and> endpoint q = endpoint p"
      using s(1) st(2,3) p by (auto simp: write_entry_def)
    then obtain q where q: "write_entry S k v cur ?p1 = Inr (True, q)" "env q = e" "http_ready q" "endpoint q = endpoint p"
      by blast
    with i True s(2) st(1) host_text_plain [OF st(4,5)] show ?thesis
      by (simp add: config_entry_def c host_holds_def host_moves_def)
  qed
qed

section \<open>Clearing and closing\<close>

text \<open>A state in which parameters go over HTTP and keep their types, relative to an earlier one.\<close>

definition host_follows :: "('e \<Rightarrow> served) \<Rightarrow> 'e proc \<Rightarrow> 'e proc \<Rightarrow> bool" where
  "host_follows srv p q \<longleftrightarrow> http_ready q \<and> endpoint q = endpoint p \<and> keeps_types (srv (env p)) (srv (env q))"

lemma host_follows_trans: "host_follows srv p q \<Longrightarrow> host_follows srv q r \<Longrightarrow> host_follows srv p r"
  unfolding host_follows_def using keeps_types_trans by metis

lemma host_set_follows:
  assumes "host_law S srv" "host_name k" "plain_text v" "host_up p"
  shows "\<exists>st q. set_RFCProperty S n k v p = Inr (st, q) \<and> host_follows srv p q \<and>
     (k \<in> set end_controls \<longrightarrow> srv (env q) = srv (env p))"
proof -
  from host_set [OF assms, of n] obtain st e where
    s: "set_RFCProperty S n k v p = Inr (st, p\<lparr>http_ready := True, env := e\<rparr>)"
      "srv e = srv (env p) \<or> host_step k v (sent_type (srv (env p)) k) (srv (env p)) (srv e)" by blast
  moreover have "k \<in> set end_controls \<Longrightarrow> srv e = srv (env p)"
    using s(2) by (auto simp: host_step_def end_controls_def clear_controls_def CLEAR_DB_def BOOTSTRAP_CLEAR_DB_def)
  ultimately show ?thesis using sent_step_keeps by (fastforce simp: host_follows_def)
qed

lemma host_set_all:
  assumes "host_law S srv" "\<forall>(k, v)\<in>set kvs. host_name k \<and> plain_text v" "http_ready p"
  shows "\<exists>q. set_all S kvs p = Inr ((), q) \<and> host_follows srv p q \<and>
     (fst ` set kvs \<subseteq> set end_controls \<longrightarrow> srv (env q) = srv (env p))"
  using assms(2,3)
proof (induction kvs arbitrary: p)
  case (Cons kv kvs)
  obtain k v where kv: "kv = (k, v)" by (cases kv)
  from Cons.prems have kvok: "host_name k" "plain_text v" "host_up p" by (simp_all add: kv host_up_def)
  from host_set_follows [OF assms(1) kvok, of "''rfc''"] obtain st p1 where
    s: "set_RFCProperty S ''rfc'' k v p = Inr (st, p1)" "host_follows srv p p1"
      "k \<in> set end_controls \<longrightarrow> srv (env p1) = srv (env p)" by blast
  then have "http_ready p1" by (simp add: host_follows_def)
  from Cons.IH [OF _ this] Cons.prems(1) obtain q where q: "set_all S kvs p1 = Inr ((), q)" "host_follows srv p1 q"
      "fst ` set kvs \<subseteq> set end_controls \<longrightarrow> srv (env q) = srv (env p1)" by auto
  then show ?case using s host_follows_trans [OF s(2) q(2)] by (simp add: kv)
qed (simp add: host_follows_def)

lemma plain_text_code: "plain_text s \<longleftrightarrow> list_all (\<lambda>c. (32::nat) \<le> of_char c \<and> c \<noteq> DQ \<and> c \<noteq> CHR 0x5C) s"
  by (simp add: plain_text_def list_all_iff)

lemma plain_names:
  "host_name CLEAR_DB" "host_name BOOTSTRAP_CLEAR_DB" "host_name CONFIG_CHANGE_TIME" "host_name RFC_ACCOUNT_ID_KEY_STR"
  "plain_text ''true''" "\<forall>k\<in>set end_controls. host_name k"
  by (simp_all add: host_name_def is_wildcard_def plain_text_code CLEAR_DB_def BOOTSTRAP_CLEAR_DB_def CONFIG_CHANGE_TIME_def
      RFC_ACCOUNT_ID_KEY_STR_def end_controls_def)

lemma plain_int_str: "plain_text (int_str i)"
proof -
  have "(32::nat) \<le> of_char c \<and> c \<noteq> DQ \<and> c \<noteq> CHR 0x5C" if "isdigit c" for c
    using that by (auto simp: isdigit_def)
  then have "plain_text (nat_str n)" for n
    using nat_str_digits by (simp add: plain_text_def)
  then show ?thesis by (simp add: int_str_def plain_text_def)
qed

text \<open>What the update starts from: the account id, in the service or in the process, and the endpoint.\<close>

definition host_start :: "('e \<Rightarrow> served) \<Rightarrow> 'e sys \<Rightarrow> 'e proc \<Rightarrow> bool" where
  "host_start srv S p \<longleftrightarrow> host_up p \<and> plain_text (rfcSelectOpt p) \<and> plain_text (xconf_server_url p) \<and> plain_text (accountId p) \<and>
     (\<forall>u t. srv (env p) RFC_ACCOUNT_ID_KEY_STR = Some (u, t) \<longrightarrow> plain_text u)"

lemma plain_text_take: "plain_text s \<Longrightarrow> plain_text (take n s)"
  by (auto simp: plain_text_def dest: in_set_takeD)

lemma plain_buf_copy: "plain_text s \<Longrightarrow> plain_text (buf_copy n s)"
  by (simp add: buf_copy_def plain_text_unquoted plain_text_take)

lemma host_account:
  assumes "host_law S srv" "host_start srv S p"
  shows "\<exists>q. GetAccountID S p = Inr ((), q) \<and> http_ready q \<and> srv (env q) = srv (env p) \<and> plain_text (accountId q) \<and>
     endpoint q = endpoint p"
proof -
  have up: "host_up p" and acc: "plain_text (accountId p)"
    and val: "\<And>u t. srv (env p) RFC_ACCOUNT_ID_KEY_STR = Some (u, t) \<Longrightarrow> plain_text u"
    using assms(2) by (auto simp: host_start_def)
  have p: "plat S = STB" using assms(1) by (simp add: host_law_def)
  from host_get [OF assms(1) plain_names(4) up, of "Some ''AccountID''" param0] obtain e where
    g: "getRFCParameter S (Some ''AccountID'') RFC_ACCOUNT_ID_KEY_STR param0 p =
      Inr (if srv (env p) RFC_ACCOUNT_ID_KEY_STR = None then WDMP_FAILURE else WDMP_SUCCESS,
        served_param RFC_ACCOUNT_ID_KEY_STR (srv (env p) RFC_ACCOUNT_ID_KEY_STR) param0, p\<lparr>http_ready := True, env := e\<rparr>)"
      "srv e = srv (env p)" by blast
  let ?p1 = "p\<lparr>http_ready := True, env := e\<rparr>"
  show ?thesis
  proof (cases "srv (env p) RFC_ACCOUNT_ID_KEY_STR")
    case None
    then have "read_RFCProperty S ''AccountID'' RFC_ACCOUNT_ID_KEY_STR [] 1024 p = Inr (READ_RFC_FAILURE, [], ?p1)"
      using g p by (simp add: read_RFCProperty_def)
    then show ?thesis using g(2) acc by (simp add: GetAccountID_def)
  next
    case (Some ut)
    obtain u t where ut: "ut = (u, t)" by (cases ut)
    let ?b = "buf_copy 1024 (buf_copy MAX_PARAM_LEN u)"
    have "plain_text u" using val Some ut by blast
    then have b: "plain_text ?b" "\<not> quoted (buf_copy MAX_PARAM_LEN u)"
      using plain_buf_copy plain_text_unquoted by blast+
    then have "read_RFCProperty S ''AccountID'' RFC_ACCOUNT_ID_KEY_STR [] 1024 p = Inr (READ_RFC_SUCCESS, ?b, ?p1)"
      using g p Some ut by (simp add: read_RFCProperty_def served_param_def fill_param_def)
    then show ?thesis using g(2) b(1) p by (simp add: GetAccountID_def Let_def plain_text_def)
  qed
qed

lemma host_clear:
  assumes "host_law S srv" "host_start srv S p"
  shows "\<exists>q. clearDB S p = Inr ((), q) \<and> host_follows srv p q"
proof -
  have p: "plat S = STB" using assms(1) by (simp add: host_law_def)
  from host_account [OF assms] obtain p1 where p1: "GetAccountID S p = Inr ((), p1)" "http_ready p1"
      "srv (env p1) = srv (env p)" "plain_text (accountId p1)" "endpoint p1 = endpoint p" by blast
  define p2 where "p2 = write_file S TR181STORE_FILE [] (p1\<lparr>stashAccountId := accountId p1\<rparr>)"
  have p2: "http_ready p2" "srv (env p2) = srv (env p)" "plain_text (stashAccountId p2)" "endpoint p2 = endpoint p"
    using p1 by (simp_all add: p2_def)
  let ?kvs = "[(CLEAR_DB, ''true''), (BOOTSTRAP_CLEAR_DB, ''true''), (CONFIG_CHANGE_TIME, int_str (clock S (env p1)))]"
  have "\<forall>(k, v)\<in>set ?kvs. host_name k \<and> plain_text v" using plain_names plain_int_str by simp
  from host_set_all [OF assms(1) this p2(1)] obtain p3 where
    p3: "set_all S ?kvs p2 = Inr ((), p3)" "host_follows srv p2 p3" by blast
  have stash: "stashAccountId p3 = stashAccountId p2"
    using set_all_more [OF p3(1)] by (cases p2; cases p3) simp
  have c: "clearDB S p = rfcStashRetrieveParams S p3"
    using p1(1) p3(1) p by (simp add: clearDB_def rfcStashStoreParams_def clear_store_def p2_def del: set_all.simps rbind_eq_Inr)
  have f: "host_follows srv p p3" using p3(2) p2(2,4) by (simp add: host_follows_def)
  have "plain_text (stashAccountId p3)" "host_up p3" using p2(3) p3(2) by (simp_all add: stash host_up_def host_follows_def)
  from host_set_follows [OF assms(1) plain_names(4) this, of "''rfc''"] obtain st q where
    q: "set_RFCProperty S ''rfc'' RFC_ACCOUNT_ID_KEY_STR (stashAccountId p3) p3 = Inr (st, q)" "host_follows srv p3 q" by blast
  have "host_follows srv p q" by (rule host_follows_trans [OF f q(2)])
  then show ?thesis using q(1) f unfolding c rfcStashRetrieveParams_def by (auto simp: host_follows_def)
qed

lemma host_close:
  assumes "host_law S srv" "http_ready p"
  shows "\<exists>q. close_update S p = Inr ((), q) \<and> http_ready q \<and> endpoint q = endpoint p \<and> srv (env q) = srv (env p)"
proof -
  let ?kvs = "map (\<lambda>k. (k, ''true'')) end_controls"
  have "\<forall>(k, v)\<in>set ?kvs. host_name k \<and> plain_text v" using plain_names(5,6) by auto
  from host_set_all [OF assms(1) this assms(2)] obtain q where
    q: "set_all S ?kvs p = Inr ((), q)" "host_follows srv p q" "srv (env q) = srv (env p)" by auto
  have "clearDBEnd S p = set_all S ?kvs p" by (simp add: clearDBEnd_def end_controls_def del: set_all.simps)
  with q assms(1) show ?thesis by (auto simp: close_update_def host_law_def host_follows_def)
qed

section \<open>The service as a target of configuration\<close>

lemma ready_endpoint: "host_ready p \<Longrightarrow> http_ready q \<Longrightarrow> endpoint q = endpoint p \<Longrightarrow> host_ready q"
  by (simp add: host_ready_def endpoint_def)

lemma settable_follows: "host_follows srv p q \<Longrightarrow> host_settable srv S p kv \<Longrightarrow> host_settable srv S q kv"
  by (cases kv) (fastforce simp: host_settable_def host_follows_def keeps_types_def)

interpretation host: config_target "\<lambda>S. host_law S srv" "host_start srv" "\<lambda>S. host_ready"
    "host_settable srv" "host_holds srv" "host_moves srv" for srv :: "'e \<Rightarrow> served"
proof (unfold_locales, goal_cases)
  case (1 S p k v c)
  then show ?case unfolding host_ready_def by (intro host_config_entry) auto
next
  case (2 S k p q)
  then show ?case using ready_endpoint by (auto simp: host_moves_def)
next
  case (3 S k p q k' v)
  then show ?case by (simp add: host_moves_def host_holds_def)
next
  case (4 S k p q kv)
  then show ?case by (cases kv) (simp add: host_moves_def host_settable_def)
next
  case (5 t q S)
  then show ?case by (simp add: host_settable_def host_holds_def host_ready_def endpoint_def fun_eq_iff)
next
  case (6 S p)
  from host_clear [OF this] obtain q where q: "clearDB S p = Inr ((), q)" "host_follows srv p q" by blast
  moreover have "host_ready q" using q(2) 6(2) by (auto simp: host_follows_def host_ready_def host_start_def endpoint_def)
  ultimately show ?case using 6(1) settable_follows by (auto simp: host_law_def)
next
  case (7 S p)
  then have "http_ready p" by (simp add: host_ready_def)
  from host_close [OF 7(1) this] ready_endpoint [OF 7(2)] show ?case by (auto simp: host_holds_def host_settable_def)
next
  case (8 S p k v)
  then show ?case using host_read [of S srv k p "''rfc''"] by (auto simp: host_holds_def host_up_def host_ready_def)
qed

section \<open>The pass that ends a run\<close>

text \<open>A write changes nothing but its parameter.\<close>

lemma host_set_moves:
  assumes "host_law S srv" "host_name k" "plain_text v" "host_up p" "k \<notin> set clear_controls"
  shows "\<exists>st q. set_RFCProperty S n k v p = Inr (st, q) \<and> host_moves srv S k p q \<and>
     (host_settable srv S p (k, v) \<longrightarrow> (\<exists>t. srv (env q) k = Some (v, t)))"
proof -
  from host_set [OF assms(1-4), of n] obtain st e where
    s: "set_RFCProperty S n k v p = Inr (st, p\<lparr>http_ready := True, env := e\<rparr>)"
      "srv e = srv (env p) \<or> host_step k v (sent_type (srv (env p)) k) (srv (env p)) (srv e)"
      "\<forall>u t. srv (env p) k = Some (u, t) \<longrightarrow> t \<noteq> WDMP_NONE \<longrightarrow> host_takes S srv k v t \<longrightarrow>
         st = WDMP_SUCCESS \<and> srv e = (srv (env p))(k \<mapsto> (v, t))" by blast
  let ?q = "p\<lparr>http_ready := True, env := e\<rparr>"
  have "srv e k' = srv (env p) k'" if "k' \<noteq> k" for k'
    using s(2) assms(5) that by (auto simp: host_step_def split: if_splits)
  then have "host_moves srv S k p ?q" by (simp add: host_moves_def)
  moreover have "\<exists>t. srv (env ?q) k = Some (v, t)" if "host_settable srv S p (k, v)"
  proof -
    from that obtain u t where "srv (env p) k = Some (u, t)" "t \<noteq> WDMP_NONE" "host_takes S srv k v t"
      unfolding host_settable_def by auto
    with s(3) show ?thesis by simp
  qed
  ultimately show ?thesis using s(1) by blast
qed

lemma host_moves_trans_at:
  "host_moves srv S k p q \<Longrightarrow> host_moves srv S k' q r \<Longrightarrow> x \<noteq> k \<Longrightarrow> x \<noteq> k' \<Longrightarrow> srv (env r) x = srv (env p) x"
  by (simp add: host_moves_def)

text \<open>A short plain value reads as it is, in a buffer of any size it fits.\<close>

lemma host_read_plain:
  assumes "host_law S srv" "host_name k" "host_up w" "srv (env w) k = Some (u, t)" "plain_text u"
    "length u < n" "length u < MAX_PARAM_LEN"
  shows "\<exists>e. read_RFCProperty S ty k [] n w = Inr (READ_RFC_SUCCESS, u, w\<lparr>http_ready := True, env := e\<rparr>) \<and> srv e = srv (env w)"
proof -
  from host_get [OF assms(1-3), of "Some ty" param0] assms(4) obtain e where g: "getRFCParameter S (Some ty) k param0 w =
      Inr (WDMP_SUCCESS, fill_param k u t param0, w\<lparr>http_ready := True, env := e\<rparr>)" "srv e = srv (env w)"
    by (auto simp: served_param_def)
  have "prm_value (fill_param k u t param0) = u"
    using assms(5,7) plain_text_unquoted by (simp add: fill_param_def buf_copy_fits)
  moreover have "\<not> uses_rbus (plat S)" using assms(1) by (simp add: host_law_def)
  ultimately show ?thesis using g assms(5,6) plain_text_unquoted [of u]
    by (auto simp: read_RFCProperty_def buf_copy_fits)
qed

lemma control_names:
  "host_name RFC_CONFIG_SET_HASH" "host_name RFC_CONFIG_SET_TIME" "host_name XCONF_SELECTOR_KEY_STR" "host_name XCONF_URL_KEY_STR"
  "RFC_CONFIG_SET_HASH \<noteq> RFC_CONFIG_SET_TIME" "XCONF_SELECTOR_KEY_STR \<notin> {RFC_CONFIG_SET_HASH, RFC_CONFIG_SET_TIME}"
  "XCONF_URL_KEY_STR \<notin> {RFC_CONFIG_SET_HASH, RFC_CONFIG_SET_TIME}"
  "XCONF_SELECTOR_KEY_STR \<notin> set clear_controls" "XCONF_URL_KEY_STR \<notin> set clear_controls"
  by (simp_all add: host_name_def is_wildcard_def plain_text_code path_defs clear_controls_def CLEAR_DB_def BOOTSTRAP_CLEAR_DB_def)

definition recorded_names :: "string set" where
  "recorded_names = {RFC_CONFIG_SET_HASH, RFC_CONFIG_SET_TIME, XCONF_SELECTOR_KEY_STR, XCONF_URL_KEY_STR}"

text \<open>Hash and time can be recorded: the service takes them, and they fit the buffer they are read into.\<close>

definition recordable :: "('e \<Rightarrow> served) \<Rightarrow> 'e sys \<Rightarrow> 'e proc \<Rightarrow> string \<Rightarrow> bool" where
  "recordable srv S p h \<longleftrightarrow> host_settable srv S p (RFC_CONFIG_SET_HASH, h) \<and> length h < 1024 \<and>
     (\<forall>e. host_settable srv S p (RFC_CONFIG_SET_TIME, int_str (clock S e)) \<and> length (int_str (clock S e)) < 1024)"

lemma recordable_moves:
  "host_moves srv S k p q \<Longrightarrow> k = RFC_CONFIG_SET_HASH \<Longrightarrow> recordable srv S p h \<Longrightarrow>
     host_settable srv S q (RFC_CONFIG_SET_TIME, int_str (clock S e))"
  using host.moves_settable [of srv S k p q "(RFC_CONFIG_SET_TIME, int_str (clock S e))"] control_names(5)
  by (simp add: recordable_def)

text \<open>What the record keeping after a processed answer leaves behind.\<close>

lemma host_record:
  assumes "host_law S srv" "host_ready p" "recordable srv S p h" "header_hash (cstr header) = Some h"
  shows "\<exists>q t t' p2. updateHashInDB S h p = Inr ((), p2) \<and> updateHashAndTimeInDB S header p = Inr ((), q) \<and> host_ready q \<and>
     srv (env q) RFC_CONFIG_SET_HASH = Some (h, t) \<and> srv (env q) RFC_CONFIG_SET_TIME = Some (int_str (clock S (env p2)), t') \<and>
     (\<forall>k. k \<notin> recorded_names \<longrightarrow> srv (env q) k = srv (env p) k)"
proof -
  have p: "\<not> uses_rbus (plat S)" using assms(1) by (simp add: host_law_def)
  have up: "host_up p" using assms(2) by (simp add: host_ready_def host_up_def)
  have sh: "host_settable srv S p (RFC_CONFIG_SET_HASH, h)" using assms(3) by (simp add: recordable_def)
  from host_set_moves [OF assms(1) control_names(1) _ up, of h "''ConfigSetHash''"] sh obtain st p1 t where
    h: "set_RFCProperty S ''ConfigSetHash'' RFC_CONFIG_SET_HASH h p = Inr (st, p1)"
      "host_moves srv S RFC_CONFIG_SET_HASH p p1" "srv (env p1) RFC_CONFIG_SET_HASH = Some (h, t)"
    by (auto simp: host_settable_def)
  define p2 where "p2 = p1\<lparr>isRebootRequired := isRebootRequired p1 \<and> \<not> StringCaseCompare (bkup_hash p1) h\<rparr>"
  have m2: "host_moves srv S RFC_CONFIG_SET_HASH p p2" "env p2 = env p1" using h(2) by (simp_all add: p2_def host_moves_def)
  let ?c = "int_str (clock S (env p2))"
  have u2: "host_up p2" using m2(1) by (simp add: host_moves_def host_up_def)
  have sc: "host_settable srv S p2 (RFC_CONFIG_SET_TIME, ?c)"
    using recordable_moves [OF m2(1) refl assms(3)] by simp
  from host_set_moves [OF assms(1) control_names(2) _ u2, of ?c "''ConfigSetTime''"] sc obtain st' p3 t' where
    c: "set_RFCProperty S ''ConfigSetTime'' RFC_CONFIG_SET_TIME ?c p2 = Inr (st', p3)"
      "host_moves srv S RFC_CONFIG_SET_TIME p2 p3" "srv (env p3) RFC_CONFIG_SET_TIME = Some (?c, t')"
    by (auto simp: host_settable_def)
  let ?q = "write_file S RFC_SYNC_DONE [] p3"
  have "updateHashInDB S h p = Inr ((), p2)" using h(1) p by (simp add: updateHashInDB_def p2_def)
  moreover have "updateTimeInDB S ?c p2 = Inr ((), p3)" using c(1) p by (simp add: updateTimeInDB_def)
  ultimately have "updateHashInDB S h p = Inr ((), p2) \<and> updateHashAndTimeInDB S header p = Inr ((), ?q)"
    using assms(4) by (simp add: updateHashAndTimeInDB_def)
  moreover have "host_ready ?q"
    using ready_endpoint [OF assms(2), of ?q] m2(1) c(2) by (simp add: host_moves_def)
  moreover have "srv (env ?q) RFC_CONFIG_SET_HASH = Some (h, t)"
    using c(2) h(3) m2(2) control_names(5) by (simp add: host_moves_def)
  moreover have "\<forall>k. k \<notin> recorded_names \<longrightarrow> srv (env ?q) k = srv (env p) k"
    using host_moves_trans_at [OF m2(1) c(2)] by (simp add: recorded_names_def)
  moreover have "srv (env ?q) RFC_CONFIG_SET_TIME = Some (?c, t')" using c(3) by simp
  ultimately show ?thesis by blast
qed

lemma host_endpoint:
  assumes "host_law S srv" "host_ready p"
  shows "\<exists>q. StoreXconfEndpointMetadata S p = Inr ((), q) \<and> host_ready q \<and>
     (\<forall>k. k \<notin> {XCONF_SELECTOR_KEY_STR, XCONF_URL_KEY_STR} \<longrightarrow> srv (env q) k = srv (env p) k)"
proof -
  have pl: "plat S = STB" using assms(1) by (simp add: host_law_def)
  have p: "plain_text (rfcSelectOpt p)" "host_up p" using assms(2) by (simp_all add: host_ready_def host_up_def)
  from host_set_moves [OF assms(1) control_names(3) p control_names(8), of "''XconfSelector''"] obtain st p1 where
    s: "set_RFCProperty S ''XconfSelector'' XCONF_SELECTOR_KEY_STR (rfcSelectOpt p) p = Inr (st, p1)"
      "host_moves srv S XCONF_SELECTOR_KEY_STR p p1" by blast
  have r1: "host_ready p1" using host.moves_ready [OF s(2) assms(2)] .
  then have p1: "plain_text (xconf_server_url p1)" "host_up p1" by (simp_all add: host_ready_def host_up_def)
  from host_set_moves [OF assms(1) control_names(4) p1 control_names(9), of "''XconfUrl''"] obtain st' q where
    u: "set_RFCProperty S ''XconfUrl'' XCONF_URL_KEY_STR (xconf_server_url p1) p1 = Inr (st', q)"
      "host_moves srv S XCONF_URL_KEY_STR p1 q" by blast
  have "StoreXconfEndpointMetadata S p = Inr ((), q)" using s(1) u(1) pl by (simp add: StoreXconfEndpointMetadata_def)
  moreover have "host_ready q" using host.moves_ready [OF u(2) r1] .
  ultimately show ?thesis using host_moves_trans_at [OF s(2) u(2)] by auto
qed

text \<open>Processing the answer itself.\<close>

lemma host_processes:
  assumes "host_law S srv" "cJSON_Parse S (cstr msg) = Some j" "feature_array S j = Some fs"
    "write_features S (feature_list S fs) ([], p) = Inr (rfcList, p1)" "RFCKeyAndValueMap p1 = []"
    "CreateConfigDataValueMap S (Some fs) p1 = Inr ((), p2)" "host_start srv S p2"
    "answer_entries S (feature_list S fs) \<noteq> []"
    "\<forall>kv\<in>set (answer_entries S (feature_list S fs)). host_settable srv S p2 kv"
  shows "\<exists>q. ProcessJsonResponse S msg p = Inr (SUCCESS, q) \<and> host_ready q \<and>
     (\<forall>k v. map_of (rev (answer_entries S (feature_list S fs))) k = Some v \<longrightarrow> host_holds srv S q k v) \<and>
     (\<forall>kv. fst kv \<notin> fst ` set (answer_entries S (feature_list S fs)) \<longrightarrow> host_settable srv S p2 kv \<longrightarrow> host_settable srv S q kv)"
proof -
  from host.answer_data [OF assms(1,5,6,7,8,9)] obtain q where q:
      "processXconfResponseConfigDataPart S (Some fs) p1 = Inr ((), q)" "host_ready q"
      "\<forall>k v. map_of (rev (answer_entries S (feature_list S fs))) k = Some v \<longrightarrow> host_holds srv S q k v"
      "\<forall>kv. fst kv \<notin> fst ` set (answer_entries S (feature_list S fs)) \<longrightarrow> host_settable srv S p2 kv \<longrightarrow> host_settable srv S q kv"
    by blast
  let ?r = "NotifyTelemetry2RemoteFeatures S FEATURE_LIST_FILE ''STAGING'' (WriteFile S ''rfcFeature.list'' rfcList q)"
  let ?t = "WriteFile S ''.version'' (firmware_version ?r) ?r"
  have "endpoint ?t = endpoint q" by simp
  moreover have "env ?t = env q" "http_ready ?t = http_ready q"
    by (simp_all add: WriteFile_def NotifyTelemetry2RemoteFeatures_def Let_def split: option.splits)
  ultimately have same: "host_ready ?t = host_ready q" "host_settable srv S ?t = host_settable srv S q"
      "host_holds srv S ?t = host_holds srv S q" using host.same_outside [of ?t q srv S] by blast+
  have "ProcessJsonResponse S msg p = Inr (SUCCESS, ?t)"
    using assms(2-4) q(1) by (simp add: ProcessJsonResponse_def Let_def)
  then show ?thesis using q(2-4) unfolding same [symmetric] by blast
qed

text \<open>The next request reads what was recorded.  In the initial phase it does so only when the service holds
  the production selector.\<close>

definition selector_prod :: "('e \<Rightarrow> served) \<Rightarrow> 'e proc \<Rightarrow> bool" where
  "selector_prod srv p \<longleftrightarrow> (\<exists>t. srv (env p) XCONF_SELECTOR_KEY_STR = Some (''prod'', t))"

lemma host_retrieve:
  assumes "host_law S srv" "host_up p" "recordable srv S p0 h"
    "srv (env p) RFC_CONFIG_SET_HASH = Some (h, t)" "srv (env p) RFC_CONFIG_SET_TIME = Some (int_str (clock S c), t')"
  shows "\<exists>r. RetrieveHashAndTimeFromPreviousDataSet S p = Inr ((h, int_str (clock S c)), r) \<and>
    partner_id r = partner_id p \<and> accountId r = accountId p"
proof -
  have pl: "\<not> uses_rbus (plat S)" using assms(1) by (simp add: host_law_def)
  have h: "plain_text h" "length h < 1024" "length h < MAX_PARAM_LEN"
    and c: "length (int_str (clock S c)) < 1024" "length (int_str (clock S c)) < MAX_PARAM_LEN"
    using assms(3) by (auto simp: recordable_def host_settable_def)
  from host_read_plain [OF assms(1) control_names(1) assms(2,4) h, of "''ConfigSetHash''"] obtain e where
    r1: "read_RFCProperty S ''ConfigSetHash'' RFC_CONFIG_SET_HASH [] 1024 p =
      Inr (READ_RFC_SUCCESS, h, p\<lparr>http_ready := True, env := e\<rparr>)" "srv e = srv (env p)" by blast
  let ?p1 = "p\<lparr>http_ready := True, env := e\<rparr>"
  have "host_up ?p1" "srv (env ?p1) RFC_CONFIG_SET_TIME = Some (int_str (clock S c), t')"
    using assms(5) r1(2) by (simp_all add: host_up_def)
  from host_read_plain [OF assms(1) control_names(2) this plain_int_str c, of "''ConfigSetTime''"] obtain e' where
    r2: "read_RFCProperty S ''ConfigSetTime'' RFC_CONFIG_SET_TIME [] 1024 ?p1 =
      Inr (READ_RFC_SUCCESS, int_str (clock S c), ?p1\<lparr>http_ready := True, env := e'\<rparr>)" by blast
  show ?thesis using pl r1(1) r2 by (simp add: RetrieveHashAndTimeFromPreviousDataSet_def Let_def)
qed

lemma host_sends:
  assumes "host_law S srv" "host_up p" "recordable srv S p0 h" "same_device p" "rfc_state p = Init \<longrightarrow> selector_prod srv p"
    "srv (env p) RFC_CONFIG_SET_HASH = Some (h, t)" "srv (env p) RFC_CONFIG_SET_TIME = Some (int_str (clock S c), t')"
  shows "\<exists>r. GetStoredHashAndTime S p = Inr ((h, int_str (clock S c)), r)"
proof -
  have pl: "plat S = STB" using assms(1) by (simp add: host_law_def)
  have dev: "last_firmware p = firmware_version p" "partner_id p \<noteq> ''Unknown''" "accountId p \<noteq> ''Unknown''"
    using assms(4) by (simp_all add: same_device_def)
  show ?thesis
  proof (cases "rfc_state p = Init")
    case False
    from host_retrieve [OF assms(1-3,6,7)] show ?thesis
      using pl dev False by (auto simp: GetStoredHashAndTime_def simp del: rbind_eq_Inr)
  next
    case True
    with assms(5) obtain u where u: "srv (env p) XCONF_SELECTOR_KEY_STR = Some (''prod'', u)" by (auto simp: selector_prod_def)
    have pr: "plain_text ''prod''" "length ''prod'' < 1024" "length ''prod'' < MAX_PARAM_LEN"
      by (simp_all add: plain_text_code MAX_PARAM_LEN_def)
    from host_read_plain [OF assms(1) control_names(3) assms(2) u pr, of "''XconfSelector''"] obtain e where
      r1: "read_RFCProperty S ''XconfSelector'' XCONF_SELECTOR_KEY_STR [] 1024 p =
        Inr (READ_RFC_SUCCESS, ''prod'', p\<lparr>http_ready := True, env := e\<rparr>)" "srv e = srv (env p)" by blast
    let ?p1 = "p\<lparr>http_ready := True, env := e\<rparr>"
    have "isXconfSelectorSlotProd S p = Inr (True, ?p1)" by (simp add: isXconfSelectorSlotProd_def r1(1))
    moreover have "host_up ?p1" by (simp add: host_up_def)
    moreover have "srv (env ?p1) = srv (env p)" using r1(2) by simp
    moreover from calculation(2,3) obtain r where
      "RetrieveHashAndTimeFromPreviousDataSet S ?p1 = Inr ((h, int_str (clock S c)), r)"
      "partner_id r = partner_id p" "accountId r = accountId p"
      using host_retrieve [OF assms(1) _ assms(3), of ?p1 t c t'] assms(6,7) by auto
    ultimately show ?thesis using pl dev True by (simp add: GetStoredHashAndTime_def del: rbind_eq_Inr)
  qed
qed

text \<open>The whole pass: every entry reads back, and hash and time are what the next request of such a process is sent with.\<close>

lemma stb_update_recorded:
  assumes "host_law S srv" "cJSON_Parse S (cstr msg) = Some j" "feature_array S j = Some fs"
    "write_features S (feature_list S fs) ([], p) = Inr (rfcList, p1)" "RFCKeyAndValueMap p1 = []"
    "CreateConfigDataValueMap S (Some fs) p1 = Inr ((), p2)" "host_start srv S p2"
    "answer_entries S (feature_list S fs) \<noteq> []"
    "\<forall>kv\<in>set (answer_entries S (feature_list S fs)). host_settable srv S p2 kv \<and> fst kv \<notin> recorded_names"
    "header_hash (cstr header) = Some h" "recordable srv S p2 h"
  shows "\<exists>q. finish_pass S msg header p = Inr (SUCCESS, q) \<and>
     (\<forall>k v. map_of (rev (answer_entries S (feature_list S fs))) k = Some v \<longrightarrow>
        (\<exists>r. read_RFCProperty S ''rfc'' k [] 4096 q = Inr (READ_RFC_SUCCESS, v, r))) \<and>
     (\<exists>p1 p2. ProcessJsonResponse S msg p = Inr (SUCCESS, p1) \<and> updateHashInDB S h p1 = Inr ((), p2) \<and>
        (\<forall>r. env r = env q \<longrightarrow> host_up r \<longrightarrow> same_device r \<longrightarrow> (rfc_state r = Init \<longrightarrow> selector_prod srv r) \<longrightarrow>
           (\<exists>r'. GetStoredHashAndTime S r = Inr ((h, int_str (clock S (env p2))), r'))))"
proof -
  let ?es = "answer_entries S (feature_list S fs)"
  from host_processes [OF assms(1-8)] assms(9) obtain q1 where q1: "ProcessJsonResponse S msg p = Inr (SUCCESS, q1)"
      "host_ready q1" "\<And>k v. map_of (rev ?es) k = Some v \<Longrightarrow> host_holds srv S q1 k v"
      "\<And>kv. fst kv \<notin> fst ` set ?es \<Longrightarrow> host_settable srv S p2 kv \<Longrightarrow> host_settable srv S q1 kv" by blast
  have keys: "k \<in> fst ` set ?es \<Longrightarrow> k \<notin> recorded_names" for k using assms(9) by auto
  then have "RFC_CONFIG_SET_HASH \<notin> fst ` set ?es" "RFC_CONFIG_SET_TIME \<notin> fst ` set ?es"
    unfolding recorded_names_def by blast+
  then have rec: "recordable srv S q1 h" using assms(11) q1(4) by (simp add: recordable_def)
  from host_record [OF assms(1) q1(2) rec assms(10)] obtain q2 t t' p3 where
    q2: "updateHashAndTimeInDB S header q1 = Inr ((), q2)" "host_ready q2"
      "srv (env q2) RFC_CONFIG_SET_HASH = Some (h, t)" "srv (env q2) RFC_CONFIG_SET_TIME = Some (int_str (clock S (env p3)), t')"
      "updateHashInDB S h q1 = Inr ((), p3)"
      "\<And>k. k \<notin> recorded_names \<Longrightarrow> srv (env q2) k = srv (env q1) k" by blast
  let ?q2 = "NotifyTelemetry2Count ''SYST_INFO_RFC_Complete'' q2"
  have n: "env ?q2 = env q2" "http_ready ?q2 = http_ready q2" by (simp_all add: NotifyTelemetry2Count_def)
  have "host_ready ?q2" using ready_endpoint [OF q2(2), of ?q2] n(2) q2(2) by (simp add: host_ready_def)
  from host_endpoint [OF assms(1) this] obtain q where q: "StoreXconfEndpointMetadata S ?q2 = Inr ((), q)" "host_ready q"
      "\<And>k. k \<notin> {XCONF_SELECTOR_KEY_STR, XCONF_URL_KEY_STR} \<Longrightarrow> srv (env q) k = srv (env q2) k" unfolding n(1) by blast
  have pl: "plat S = STB" using assms(1) by (simp add: host_law_def)
  have "finish_pass S msg header p = Inr (SUCCESS, q)"
    using q1(1) q2(1) q(1) pl by (simp add: finish_pass_def process_answer_def)
  moreover have "\<exists>r. read_RFCProperty S ''rfc'' k [] 4096 q = Inr (READ_RFC_SUCCESS, v, r)"
    if kv: "map_of (rev ?es) k = Some v" for k v
  proof (rule host.reads [OF assms(1) q(2)])
    have "k \<notin> recorded_names" using map_of_SomeD [OF kv] keys [of k] by (force simp: image_iff)
    then have "srv (env q) k = srv (env q1) k" using q(3) q2(6) by (simp add: recorded_names_def)
    then show "host_holds srv S q k v" using q1(3) [OF kv] by (simp add: host_holds_def)
  qed
  moreover have "\<exists>r'. GetStoredHashAndTime S r = Inr ((h, int_str (clock S (env p3))), r')"
    if r: "env r = env q" "host_up r" "same_device r" "rfc_state r = Init \<longrightarrow> selector_prod srv r" for r :: "'a proc"
  proof (rule host_sends [OF assms(1) r(2) rec r(3,4)])
    show "srv (env r) RFC_CONFIG_SET_HASH = Some (h, t)" "srv (env r) RFC_CONFIG_SET_TIME = Some (int_str (clock S (env p3)), t')"
      using q(3) [of RFC_CONFIG_SET_HASH] q(3) [of RFC_CONFIG_SET_TIME] q2(3,4) control_names(6,7) by (auto simp: r(1))
  qed
  ultimately show ?thesis using q1(1) q2(5) by blast
qed

section \<open>A service that keeps the law\<close>

text \<open>One concrete service: all its parameters are texts, it reads the requests at their quotes and takes
  every text for a parameter that is no control.\<close>

fun split_at :: "char \<Rightarrow> string \<Rightarrow> string list" where
  "split_at c [] = [[]]"
| "split_at c (x # s) = (if x = c then [] # split_at c s
     else (case split_at c s of [] \<Rightarrow> [[x]] | a # r \<Rightarrow> (x # a) # r))"

lemma split_at_last: "c \<notin> set a \<Longrightarrow> split_at c a = [a]"
  by (induction a) auto

lemma split_at_piece: "c \<notin> set a \<Longrightarrow> split_at c (a @ c # b) = a # split_at c b"
  by (induction a) auto

lemma plain_no_DQ: "plain_text s \<Longrightarrow> DQ \<notin> set s"
  unfolding plain_text_def by blast

lemma int_str_no_DQ: "DQ \<notin> set (int_str i @ ''}]}'')"
  using plain_no_DQ [OF plain_int_str] by simp

lemma split_get: "plain_text k \<Longrightarrow> split_at DQ (get_request_body k) = [''{'', ''names'', '' : ['', k, '']}'']"
  using split_at_piece [OF plain_no_DQ, of k "'']}''"] by (simp add: get_request_body_def)

lemma split_set:
  "plain_text k \<Longrightarrow> plain_text v \<Longrightarrow> split_at DQ (set_request_body k v t) =
     [''{'', ''parameters'', '' : [{'', ''name'', '':'', k, '','', ''value'', '':'', v, '','', ''dataType'', CHR '':'' # int_str t @ ''}]}'']"
  using split_at_piece [OF plain_no_DQ, of k] split_at_piece [OF plain_no_DQ, of v] split_at_last [OF int_str_no_DQ, of t]
  by (simp add: set_request_body_def)

definition shelf :: "refenv \<Rightarrow> served" where
  "shelf e k = map_option (\<lambda>v. (cstr v, WDMP_STRING)) (map_of (re_params e) k)"

definition shelf_http :: "refenv \<Rightarrow> http_req \<Rightarrow> refenv \<times> int \<times> string" where
  "shelf_http e r = (let ws = split_at DQ (req_body r) in case req_method r of
       HttpGet \<Rightarrow> (e, CURLE_OK, (case map_of (re_params e) (ws ! 3) of
           None \<Rightarrow> ''n'' | Some v \<Rightarrow> CHR ''s'' # ws ! 3 @ NL # cstr v))
     | HttpPost \<Rightarrow> (if ws ! 12 = '':0}]}'' \<and> ws ! 5 \<notin> set (clear_controls @ end_controls)
         then e\<lparr>re_params := (ws ! 5, ws ! 9) # re_params e\<rparr> else e, CURLE_OK, []))"

definition shelf_parse :: "string \<Rightarrow> json option" where
  "shelf_parse t = (case t of [] \<Rightarrow> Some answer_doc
     | c # r \<Rightarrow> if c = CHR ''n'' then Some (get_reply [] None)
         else Some (get_reply (hd (split_at NL r)) (Some (drop (Suc (length (hd (split_at NL r)))) r, WDMP_STRING))))"

definition shelf_sys :: "refenv sys" where
  "shelf_sys = (ref_sys STB shelf_parse)\<lparr>http := shelf_http, clock := (\<lambda>_. 7),
     xconf_download := (\<lambda>e u h t. (e, 0, 200, [], ''configSetHash: ab'' @ [CR, NL]))\<rparr>"

lemma shelf_sys_simps:
  "plat shelf_sys = STB" "cjson_access shelf_sys" "curl_init shelf_sys e" "http shelf_sys = shelf_http"
  "cJSON_Parse shelf_sys = shelf_parse" "clock shelf_sys e = 7"
  by (simp_all add: shelf_sys_def ref_sys_def cjson_access_def)

lemma shelf_get:
  assumes "plain_text k"
  shows "\<exists>body. shelf_http e (get_request h k) = (e, CURLE_OK, body) \<and> shelf_parse (cstr body) = Some (get_reply k (shelf e k))"
proof (cases "map_of (re_params e) k")
  case None
  then show ?thesis
    by (simp add: shelf_http_def split_get [OF assms] shelf_def shelf_parse_def cstr_def)
next
  case (Some v)
  have n: "NL \<notin> set k"
  proof
    assume "NL \<in> set k"
    then have "(32::nat) \<le> of_char NL" using assms unfolding plain_text_def by blast
    then show False by simp
  qed
  have "cstr (CHR ''s'' # k @ NL # cstr v) = CHR ''s'' # k @ NL # cstr v"
    using plain_text_unquoted [OF assms] by (intro cstr_id) simp
  with Some show ?thesis
    by (simp add: shelf_http_def split_get [OF assms] shelf_def shelf_parse_def split_at_piece [OF n])
qed

lemma int_str_zero: "int_str t = ''0'' \<longleftrightarrow> t = 0"
proof -
  have z: "int_str 0 = ''0''" by code_simp
  show ?thesis
  proof
    assume "int_str t = ''0''"
    then show "t = 0" using strtol10_int_str [of t] strtol10_int_str [of 0] unfolding z by simp
  qed (simp add: z)
qed

lemma shelf_post:
  assumes "plain_text k" "plain_text v"
  shows "shelf (fst (shelf_http e (post_request h k v t))) =
     (if t = WDMP_STRING \<and> k \<notin> set (clear_controls @ end_controls) then (shelf e)(k \<mapsto> (v, t)) else shelf e)"
  using plain_text_unquoted [OF assms(2)]
  by (auto simp: shelf_http_def split_set [OF assms] shelf_def fun_eq_iff int_str_zero)

lemma shelf_law: "host_law shelf_sys shelf"
proof -
  have "rc = CURLE_OK \<and> shelf e' = shelf e \<and> shelf_parse (cstr body) = Some (get_reply k (shelf e k))"
    if "plain_text k" "shelf_http e (get_request h k) = (e', rc, body)" for e h k e' rc body
    using shelf_get [OF that(1), of e h] that(2) by auto
  moreover have "host_step k v t (shelf e) (shelf e')"
    if "plain_text k" "plain_text v" "shelf_http e (post_request h k v t) = (e', rc, body)" for e h k v t e' rc body
    using shelf_post [OF that(1,2), of e h t] that(3) by (auto simp: host_step_def)
  ultimately show ?thesis unfolding host_law_def shelf_sys_simps(1,4,5) using shelf_sys_simps(2,3) by blast
qed

definition stb_proc :: "refenv proc" where
  "stb_proc = ref_proc (ref_env0\<lparr>re_params := [(''k'', ''0''), (RFC_CONFIG_SET_HASH, ''0''), (RFC_CONFIG_SET_TIME, ''0'')]\<rparr>)
     [HTTP_READY_FILE \<mapsto> []] Init"

lemma shelf_items:
  "cJSON_GetObjectItem shelf_sys (JObject [(k, v)]) k = Some v"
  "cJSON_GetObjectItem shelf_sys (JObject [(''configData'', v)]) ''name'' = None"
  "cJSON_GetObjectItem shelf_sys (JObject [(''configData'', v)]) ''effectiveImmediate'' = None"
  by (simp_all add: shelf_sys_def ref_sys_def ref_json_item_def tolower_def isupper_def)

lemma shelf_features: "feature_list shelf_sys two_features =
    [JObject [(''configData'', JObject [(''tr181.k'', JString ''1'')])], JObject [(''configData'', JObject [(''k'', JString ''2'')])]]"
  unfolding two_features_def
  by (rule feature_list_array) (simp add: cjson_arrays_def shelf_sys_def ref_sys_def ref_array_size_def ref_array_item_def)

lemma shelf_entries: "answer_entries shelf_sys (feature_list shelf_sys two_features) = [(''k'', ''1''), (''k'', ''2'')]"
  by (simp add: answer_entries_def GetJsonItem_def shelf_features shelf_items child_entries_def config_key_sample)

lemma shelf_answer:
  "feature_array shelf_sys answer_doc = Some two_features"
  "\<forall>f\<in>set (feature_list shelf_sys two_features). \<exists>r. read_feature shelf_sys f = Inr r"
  "\<forall>me. \<exists>me'. add_features shelf_sys (feature_list shelf_sys two_features) me = Inr me'"
  by (simp add: feature_array_def GetJsonItem_def shelf_items answer_doc_def IsJsonArray_def two_features_def)
    (simp_all add: shelf_features read_feature_def getRFCName_def GetJsonVal_def GetJsonItem_def isFeatureEffectiveImmediate_def
      shelf_items, fastforce)

lemma shelf_settable:
  assumes "env q = env stb_proc" "k \<in> {''k'', RFC_CONFIG_SET_HASH, RFC_CONFIG_SET_TIME}" "v \<in> {''1'', ''2'', ''7'', ''ab''}"
  shows "host_settable shelf shelf_sys q (k, v)"
proof -
  have v: "plain_text v" "\<not> StringCaseCompare v ''Unknown''" "v \<noteq> []" "length v < MAX_PARAM_LEN"
    using assms(3) by (auto simp: plain_text_code StringCaseCompare_def MAX_PARAM_LEN_def)
  have k: "host_name k" "k \<notin> set (clear_controls @ end_controls)" "k \<noteq> BOOTSTRAP_XCONF_URL_KEY_STR STB"
    using assms(2) control_names(1,2)
    by (auto simp: host_name_def is_wildcard_def plain_text_code clear_controls_def end_controls_def path_defs CLEAR_DB_def
        BOOTSTRAP_CLEAR_DB_def BOOTSTRAP_XCONF_URL_KEY_STR_def)
  then have "host_takes shelf_sys shelf k v WDMP_STRING"
    using shelf_post [OF _ v(1), of k] by (simp add: host_takes_def shelf_sys_simps host_name_def)
  moreover have "shelf (env q) k = Some (''0'', WDMP_STRING)"
    using assms(2) by (auto simp: assms(1) stb_proc_def ref_proc_def shelf_def cstr_def path_defs)
  ultimately show ?thesis using k v by (simp add: host_settable_def)
qed

end
