(* ===== verification/Host_Run.thy ===== *)
theory Host_Run
  imports Rfc_Host
begin

text \<open>
  A whole run of the manager on a set-top box: the request loop over the parameter service.  What the
  steps of a round need is that the texts the process sends or reads are plain, which the rounds keep
  (interpretation \<open>host_run\<close> of \<open>answered_run\<close>); together with \<open>Rfc_Host\<close> this gives
  that an answered run ends with success, that every entry of the answer reads back, and that the next request
  is sent with the hash of this answer.  The properties of the loop that hold on every build stand here too,
  over the two interpretations \<open>bus_run\<close> and \<open>host_run\<close>.
\<close>

section \<open>Reading over HTTP\<close>

text \<open>A plain value of any length is read without a fault.\<close>

lemma host_read_any:
  assumes "host_law S srv" "host_name k" "host_up p" "0 < n" "\<forall>u t. srv (env p) k = Some (u, t) \<longrightarrow> plain_text u"
  shows "\<exists>i b e. read_RFCProperty S ty k [] n p = Inr (i, b, p\<lparr>http_ready := True, env := e\<rparr>) \<and> srv e = srv (env p)"
proof -
  from host_get [OF assms(1-3), of "Some ty" param0] obtain e where g: "getRFCParameter S (Some ty) k param0 p =
      Inr (if srv (env p) k = None then WDMP_FAILURE else WDMP_SUCCESS, served_param k (srv (env p) k) param0,
        p\<lparr>http_ready := True, env := e\<rparr>)" "srv e = srv (env p)" by blast
  have pl: "\<not> uses_rbus (plat S)" using assms(1) by (simp add: host_law_def)
  show ?thesis
  proof (cases "srv (env p) k")
    case None
    with g pl assms(4) show ?thesis by (auto simp: read_RFCProperty_def)
  next
    case (Some ut)
    obtain u t where ut: "ut = (u, t)" by (cases ut)
    then have "\<not> quoted (buf_copy MAX_PARAM_LEN u)" using assms(5) Some plain_buf_copy plain_text_unquoted by blast
    with g pl assms(4) Some ut show ?thesis by (auto simp: read_RFCProperty_def served_param_def fill_param_def)
  qed
qed

definition queried :: "string set" where
  "queried = {XCONF_SELECTOR_KEY_STR, RFC_CONFIG_SET_HASH, RFC_CONFIG_SET_TIME, RFC_DEBUGSRV, RFC_DEVICETYPE,
     RFC_ACCOUNT_ID_KEY_STR}"

definition query_plain :: "served \<Rightarrow> bool" where
  "query_plain m \<longleftrightarrow> (\<forall>k\<in>queried. \<forall>u t. m k = Some (u, t) \<longrightarrow> plain_text u)"

lemma queried_names: "k \<in> queried \<Longrightarrow> host_name k"
  using control_names(1-3) plain_names(4)
  by (auto simp: queried_def) (simp_all add: host_name_def is_wildcard_def plain_text_code path_defs RFC_DEBUGSRV_def RFC_DEVICETYPE_def)

text \<open>The texts a process sends, and its configuration map.\<close>

definition texts :: "'e proc \<Rightarrow> string list \<times> (string, string) std_map" where
  "texts p = ([rfcSelectOpt p, xconf_server_url p, boot_strap_xconf_url p, accountId p], RFCKeyAndValueMap p)"

definition host_same :: "('e \<Rightarrow> served) \<Rightarrow> 'e proc \<Rightarrow> 'e proc \<Rightarrow> bool" where
  "host_same srv p q \<longleftrightarrow> http_ready q \<and> srv (env q) = srv (env p) \<and> texts q = texts p \<and> files q = files p"

lemma host_same_trans: "host_same srv p q \<Longrightarrow> host_same srv q r \<Longrightarrow> host_same srv p r"
  by (simp add: host_same_def)

lemma texts_more: "world.more q = world.more p \<Longrightarrow> texts q = texts p" for p q :: "'e proc"
  by (cases p; cases q) (simp add: texts_def)

lemma texts_simps [simp]:
  "texts (p\<lparr>env := e\<rparr>) = texts p" "texts (p\<lparr>http_ready := b\<rparr>) = texts p" "texts (p\<lparr>bkup_hash := h\<rparr>) = texts p"
  "texts (p\<lparr>rfc_state := st\<rparr>) = texts p" "texts (p\<lparr>url_validation_in_progress := b\<rparr>) = texts p"
  "texts (write_file S f c p) = texts p" "texts (remove_file f p) = texts p" "texts (emit x p) = texts p"
  "texts (do_sleep S n p) = texts p"
  by (simp_all add: texts_def write_file_def remove_file_def emit_def do_sleep_def split: prod.splits)

lemma host_query:
  assumes "host_law S srv" "http_ready p" "query_plain (srv (env p))" "k \<in> queried" "0 < n"
  shows "\<exists>i b q. read_RFCProperty S ty k [] n p = Inr (i, b, q) \<and> host_same srv p q"
proof -
  have "host_up p" using assms(2) by (simp add: host_up_def)
  moreover have "\<forall>u t. srv (env p) k = Some (u, t) \<longrightarrow> plain_text u" using assms(3,4) unfolding query_plain_def by blast
  ultimately obtain i b e where r: "read_RFCProperty S ty k [] n p = Inr (i, b, p\<lparr>http_ready := True, env := e\<rparr>)"
      "srv e = srv (env p)" using host_read_any [OF assms(1) queried_names [OF assms(4)] _ assms(5), of p ty] by blast
  have "host_same srv p (p\<lparr>http_ready := True, env := e\<rparr>)" using r(2) by (simp add: host_same_def)
  with r(1) show ?thesis by blast
qed

lemma host_retrieve_any:
  assumes "host_law S srv" "http_ready p" "query_plain (srv (env p))"
  shows "\<exists>h t q. RetrieveHashAndTimeFromPreviousDataSet S p = Inr ((h, t), q) \<and> host_same srv p q"
proof -
  from host_query [OF assms, of RFC_CONFIG_SET_HASH 1024 "''ConfigSetHash''"] obtain i b p1 where
    r1: "read_RFCProperty S ''ConfigSetHash'' RFC_CONFIG_SET_HASH [] 1024 p = Inr (i, b, p1)" "host_same srv p p1"
    by (auto simp: queried_def)
  then have "http_ready p1" "query_plain (srv (env p1))" using assms(3) by (simp_all add: host_same_def)
  from host_query [OF assms(1) this, of RFC_CONFIG_SET_TIME 1024 "''ConfigSetTime''"] obtain j b2 p2 where
    r2: "read_RFCProperty S ''ConfigSetTime'' RFC_CONFIG_SET_TIME [] 1024 p1 = Inr (j, b2, p2)" "host_same srv p1 p2"
    by (auto simp: queried_def)
  have "host_same srv p p2" by (rule host_same_trans [OF r1(2) r2(2)])
  then have "host_same srv p (p2\<lparr>bkup_hash := h\<rparr>)" for h by (simp add: host_same_def)
  moreover have "\<not> uses_rbus (plat S)" using assms(1) by (simp add: host_law_def)
  ultimately show ?thesis using r1(1) r2(1) by (simp add: RetrieveHashAndTimeFromPreviousDataSet_def Let_def)
qed

lemma host_hash:
  assumes "host_law S srv" "http_ready p" "query_plain (srv (env p))"
  shows "\<exists>h t q. GetStoredHashAndTime S p = Inr ((h, t), q) \<and> host_same srv p q"
proof -
  have pl: "plat S = STB" using assms(1) by (simp add: host_law_def)
  have r0: "host_same srv p p" using assms(2) by (simp add: host_same_def)
  from host_query [OF assms, of XCONF_SELECTOR_KEY_STR 1024 "''XconfSelector''"] obtain i b p1 where
    r: "read_RFCProperty S ''XconfSelector'' XCONF_SELECTOR_KEY_STR [] 1024 p = Inr (i, b, p1)" "host_same srv p p1"
    by (auto simp: queried_def)
  then have q1: "http_ready p1" "query_plain (srv (env p1))" using assms(3) by (simp_all add: host_same_def)
  obtain h t q where s: "RetrieveHashAndTimeFromPreviousDataSet S p = Inr ((h, t), q)" "host_same srv p q"
    using host_retrieve_any [OF assms] by blast
  obtain h1 t1 q2 where s1: "RetrieveHashAndTimeFromPreviousDataSet S p1 = Inr ((h1, t1), q2)" "host_same srv p q2"
    using host_retrieve_any [OF assms(1) q1] host_same_trans [OF r(2)] by blast
  define prod where "prod \<longleftrightarrow> i \<noteq> READ_RFC_FAILURE \<and> b = ''prod''"
  have x: "isXconfSelectorSlotProd S p = Inr (prod, p1)" by (simp add: isXconfSelectorSlotProd_def r(1) prod_def)
  consider "last_firmware p \<noteq> firmware_version p" | "last_firmware p = firmware_version p" "rfc_state p \<noteq> Init"
    | "last_firmware p = firmware_version p" "rfc_state p = Init" prod
    | "last_firmware p = firmware_version p" "rfc_state p = Init" "\<not> prod" by blast
  then show ?thesis
    by cases (simp_all add: GetStoredHashAndTime_def pl s s1 x r r0)
qed

text \<open>Between two rounds: the service is in use and unchanged, the texts are plain, the map is empty.\<close>

definition host_between :: "('e \<Rightarrow> served) \<Rightarrow> served \<Rightarrow> 'e proc \<Rightarrow> bool" where
  "host_between srv m p \<longleftrightarrow> http_ready p \<and> srv (env p) = m \<and> (\<forall>s\<in>set (fst (texts p)). plain_text s) \<and> snd (texts p) = []"

lemma host_between_same: "host_same srv p q \<Longrightarrow> host_between srv m p \<Longrightarrow> host_between srv m q"
  by (simp add: host_same_def host_between_def)

lemma host_unlock:
  assumes "host_law S srv" "host_between srv m p" "query_plain m"
  shows "\<exists>b q. isSecureDbgSrvUnlocked S p = Inr (b, q) \<and> host_between srv m q"
proof -
  have h: "http_ready p" "query_plain (srv (env p))" using assms(2,3) by (simp_all add: host_between_def)
  from host_query [OF assms(1) h, of RFC_DEBUGSRV RFC_VALUE_BUF_SIZE "''DEBUGSRV''"] obtain i b p1 where
    r1: "read_RFCProperty S ''DEBUGSRV'' RFC_DEBUGSRV [] RFC_VALUE_BUF_SIZE p = Inr (i, b, p1)" "host_same srv p p1"
    by (auto simp: queried_def RFC_VALUE_BUF_SIZE_def)
  then have h1: "http_ready p1" "query_plain (srv (env p1))" using h(2) by (simp_all add: host_same_def)
  from host_query [OF assms(1) h1, of RFC_DEVICETYPE RFC_VALUE_BUF_SIZE "''LABSGND''"] obtain j c p2 where
    r2: "read_RFCProperty S ''LABSGND'' RFC_DEVICETYPE [] RFC_VALUE_BUF_SIZE p1 = Inr (j, c, p2)" "host_same srv p1 p2"
    by (auto simp: queried_def RFC_VALUE_BUF_SIZE_def)
  obtain d where d: "isDebugServicesEnabled S p = Inr (d, p1)" using r1(1) by (simp add: isDebugServicesEnabled_def)
  obtain t where t: "getDeviceTypeRFC S 16 p1 = Inr (t, p2)" using r2(1) by (simp add: getDeviceTypeRFC_def)
  have "host_between srv m p2" using host_between_same [OF host_same_trans [OF r1(2) r2(2)] assms(2)] .
  moreover have "host_between srv m (NotifyTelemetry2Count x q) = host_between srv m q" for x q
    by (simp add: NotifyTelemetry2Count_def host_between_def)
  ultimately show ?thesis using assms(2) unfolding isSecureDbgSrvUnlocked_def by (auto simp: d t Let_def)
qed

section \<open>Pre-processing an answer\<close>

text \<open>The same with the values of the answer in the map.\<close>

definition map_plain :: "(string, string) std_map \<Rightarrow> bool" where
  "map_plain m \<longleftrightarrow> (\<forall>(k, v)\<in>set m. plain_text v)"

definition host_sound :: "('e \<Rightarrow> served) \<Rightarrow> served \<Rightarrow> 'e proc \<Rightarrow> bool" where
  "host_sound srv m p \<longleftrightarrow> http_ready p \<and> srv (env p) = m \<and> (\<forall>s\<in>set (fst (texts p)). plain_text s) \<and> map_plain (snd (texts p))"

lemma map_put_set: "set (map_put k v m) \<subseteq> insert (k, v) (set m)"
proof (induction m)
  case (Cons ab m)
  then show ?case by (cases ab) (auto split: if_splits)
qed simp

lemma map_plain_put: "map_plain m \<Longrightarrow> plain_text v \<Longrightarrow> map_plain (map_put k v m)"
  using map_put_set [of k v m] unfolding map_plain_def by blast

lemma map_plain_put_all: "map_plain m \<Longrightarrow> map_plain es \<Longrightarrow> map_plain (std_map.put_all es m)"
  unfolding std_map.put_all_def
proof (induction es arbitrary: m)
  case (Cons e es)
  obtain k v where e: "e = (k, v)" by (cases e)
  with Cons.prems(2) have "plain_text v" "map_plain es" by (simp_all add: map_plain_def)
  with Cons.IH [OF map_plain_put [OF Cons.prems(1), of v k]] show ?case by (simp add: e)
qed simp

lemma plain_Nil [simp]: "plain_text []"
  by (simp add: plain_text_def)

lemma sound_upd [simp]:
  "host_sound srv m (p\<lparr>valid_accountId := v\<rparr>) = host_sound srv m p" "host_sound srv m (p\<lparr>valid_partnerId := v\<rparr>) = host_sound srv m p"
  "host_sound srv m (p\<lparr>partner_id := v\<rparr>) = host_sound srv m p" "host_sound srv m (p\<lparr>rfc_state := st\<rparr>) = host_sound srv m p"
  "host_sound srv m (p\<lparr>is_first_request := b\<rparr>) = host_sound srv m p" "host_sound srv m (p\<lparr>rfcSelectorSlot := v\<rparr>) = host_sound srv m p"
  by (simp_all add: host_sound_def texts_def)

lemma sound_texts [simp]:
  "host_sound srv m p \<Longrightarrow> plain_text v \<Longrightarrow> host_sound srv m (p\<lparr>accountId := v\<rparr>)"
  "host_sound srv m p \<Longrightarrow> plain_text v \<Longrightarrow> host_sound srv m (p\<lparr>xconf_server_url := v\<rparr>)"
  by (simp_all add: host_sound_def texts_def)

lemma sound_redo [simp]: "host_sound srv m (redo_unless_whoami S p) = host_sound srv m p"
  by (simp add: redo_unless_whoami_def)

lemma sound_map_read:
  assumes "host_sound srv m p"
  shows "host_sound srv m (snd (map_read k p)) \<and> plain_text (fst (map_read k p))"
proof (cases "map_of (RFCKeyAndValueMap p) k")
  case None
  with assms map_plain_put [of "RFCKeyAndValueMap p" "[]" k] show ?thesis
    by (simp add: map_read_def map_index_def host_sound_def texts_def)
next
  case (Some v)
  then have "(k, v) \<in> set (RFCKeyAndValueMap p)" by (rule map_of_SomeD)
  with Some assms show ?thesis by (auto simp: map_read_def map_index_def host_sound_def texts_def map_plain_def)
qed

lemma sound_account: "host_sound srv m p \<Longrightarrow> host_sound srv m (GetValidAccountId S p)"
  using sound_map_read [of srv m p RFC_ACCOUNT_ID_KEY_STR]
  by (auto simp: GetValidAccountId_def case_prod_beta Let_def plain_text_code)

lemma sound_partner: "host_sound srv m p \<Longrightarrow> host_sound srv m (GetValidPartnerId S p)"
  using sound_map_read [of srv m p RFC_PARTNER_ID_KEY_STR]
  by (auto simp: GetValidPartnerId_def case_prod_beta Let_def)

lemma sound_select:
  assumes "host_sound srv m p"
  shows "host_sound srv m (GetXconfSelect p)"
proof -
  define p2 where "p2 = (if fst (map_read XCONF_URL_KEY_STR p) \<noteq> []
     then (snd (map_read XCONF_URL_KEY_STR p))\<lparr>xconf_server_url := fst (map_read XCONF_URL_KEY_STR p)\<rparr>
     else snd (map_read XCONF_URL_KEY_STR p))"
  have "host_sound srv m p2" using sound_map_read [OF assms, of XCONF_URL_KEY_STR] by (simp add: p2_def)
  then have "host_sound srv m (snd (map_read XCONF_SELECTOR_KEY_STR p2))" using sound_map_read by blast
  then show ?thesis unfolding GetXconfSelect_def case_prod_beta Let_def p2_def [symmetric] by simp
qed

lemma sound_pre: "host_sound srv m p \<Longrightarrow> host_sound srv m (pre_select (pre_first S p))"
  using sound_account [of srv m p S] sound_partner [of srv m "GetValidAccountId S p" S]
    sound_select [of srv m "pre_first S p"]
  by (auto simp: pre_first_def pre_select_def)

text \<open>The values of the answer are plain.\<close>

definition answer_plain :: "'e sys \<Rightarrow> string \<Rightarrow> bool" where
  "answer_plain S body \<longleftrightarrow> (\<forall>j fs. cJSON_Parse S (cstr body) = Some j \<longrightarrow> feature_array S j = Some fs \<longrightarrow>
     map_plain (answer_entries S (feature_list S fs)))"

lemma host_pre:
  assumes "answer_plain S body" "host_between srv m p" "PreProcessJsonResponse S body p = Inr ((), q)"
  shows "host_between srv m q"
proof (cases "q = p \<or> q = p\<lparr>rfc_state := Finish\<rparr>")
  case True
  with assms(2) show ?thesis by (auto simp: host_between_def)
next
  case False
  with assms(3) obtain j fs p1 where c: "cJSON_Parse S (cstr body) = Some j" "feature_array S j = Some fs"
      "CreateConfigDataValueMap S (Some fs) p = Inr ((), p1)" "q = (pre_select (pre_first S p1))\<lparr>RFCKeyAndValueMap := []\<rparr>"
    by (auto simp: PreProcessJsonResponse_def split: option.splits if_splits)
  from CreateConfig_frame [OF c(3)] obtain mp es where
    f: "p1 = p\<lparr>RFCKeyAndValueMap := mp, effectiveImmediateParams := es\<rparr>" by blast
  have "map_plain (RFCKeyAndValueMap p1)"
    using CreateConfigDataValueMap_map [OF c(3)] assms(1,2) c(1,2)
    by (auto simp: host_between_def texts_def answer_plain_def intro!: map_plain_put_all) (simp add: map_plain_def)
  then have "host_sound srv m p1" using assms(2) by (simp add: host_between_def host_sound_def texts_def f)
  from sound_pre [OF this, of S] show ?thesis by (simp add: c(4) host_sound_def host_between_def texts_def)
qed

section \<open>The rounds\<close>

lemma http_ready_fold_remove [simp]: "http_ready (fold remove_file ds w) = http_ready w"
  by (induction ds arbitrary: w) simp_all

lemma texts_fold_remove [simp]: "texts (fold remove_file ds p) = texts p"
  by (induction ds arbitrary: p) simp_all

lemma conclude_same:
  "env (snd (conclude_download S (0, 200, body, header) p)) = env p"
  "http_ready (snd (conclude_download S (0, 200, body, header) p)) = http_ready p"
  "texts (snd (conclude_download S (0, 200, body, header) p)) = texts p"
  by (simp_all add: conclude_download_def classify_response_def Let_def curl_cert_errors_def cleanAllFile_def)

lemma plain_append: "plain_text a \<Longrightarrow> plain_text b \<Longrightarrow> plain_text (a @ b)"
  by (auto simp: plain_text_def)

lemma choose_between:
  assumes "host_between srv m p"
  shows "host_between srv m (choose_url S u p)"
proof -
  let ?url = "boot_strap_xconf_url p @ ''/featureControl/getSettings''"
  have "plain_text ?url" using assms by (intro plain_append) (simp_all add: host_between_def texts_def plain_text_code)
  then have "host_between srv m (p\<lparr>xconf_server_url := ?url\<rparr>)" using assms by (simp add: host_between_def texts_def)
  moreover have "host_between srv m (NotifyTelemetry2Value k v q) = host_between srv m q" for k v q
    by (simp add: NotifyTelemetry2Value_def host_between_def)
  ultimately show ?thesis using assms by (simp add: choose_url_def Let_def)
qed

interpretation host_run: answered_run
    "\<lambda>S body. host_law S srv \<and> keeps_outside S (\<lambda>e. srv e = m) \<and> query_plain m \<and> answer_plain S body"
    "\<lambda>S. host_between srv m" for srv :: "'e \<Rightarrow> served" and m
proof (unfold_locales, goal_cases)
  case (1 S body p)
  then have "http_ready p" "query_plain (srv (env p))" by (simp_all add: host_between_def)
  with host_hash [of S srv p] 1 host_between_same show ?case by blast
next
  case (2 S body p url h t)
  then show ?case by (auto simp: ExecuteRequest_def host_between_def keeps_outside_def case_prod_beta)
next
  case (3 S body p header)
  then show ?case by (simp add: host_between_def conclude_same)
next
  case (4 S body p u)
  then show ?case using choose_between by blast
next
  case (5 S body p q)
  then show ?case using host_pre by blast
next
  case (6 S p st)
  show ?case by (simp add: host_between_def)
next
  case (7 S body p n)
  then show ?case by (simp add: host_between_def keeps_outside_def)
qed

section \<open>Every build\<close>

text \<open>When the stored hash and time can be read: over rbus they are files; on a set-top box the parameter
  service has to be in use, to answer as documented and to hold texts that need no escapes.\<close>

definition hash_readable :: "('e \<Rightarrow> served) \<Rightarrow> 'e sys \<Rightarrow> 'e proc \<Rightarrow> bool" where
  "hash_readable srv S p \<longleftrightarrow> uses_rbus (plat S) \<or> (host_law S srv \<and> http_ready p \<and> query_plain (srv (env p)))"

text \<open>The same throughout a run: downloads and pauses do not change what the service holds, and the texts of
  the process and of the answer need no escapes.\<close>

definition run_readable :: "('e \<Rightarrow> served) \<Rightarrow> 'e sys \<Rightarrow> string \<Rightarrow> 'e proc \<Rightarrow> bool" where
  "run_readable srv S body p \<longleftrightarrow> uses_rbus (plat S) \<or> (host_law S srv \<and> query_plain (srv (env p)) \<and>
     keeps_outside S (\<lambda>e. srv e = srv (env p)) \<and> answer_plain S body \<and> host_between srv (srv (env p)) p)"

section \<open>Properties\<close>

text \<open>C1: on every build, when the server answers every request with a usable document and the stored hash and
  time can be read throughout the run (which they always can over rbus; on a set-top box this is what
  \<open>run_readable\<close> asks of the parameter service), the run reaches the pass that processes the document within
  the three rounds, from every phase of the state machine.\<close>

theorem answer_is_processed:
  assumes "run_readable srv S body p" "always_answers S body header" "good_body S body"
  shows "\<exists>q. request_loop S u 0 p = finish_pass S body header q"
proof -
  have r: "rank (rfc_state p, is_first_request p) + 0 \<le> RETRY_COUNT"
    by (auto simp: RETRY_COUNT_def split: RfcState.splits)
  show ?thesis
  proof (cases "uses_rbus (plat S)")
    case True
    then have "uses_rbus (plat S) \<and> keeps_outside S (\<lambda>_. True)" by (simp add: keeps_outside_def)
    moreover have "between_rounds False (\<lambda>_. True) p" by (simp add: between_rounds_def)
    ultimately show ?thesis using bus_run.loop [OF _ assms(2,3) _ r] by blast
  next
    case False
    with assms(1) have "host_law S srv \<and> keeps_outside S (\<lambda>e. srv e = srv (env p)) \<and> query_plain (srv (env p)) \<and> answer_plain S body"
      "host_between srv (srv (env p)) p" unfolding run_readable_def by blast+
    from host_run.loop [OF this(1) assms(2,3) this(2) r] show ?thesis by blast
  qed
qed

text \<open>C18: on every build, a run of the loop in which no URL validation is pending and the stored hash and time
  can be read (always over rbus; on a set-top box while the parameter service is in use) ends at once with success
  and without touching a file when the server answers "not modified".\<close>

theorem not_modified_succeeds:
  assumes "hash_readable srv S p" "always_unmodified S" "\<not> url_validation_in_progress p"
  shows "\<exists>q. request_loop S u 0 p = Inr (SUCCESS, q) \<and> files q = files p"
proof (cases "uses_rbus (plat S)")
  case True
  then show ?thesis using bus_loop_unmodified assms(2,3) by blast
next
  case False
  have c: "env (choose_url S u p) = env p" "http_ready (choose_url S u p) = http_ready p" "files (choose_url S u p) = files p"
    by (simp_all add: choose_url_def Let_def NotifyTelemetry2Value_def emit_def)
  from False assms(1) have "host_law S srv" "http_ready (choose_url S u p)" "query_plain (srv (env (choose_url S u p)))"
    by (auto simp: hash_readable_def c)
  from host_hash [OF this] obtain h t q where "GetStoredHashAndTime S (choose_url S u p) = Inr ((h, t), q)" "files q = files p"
    by (auto simp: host_same_def c)
  from request_loop_unmodified [OF this assms(2,3)] show ?thesis .
qed

text \<open>The clock when the hash of an answer has been stored, which is the time recorded with it.\<close>

definition update_time :: "'e sys \<Rightarrow> string \<Rightarrow> string \<Rightarrow> 'e proc \<Rightarrow> int \<Rightarrow> bool" where
  "update_time S body header p c \<longleftrightarrow> (\<exists>q1 q2 q3 h. ProcessRuntimeFeatureControlReq S p = finish_pass S body header q1 \<and>
     ProcessJsonResponse S body q1 = Inr (SUCCESS, q2) \<and> header_hash (cstr header) = Some h \<and>
     updateHashInDB S h q2 = Inr ((), q3) \<and> c = clock S (env q3))"

lemma settable_outside: "srv (env q) = srv (env p) \<Longrightarrow> host_settable srv S q = host_settable srv S p"
  by (simp add: host_settable_def fun_eq_iff)

text \<open>C3: a run on a set-top box that is not blocked, with a server that answers every request with a usable
  document whose features all carry \<open>configData\<close> and all of whose entries the parameter service takes (the
  parameter exists, it is not the bootstrap URL, not one of those that clear the store or record the update, and
  the value is not empty and not an unknown account id), ends with success from every phase of the state machine.
  Afterwards every configuration entry of the answer reads back with the value it had there last, through
  the clearing of the store and the marks around the update.  Every process that finds this service in use, has
  the firmware of the update, knows its partner and account and is not in its initial phase with another
  selector than the production one, sends its next request with the hash of this answer and the time at which the
  hash was stored.  Downloads and pauses are assumed not to change what the service holds, and
  the texts involved not to need JSON escapes.\<close>

theorem stb_run_applied:
  assumes "host_law S srv" "always_answers S body header"
    "cJSON_Parse S (cstr body) = Some j" "feature_array S j = Some fs" "all_have_config S (feature_list S fs)"
    "\<forall>f\<in>set (feature_list S fs). \<exists>r. read_feature S f = Inr r"
    "\<forall>me. \<exists>me'. add_features S (feature_list S fs) me = Inr me'"
    "keeps_outside S (\<lambda>e. srv e = srv (env p))" "query_plain (srv (env p))"
    "http_ready p" "\<forall>s\<in>set (fst (texts p)). plain_text s" "snd (texts p) = []" "\<not> fst (IsDirectBlocked S p)"
    "all_entries S (feature_list S fs) \<noteq> []"
    "\<forall>kv\<in>set (all_entries S (feature_list S fs)). host_settable srv S p kv \<and> fst kv \<notin> recorded_names"
    "header_hash (cstr header) = Some h" "recordable srv S p h"
  shows "\<exists>q c. ProcessRuntimeFeatureControlReq S p = Inr (SUCCESS, q) \<and>
     (\<forall>k v. map_of (rev (all_entries S (feature_list S fs))) k = Some v \<longrightarrow>
        (\<exists>r. read_RFCProperty S ''rfc'' k [] 4096 q = Inr (READ_RFC_SUCCESS, v, r))) \<and>
     update_time S body header p c \<and>
     (\<forall>r. env r = env q \<longrightarrow> host_up r \<longrightarrow> same_device r \<longrightarrow> (rfc_state r = Init \<longrightarrow> selector_prod srv r) \<longrightarrow>
        (\<exists>r'. GetStoredHashAndTime S r = Inr ((h, int_str c), r')))"
proof -
  note es = all_entries_collected [OF assms(5)]
  let ?m = "srv (env p)"
  define p1 where "p1 = p\<lparr>rfcSelectOpt := (if rfc_state p = Local then ''local'' else ''prod'')\<rparr>"
  let ?p2 = "snd (IsDirectBlocked S p1)"
  have nb: "\<not> fst (IsDirectBlocked S p1)"
    using assms(13) by (auto simp: p1_def IsDirectBlocked_def file_present_def Let_def split: if_splits)
  have "host_between srv ?m p1" using assms(10-12) by (auto simp: p1_def host_between_def texts_def plain_text_code)
  then have "host_between srv ?m ?p2" by (simp add: IsDirectBlocked_def Let_def host_between_def)
  from host_unlock [OF assms(1) this assms(9)] obtain u p3 where
    p3: "isSecureDbgSrvUnlocked S ?p2 = Inr (u, p3)" "host_between srv ?m p3" by blast
  have good: "good_body S body" unfolding good_body_def using assms(3,4,7) by blast
  have "answer_plain S body"
    using assms(3,4,15) by (auto simp: answer_plain_def map_plain_def host_settable_def es)
  then have ok: "host_law S srv \<and> keeps_outside S (\<lambda>e. srv e = ?m) \<and> query_plain ?m \<and> answer_plain S body"
    using assms(1,8,9) by blast
  have "rank (rfc_state p3, is_first_request p3) + 0 \<le> RETRY_COUNT" by (auto simp: RETRY_COUNT_def split: RfcState.splits)
  from host_run.loop [OF ok assms(2) good p3(2) this] obtain q where
    q: "request_loop S u 0 p3 = finish_pass S body header q" "host_between srv ?m q" by blast
  from write_features_total [OF assms(6), of "[]" q] obtain l q1 where
    q1: "write_features S (feature_list S fs) ([], q) = Inr (l, q1)" "env q1 = env q" "http_ready q1 = http_ready q"
      "world.more q1 = world.more q" by blast
  have m1: "RFCKeyAndValueMap q1 = []" using texts_more [OF q1(4)] q(2) by (simp add: host_between_def texts_def)
  from CreateConfig_good [OF assms(7)] obtain mp es where
    c: "CreateConfigDataValueMap S (Some fs) q1 = Inr ((), q1\<lparr>RFCKeyAndValueMap := mp, effectiveImmediateParams := es\<rparr>)" by blast
  let ?q2 = "q1\<lparr>RFCKeyAndValueMap := mp, effectiveImmediateParams := es\<rparr>"
  have start: "host_start srv S ?q2"
    using q(2) texts_more [OF q1(4)] q1(2,3) assms(9)
    by (auto simp: host_start_def host_between_def host_up_def texts_def query_plain_def queried_def)
  have e: "srv (env ?q2) = srv (env p)" using q(2) q1(2) by (simp add: host_between_def)
  have "recordable srv S ?q2 h" using assms(17) by (simp add: recordable_def settable_outside [OF e])
  moreover have "answer_entries S (feature_list S fs) \<noteq> []"
      "\<forall>kv\<in>set (answer_entries S (feature_list S fs)). host_settable srv S ?q2 kv \<and> fst kv \<notin> recorded_names"
    using assms(14,15) by (simp_all add: settable_outside [OF e] es)
  ultimately obtain t t1 t2 where t: "finish_pass S body header q = Inr (SUCCESS, t)"
    "\<forall>k v. map_of (rev (answer_entries S (feature_list S fs))) k = Some v \<longrightarrow>
        (\<exists>r. read_RFCProperty S ''rfc'' k [] 4096 t = Inr (READ_RFC_SUCCESS, v, r))"
    "ProcessJsonResponse S body q = Inr (SUCCESS, t1)" "updateHashInDB S h t1 = Inr ((), t2)"
    "\<forall>r. env r = env t \<longrightarrow> host_up r \<longrightarrow> same_device r \<longrightarrow> (rfc_state r = Init \<longrightarrow> selector_prod srv r) \<longrightarrow>
        (\<exists>r'. GetStoredHashAndTime S r = Inr ((h, int_str (clock S (env t2))), r'))"
    using stb_update_recorded [OF assms(1,3,4) q1(1) m1 c start _ _ assms(16)] by blast
  have run: "ProcessRuntimeFeatureControlReq S p = finish_pass S body header q"
    using p3(1) nb q(1) by (simp add: ProcessRuntimeFeatureControlReq_def p1_def [symmetric] Let_def case_prod_beta)
  have "update_time S body header p (clock S (env t2))"
    unfolding update_time_def using run t(3,4) assms(16) by blast
  then show ?thesis using run t(1,2,5) unfolding es by auto
qed

lemma shelf_server:
  "always_answers shelf_sys [] (''configSetHash: ab'' @ [CR, NL])" "keeps_outside shelf_sys P"
  by (simp_all add: shelf_sys_def always_answers_def keeps_outside_def) (simp_all add: ref_sys_def)

text \<open>The service before the run, and a process between two rounds.\<close>

definition stb_idle :: "refenv proc" where
  "stb_idle = stb_proc\<lparr>http_ready := True\<rparr>"

lemma stb_idle_ready:
  "query_plain (shelf (env stb_idle))" "http_ready stb_idle" "\<forall>s\<in>set (fst (texts stb_idle)). plain_text s"
  "snd (texts stb_idle) = []" "\<not> fst (IsDirectBlocked shelf_sys stb_idle)" "env stb_idle = env stb_proc"
  by (auto simp: query_plain_def queried_def shelf_def stb_idle_def stb_proc_def ref_proc_def cstr_def plain_text_code path_defs
      RFC_DEBUGSRV_def RFC_DEVICETYPE_def split: if_splits)
    (auto simp: texts_def plain_text_code IsDirectBlocked_def file_present_def path_defs)

theorem stb_run_applied_witness:
  "\<exists>q. ProcessRuntimeFeatureControlReq shelf_sys stb_idle = Inr (SUCCESS, q) \<and>
     (\<exists>r. read_RFCProperty shelf_sys ''rfc'' ''k'' [] 4096 q = Inr (READ_RFC_SUCCESS, ''2'', r)) \<and>
     (\<exists>r. GetStoredHashAndTime shelf_sys ((next_proc q)\<lparr>http_ready := True, rfc_state := Redo\<rparr>) = Inr ((''ab'', ''7''), r))"
proof -
  have seven: "int_str 7 = ''7''" by code_simp
  have hd: "header_hash (cstr (''configSetHash: ab'' @ [CR, NL])) = Some ''ab''"
    using sample_header by (simp add: cstr_def)
  have ps: "cJSON_Parse shelf_sys (cstr []) = Some answer_doc" by (simp add: shelf_sys_simps shelf_parse_def cstr_def)
  have cf: "all_have_config shelf_sys (feature_list shelf_sys two_features)"
    by (simp add: all_have_config_def GetJsonItem_def shelf_features shelf_items)
  have es: "all_entries shelf_sys (feature_list shelf_sys two_features) = [(''k'', ''1''), (''k'', ''2'')]"
    using all_entries_collected [OF cf] shelf_entries by simp
  have ne: "all_entries shelf_sys (feature_list shelf_sys two_features) \<noteq> []" by (simp add: es)
  have st: "\<forall>kv\<in>set (all_entries shelf_sys (feature_list shelf_sys two_features)).
      host_settable shelf shelf_sys stb_idle kv \<and> fst kv \<notin> recorded_names"
    using shelf_settable [OF stb_idle_ready(6)] by (simp add: es recorded_names_def path_defs)
  have rc: "recordable shelf shelf_sys stb_idle ''ab''"
    using shelf_settable [OF stb_idle_ready(6)] by (simp add: recordable_def shelf_sys_simps seven)
  from stb_run_applied [OF shelf_law shelf_server(1) ps shelf_answer(1) cf shelf_answer(2,3) shelf_server(2)
      stb_idle_ready(1-5) ne st hd rc] obtain q c where
    q: "ProcessRuntimeFeatureControlReq shelf_sys stb_idle = Inr (SUCCESS, q)"
      "\<forall>k v. map_of (rev [(''k'', ''1''), (''k'', ''2'')]) k = Some v \<longrightarrow>
        (\<exists>r. read_RFCProperty shelf_sys ''rfc'' k [] 4096 q = Inr (READ_RFC_SUCCESS, v, r))"
      "update_time shelf_sys [] (''configSetHash: ab'' @ [CR, NL]) stb_idle c"
      "\<forall>r. env r = env q \<longrightarrow> host_up r \<longrightarrow> same_device r \<longrightarrow> (rfc_state r = Init \<longrightarrow> selector_prod shelf r) \<longrightarrow>
        (\<exists>r'. GetStoredHashAndTime shelf_sys r = Inr ((''ab'', int_str c), r'))"
    unfolding es by blast
  have c: "c = 7" using q(3) by (auto simp: update_time_def shelf_sys_simps)
  let ?r = "(next_proc q)\<lparr>http_ready := True, rfc_state := Redo\<rparr>"
  have "env ?r = env q" "host_up ?r" "same_device ?r" "rfc_state ?r = Init \<longrightarrow> selector_prod shelf ?r"
    by (simp_all add: next_proc_def host_up_def same_device_def)
  with q(4) have "\<exists>r'. GetStoredHashAndTime shelf_sys ?r = Inr ((''ab'', int_str c), r')" by blast
  moreover have "map_of (rev [(''k'', ''1''), (''k'', ''2'')]) ''k'' = Some ''2''" by simp
  ultimately show ?thesis using q(1,2) unfolding c seven by blast
qed

text \<open>The same box asks a server that answers, and one that has nothing new.\<close>

lemma stb_idle_plain: "answer_plain shelf_sys []" "host_between shelf (shelf (env stb_idle)) stb_idle"
  using stb_idle_ready
  by (auto simp: answer_plain_def shelf_sys_simps shelf_parse_def cstr_def shelf_answer shelf_entries map_plain_def
      plain_text_code host_between_def)

theorem answer_is_processed_witness:
  "\<exists>q. request_loop shelf_sys False 0 stb_idle = finish_pass shelf_sys [] (''configSetHash: ab'' @ [CR, NL]) q"
proof -
  have "run_readable shelf shelf_sys [] stb_idle"
    unfolding run_readable_def using shelf_law stb_idle_ready(1) shelf_server(2) stb_idle_plain by blast
  moreover have "cJSON_Parse shelf_sys (cstr []) = Some answer_doc" by (simp add: shelf_sys_simps shelf_parse_def cstr_def)
  then have "good_body shelf_sys []" unfolding good_body_def using shelf_answer(1,3) by blast
  ultimately show ?thesis using shelf_server(1) by (intro answer_is_processed)
qed

definition quiet_shelf :: "refenv sys" where
  "quiet_shelf = shelf_sys\<lparr>xconf_download := (\<lambda>e u h t. (e, 0, 304, [], []))\<rparr>"

theorem not_modified_succeeds_witness:
  "\<exists>q. request_loop quiet_shelf False 0 stb_idle = Inr (SUCCESS, q) \<and> files q = files stb_idle"
proof -
  have "host_law quiet_shelf shelf" using shelf_law by (simp add: host_law_def quiet_shelf_def cjson_access_def)
  then have "hash_readable shelf quiet_shelf stb_idle" unfolding hash_readable_def using stb_idle_ready(1,2) by blast
  moreover have "always_unmodified quiet_shelf"
    by (simp add: always_unmodified_def quiet_shelf_def shelf_sys_def) (simp add: ref_sys_def)
  moreover have "\<not> url_validation_in_progress stb_idle" by (simp add: stb_idle_def stb_proc_def ref_proc_def)
  ultimately show ?thesis by (rule not_modified_succeeds)
qed

end
