(* ===== verification/Retry_Loop.thy ===== *)
theory Retry_Loop
  imports Main
begin

text \<open>
  The contract of a loop that repeats its body while a test on the state the body leaves says so, and
  that may never return: \<open>run\<close> gives the final state, or \<open>None\<close> when there is none.  A component
  proves the unfolding law and that a run which returns made finitely many rounds; it obtains from
  the locale when the loop returns, with which state, and a bound on the rounds from a measure.
\<close>

locale do_while =
  fixes body :: "'s \<Rightarrow> 's"
    and again :: "'s \<Rightarrow> bool"
    and run :: "'s \<Rightarrow> 's option"
  assumes run_unfold: "run s = (if again (body s) then run (body s) else Some (body s))"
    and run_finite: "run s = Some t \<Longrightarrow> \<exists>k. \<not> again ((body ^^ Suc k) s)"
begin

lemma run_at:
  "\<forall>j<k. again ((body ^^ Suc j) s) \<Longrightarrow> \<not> again ((body ^^ Suc k) s) \<Longrightarrow> run s = Some ((body ^^ Suc k) s)"
proof (induction k arbitrary: s)
  case 0
  then show ?case by (simp add: run_unfold [of s])
next
  case (Suc k)
  have "again (body s)" using Suc.prems(1) by (auto dest: spec [of _ 0])
  moreover have "run (body s) = Some ((body ^^ Suc k) (body s))"
  proof (rule Suc.IH)
    show "\<forall>j<k. again ((body ^^ Suc j) (body s))"
      using Suc.prems(1) by (auto simp: funpow_Suc_right simp del: funpow.simps(2))
    show "\<not> again ((body ^^ Suc k) (body s))"
      using Suc.prems(2) by (simp add: funpow_Suc_right del: funpow.simps(2))
  qed
  ultimately show ?case by (simp add: run_unfold [of s] funpow_Suc_right del: funpow.simps(2))
qed

lemma first_stop: "\<not> again ((body ^^ Suc k) s) \<Longrightarrow>
   \<exists>j\<le>k. (\<forall>i<j. again ((body ^^ Suc i) s)) \<and> \<not> again ((body ^^ Suc j) s)"
  using exists_least_iff [of "\<lambda>j. \<not> again ((body ^^ Suc j) s)"] by (metis not_le)

lemma run_returns_iff: "(\<exists>t. run s = Some t) \<longleftrightarrow> (\<exists>k. \<not> again ((body ^^ Suc k) s))"
  using run_finite first_stop run_at by meson

lemma run_Some_iff:
  "run s = Some t \<longleftrightarrow> (\<exists>k. t = (body ^^ Suc k) s \<and> \<not> again t \<and> (\<forall>j<k. again ((body ^^ Suc j) s)))"
proof
  assume r: "run s = Some t"
  then obtain k where "\<forall>j<k. again ((body ^^ Suc j) s)" "\<not> again ((body ^^ Suc k) s)"
    using run_finite first_stop by meson
  with run_at [of k s] r show "\<exists>k. t = (body ^^ Suc k) s \<and> \<not> again t \<and> (\<forall>j<k. again ((body ^^ Suc j) s))"
    by (metis option.inject)
qed (use run_at in blast)

text \<open>A measure that every further round decreases bounds the rounds.\<close>

lemma run_bounded:
  assumes "\<And>s. again (body s) \<Longrightarrow> m (body s) < m s"
  shows "\<exists>k\<le>m s. run s = Some ((body ^^ Suc k) s)"
proof (induction "m s" arbitrary: s rule: less_induct)
  case less
  show ?case
  proof (cases "again (body s)")
    case True
    from less [OF assms [OF True]] obtain k where k: "k \<le> m (body s)" "run (body s) = Some ((body ^^ Suc k) (body s))"
      by blast
    have "run s = Some ((body ^^ Suc (Suc k)) s)"
      using k(2) True by (simp add: run_unfold [of s] funpow_Suc_right del: funpow.simps(2))
    moreover have "Suc k \<le> m s" using assms [OF True] k(1) by simp
    ultimately show ?thesis by blast
  next
    case False
    then show ?thesis by (intro exI [of _ 0]) (simp add: run_unfold [of s])
  qed
qed

end

end
