(* ===== verification/Rfc_Mtls.thy ===== *)
theory Rfc_Mtls
  imports Rfc_Download Retry_Loop
begin

text \<open>
  The download of the build with a certificate selector (\<open>LIBRDKCERTSELECTOR\<close> in
  rfc_xconf_handler.cpp and mtlsUtils.cpp): the selector is created once and kept in a static, and
  the request is repeated with the next certificate as long as the selector says so.  The selector
  library is the parameter \<open>certsel\<close>.  The download library clears both buffers when it starts a
  transfer, so a round that reaches the transfer replaces what the round before it wrote; a round
  whose transport cannot be initialised leaves it, and the HTTP status, as they were.  Shown here:
  when the loop returns and how many requests it makes, and that with a selector content with the first
  certificate this build and the one without a selector agree.
\<close>

section \<open>Certificates\<close>

record MtlsAuth =
  cert_name :: string
  cert_type :: string
  key_pas :: string

definition blank_auth :: MtlsAuth where
  "blank_auth = \<lparr>cert_name = [], cert_type = [], key_pas = []\<rparr>"

datatype MtlsAuthStatus = MTLS_CERT_FETCH_FAILURE | MTLS_CERT_FETCH_SUCCESS

definition getMtlscert :: "MtlsAuth \<Rightarrow> MtlsAuthStatus \<times> MtlsAuth" where
  "getMtlscert sec = (MTLS_CERT_FETCH_SUCCESS, sec)"

text \<open>The variant of the build without a selector, \<open>MTLS_FAILURE\<close> being \<open>-1\<close>.\<close>

definition getMtlscert_legacy :: "MtlsAuth \<Rightarrow> int \<times> MtlsAuth" where
  "getMtlscert_legacy sec = (-1, sec)"

text \<open>The selector library: whether a selector can be created, what it answers to a transport result
  (\<open>True\<close> for \<open>TRY_ANOTHER\<close>), and the transfer with a given certificate.\<close>

record 'e certsel =
  rdkcertselector_new :: "'e \<Rightarrow> bool"
  rdkcertselector_setCurlStatus :: "'e \<Rightarrow> int \<Rightarrow> string \<Rightarrow> 'e \<times> bool"
  sec_download :: "MtlsAuth \<Rightarrow> 'e \<Rightarrow> string \<Rightarrow> string \<Rightarrow> string \<Rightarrow> 'e \<times> int \<times> int \<times> string \<times> string"

section \<open>The loop over the certificates\<close>

text \<open>\<open>cs_out\<close>: transport result, HTTP status, body and header so far; \<open>cs_failed\<close>: no certificate
  could be fetched.\<close>

record 'e cert_state =
  cs_again :: bool
  cs_failed :: bool
  cs_sec :: MtlsAuth
  cs_out :: "int \<times> int \<times> string \<times> string"
  cs_proc :: "'e proc"

definition request_with ::
    "'e certsel \<Rightarrow> 'e sys \<Rightarrow> MtlsAuth \<Rightarrow> string \<Rightarrow> string \<Rightarrow> string \<Rightarrow> int \<times> int \<times> string \<times> string \<Rightarrow> 'e proc
       \<Rightarrow> (int \<times> int \<times> string \<times> string) \<times> 'e proc" where
  "request_with C S sec url h t old p =
     (if curl_init S (env p) then ExecuteRequest (S\<lparr>xconf_download := sec_download C sec\<rparr>) url h t p
      else ((-1, snd old), p))"

definition cert_round ::
    "'e certsel \<Rightarrow> 'e sys \<Rightarrow> string \<Rightarrow> string \<Rightarrow> string \<Rightarrow> 'e cert_state \<Rightarrow> 'e cert_state" where
  "cert_round C S url h t s =
     (let (ret, sec) = getMtlscert (cs_sec s) in
      if ret = MTLS_CERT_FETCH_FAILURE then s\<lparr>cs_again := False, cs_failed := True, cs_sec := sec\<rparr>
      else let (r, p1) = request_with C S sec url h t (cs_out s) (NotifyTelemetry2Count ''SYS_INFO_MTLS_enable'' (cs_proc s));
               (e, more) = rdkcertselector_setCurlStatus C (env p1) (fst r) url
           in \<lparr>cs_again = more, cs_failed = False, cs_sec = sec, cs_out = r, cs_proc = p1\<lparr>env := e\<rparr>\<rparr>)"

partial_function (option) cert_loop ::
    "'e certsel \<Rightarrow> 'e sys \<Rightarrow> string \<Rightarrow> string \<Rightarrow> string \<Rightarrow> 'e cert_state \<Rightarrow> 'e cert_state option" where
  "cert_loop C S url h t s =
     (let s1 = cert_round C S url h t s in if cs_again s1 then cert_loop C S url h t s1 else Some s1)"

definition cert_start :: "'e proc \<Rightarrow> 'e cert_state" where
  "cert_start p = \<lparr>cs_again = False, cs_failed = False, cs_sec = blank_auth, cs_out = (-1, -1, [], []), cs_proc = p\<rparr>"

text \<open>\<open>sel\<close>: the static holds a selector.  The two early returns give \<open>-1\<close>.\<close>

definition DownloadRuntimeFeatutres_cs ::
    "'e certsel \<Rightarrow> 'e sys \<Rightarrow> bool \<Rightarrow> string \<Rightarrow> bool \<times> 'e proc
       \<Rightarrow> ((int \<times> string \<times> string) \<times> bool \<times> 'e proc) res option" where
  "DownloadRuntimeFeatutres_cs C S bufs url st =
     (let (sel, p) = st in
      if \<not> alloc_ok S (env p) 1 \<or> \<not> bufs then Some (Inr ((FAILURE, [], []), sel, p))
      else case GetStoredHashAndTime S p of
          Inl f \<Rightarrow> Some (Inl f)
        | Inr ((h, t), p1) \<Rightarrow>
            if \<not> sel \<and> \<not> rdkcertselector_new C (env p1) then Some (Inr ((-1, [], []), False, p1))
            else map_option (\<lambda>s.
                if cs_failed s then Inr ((-1, snd (snd (cs_out s))), True, cs_proc s)
                else let (res, q) = conclude_download S (cs_out s) (cs_proc s) in Inr (res, True, q))
              (cert_loop C S (buf_copy URL_BUF url) (hash_header h) (time_header t) (cert_start p1)))"

lemma cert_loop_finite:
  "cert_loop C S url h t s = Some r \<Longrightarrow> \<exists>k. \<not> cs_again ((cert_round C S url h t ^^ Suc k) s)"
proof (rule cert_loop.raw_induct [where P = "\<lambda>C S url h t s r. \<exists>k. \<not> cs_again ((cert_round C S url h t ^^ Suc k) s)"], goal_cases)
  case (1 rec C S url h t s r)
  show ?case
  proof (cases "cs_again (cert_round C S url h t s)")
    case True
    with 1 have "rec C S url h t (cert_round C S url h t s) = Some r" by (simp add: Let_def)
    with 1 obtain k where "\<not> cs_again ((cert_round C S url h t ^^ Suc k) (cert_round C S url h t s))" by blast
    then show ?thesis by (intro exI [of _ "Suc k"]) (simp add: funpow_Suc_right del: funpow.simps(2))
  qed (auto intro: exI [of _ 0])
qed

interpretation cert: do_while "cert_round C S url h t" cs_again "cert_loop C S url h t" for C S url h t
  by unfold_locales (subst cert_loop.simps, simp add: Let_def, rule cert_loop_finite)

section \<open>What a round does\<close>

lemma cert_round_simps [simp]:
  "cs_sec (cert_round C S url h t s) = cs_sec s" "\<not> cs_failed (cert_round C S url h t s)"
  by (simp_all add: cert_round_def getMtlscert_def Let_def split: prod.splits)

text \<open>Every request is made with the certificate the caller zeroed: none is ever filled in.\<close>

lemma cert_rounds_sec: "cs_sec ((cert_round C S url h t ^^ k) s) = cs_sec s"
  by (induction k) simp_all

lemma request_with_frame:
  "request_with C S sec u h t old p = (r, q) \<Longrightarrow> ctl q = ctl p \<and>
     url_validation_in_progress q = url_validation_in_progress p \<and> (log q = log p \<or> log q = log p @ [XconfRequest u h t]) \<and>
     (env q = env p \<or> env q = fst (sec_download C sec (env p) u h t))"
  by (auto simp: request_with_def ExecuteRequest_def emit_def ctl_def split: if_splits prod.splits)

lemma cert_round_asks: "asks_only 1 u (cs_proc s) (cs_proc (cert_round C S u h t s))"
proof -
  obtain r p1 where x: "request_with C S (cs_sec s) u h t (cs_out s)
      (NotifyTelemetry2Count ''SYS_INFO_MTLS_enable'' (cs_proc s)) = (r, p1)" by fastforce
  have "ctl (cs_proc (cert_round C S u h t s)) = ctl p1" "traffic (cs_proc (cert_round C S u h t s)) = traffic p1"
    by (simp_all add: cert_round_def getMtlscert_def x traffic_def split: prod.splits)
  moreover have "traffic p1 = traffic (cs_proc s) \<or> traffic p1 = traffic (cs_proc s) @ [XconfRequest u h t]"
    using request_with_frame [OF x] telemetry_frame(5) [of "''SYS_INFO_MTLS_enable''" "cs_proc s"]
    by (auto simp: traffic_def)
  ultimately show ?thesis using request_with_frame [OF x] by (auto simp: asks_only_def)
qed

lemma cert_rounds_ask: "asks_only (Suc k) u (cs_proc s) (cs_proc ((cert_round C S u h t ^^ Suc k) s))"
proof (induction k)
  case 0
  show ?case using cert_round_asks by simp
next
  case (Suc k)
  from asks_only_trans [OF this cert_round_asks] show ?case by simp
qed

text \<open>What is left of a certificate group: every further try takes one, a transfer none.\<close>

definition certs_left :: "('e \<Rightarrow> nat) \<Rightarrow> 'e certsel \<Rightarrow> bool" where
  "certs_left left C \<longleftrightarrow>
     (\<forall>e c u e'. rdkcertselector_setCurlStatus C e c u = (e', True) \<longrightarrow> left e' < left e) \<and>
     (\<forall>a e u h t. left (fst (sec_download C a e u h t)) \<le> left e)"

lemma cert_round_left:
  assumes "certs_left left C" "cs_again (cert_round C S u h t s)"
  shows "left (env (cs_proc (cert_round C S u h t s))) < left (env (cs_proc s))"
proof -
  obtain r p1 where x: "request_with C S (cs_sec s) u h t (cs_out s)
      (NotifyTelemetry2Count ''SYS_INFO_MTLS_enable'' (cs_proc s)) = (r, p1)" by fastforce
  obtain e more where m: "rdkcertselector_setCurlStatus C (env p1) (fst r) u = (e, more)" by fastforce
  have "left (env p1) \<le> left (env (cs_proc s))"
    using request_with_frame [OF x] assms(1) by (auto simp: certs_left_def NotifyTelemetry2Count_def)
  moreover have "more" "cs_proc (cert_round C S u h t s) = p1\<lparr>env := e\<rparr>"
    using assms(2) by (simp_all add: cert_round_def getMtlscert_def x m)
  ultimately show ?thesis using m assms(1) by (fastforce simp: certs_left_def)
qed

lemma conclude_frame:
  "ctl (snd (conclude_download S r p)) = ctl p" "traffic (snd (conclude_download S r p)) = traffic p"
  using classify_response_frame [of S "fst r" "fst (snd r)" p]
  by (auto simp: conclude_download_def case_prod_beta Let_def)

lemma GetStoredHash_requests: "GetStoredHashAndTime S p = Inr (ht, q) \<Longrightarrow> ctl q = ctl p \<and> traffic q = traffic p"
  using GetStoredHash_frame [of S p ht q] by (simp add: traffic_def)

lemma Download_cs_cases:
  assumes "alloc_ok S (env p) 1" "GetStoredHashAndTime S p = Inr ((h, t), p1)" "sel \<or> rdkcertselector_new C (env p1)"
    "cert_loop C S (buf_copy URL_BUF url) (hash_header h) (time_header t) (cert_start p1) = Some s" "\<not> cs_failed s"
  shows "DownloadRuntimeFeatutres_cs C S True url (sel, p) =
     Some (Inr (fst (conclude_download S (cs_out s) (cs_proc s)), True, snd (conclude_download S (cs_out s) (cs_proc s))))"
  using assms by (auto simp: DownloadRuntimeFeatutres_cs_def case_prod_beta Let_def)

section \<open>Agreement with the build without a selector\<close>

text \<open>The trace without the telemetry mark of the selector build.\<close>

definition mtls_mark :: effect where
  "mtls_mark = Telemetry ''SYS_INFO_MTLS_enable'' ''1''"

definition unmarked :: "'e proc \<Rightarrow> 'e proc" where
  "unmarked p = p\<lparr>log := filter (\<lambda>a. a \<noteq> mtls_mark) (log p)\<rparr>"

lemma unmarked_emit: "unmarked (emit a p) = (if a = mtls_mark then unmarked p else emit a (unmarked p))"
  by (simp add: unmarked_def emit_def)

lemma unmarked_fields [simp]:
  "env (unmarked p) = env p" "files (unmarked p) = files p" "xconf_server_url (unmarked p) = xconf_server_url p"
  "url_validation_in_progress (unmarked p) = url_validation_in_progress p"
  by (simp_all add: unmarked_def)

lemma unmarked_remove: "unmarked (remove_file f p) = remove_file f (unmarked p)"
  by (simp add: unmarked_def remove_file_def)

lemma unmarked_removes: "unmarked (fold remove_file fs p) = fold remove_file fs (unmarked p)"
  by (induction fs arbitrary: p) (simp_all add: unmarked_remove)

lemma unmarked_clean: "unmarked (cleanAllFile S p) = cleanAllFile S (unmarked p)"
  by (simp add: cleanAllFile_def Let_def unmarked_remove unmarked_removes)

lemma unmarked_reports:
  "unmarked (NotifyTelemetry2RemoteFeatures S f ''ACTIVE'' p) = NotifyTelemetry2RemoteFeatures S f ''ACTIVE'' (unmarked p)"
  "unmarked (NotifyTelemetry2ErrorCode c p) = NotifyTelemetry2ErrorCode c (unmarked p)"
  "unmarked (NotifyTelemetry2Count ''SYST_INFO_RFC_FeaturesNone'' p) =
     NotifyTelemetry2Count ''SYST_INFO_RFC_FeaturesNone'' (unmarked p)"
  by (auto simp: NotifyTelemetry2RemoteFeatures_def NotifyTelemetry2ErrorCode_def NotifyTelemetry2Count_def Let_def
      unmarked_emit mtls_mark_def split: option.splits)

lemma unmarked_conclude:
  "fst (conclude_download S r (unmarked p)) = fst (conclude_download S r p)"
  "snd (conclude_download S r (unmarked p)) = unmarked (snd (conclude_download S r p))"
  by (auto simp: conclude_download_def classify_response_def case_prod_beta Let_def
      unmarked_clean unmarked_remove unmarked_reports) (simp_all add: unmarked_def)

lemma unmarked_request:
  "ExecuteRequest S url h t (NotifyTelemetry2Count ''SYS_INFO_MTLS_enable'' p) = (r, q) \<Longrightarrow>
     \<exists>q'. ExecuteRequest S url h t p = (r, q') \<and> unmarked q' = unmarked q"
  by (auto simp: ExecuteRequest_def NotifyTelemetry2Count_def unmarked_def emit_def mtls_mark_def split: if_splits prod.splits)

section \<open>Properties\<close>

text \<open>C14: with a group of at most \<open>n + 1\<close> certificates, of which every further try takes one, the
  selector build's download returns, after at most \<open>n + 1\<close> requests, all of them to the URL given, and
  leaves the steering state as it was.\<close>

theorem selector_download_returns:
  assumes "certs_left left C" "\<forall>e. left e \<le> n" "GetStoredHashAndTime S p = Inr (ht, p1)"
  shows "\<exists>r sel' q. DownloadRuntimeFeatutres_cs C S bufs url (sel, p) = Some (Inr (r, sel', q)) \<and>
     ctl q = ctl p \<and> (\<exists>rs. traffic q = traffic p @ rs \<and> length rs \<le> n + 1 \<and>
       (\<forall>x\<in>set rs. \<exists>h t. x = XconfRequest (buf_copy URL_BUF url) h t))"
proof (cases "(alloc_ok S (env p) 1 \<and> bufs) \<and> (sel \<or> rdkcertselector_new C (env p1))")
  case False
  then show ?thesis using GetStoredHash_requests [OF assms(3)] assms(3)
    by (cases ht) (auto simp: DownloadRuntimeFeatutres_cs_def)
next
  case True
  obtain h t where ht: "ht = (h, t)" by (cases ht)
  let ?b = "cert_round C S (buf_copy URL_BUF url) (hash_header h) (time_header t)"
  obtain k where k: "k \<le> left (env p1)" "cert_loop C S (buf_copy URL_BUF url) (hash_header h) (time_header t)
      (cert_start p1) = Some ((?b ^^ Suc k) (cert_start p1))"
    using cert.run_bounded [of C S _ _ _ "\<lambda>s. left (env (cs_proc s))" "cert_start p1"] cert_round_left [OF assms(1)]
    by (fastforce simp: cert_start_def)
  let ?s = "(?b ^^ Suc k) (cert_start p1)"
  let ?q = "snd (conclude_download S (cs_out ?s) (cs_proc ?s))"
  have "asks_only (Suc k) (buf_copy URL_BUF url) p1 (cs_proc ?s)"
    using cert_rounds_ask [of k _ "cert_start p1"] by (simp add: cert_start_def)
  then have a: "asks_only (Suc k) (buf_copy URL_BUF url) p ?q"
    using GetStoredHash_requests [OF assms(3)] by (simp add: asks_only_def conclude_frame)
  have d: "DownloadRuntimeFeatutres_cs C S bufs url (sel, p) =
      Some (Inr (fst (conclude_download S (cs_out ?s) (cs_proc ?s)), True, ?q))"
    using Download_cs_cases [OF _ assms(3) [unfolded ht] _ k(2)] True by simp
  have "k \<le> n" using k(1) assms(2) le_trans by blast
  with a have "asks_only (n + 1) (buf_copy URL_BUF url) p ?q" by (fastforce simp: asks_only_def)
  with d show ?thesis unfolding asks_only_def by blast
qed

text \<open>C13: where the selector is content with the first certificate and the transfer does not depend on
  it, the two builds agree: same fault, or same status, body and header, and the same state and trace
  but for the telemetry mark.\<close>

theorem selector_build_agrees:
  assumes "\<forall>e c u. rdkcertselector_setCurlStatus C e c u = (e, False)" "sec_download C blank_auth = xconf_download S"
    "sel \<or> (\<forall>e. rdkcertselector_new C e)"
  shows "case DownloadRuntimeFeatutres S bufs url p of
       Inl f \<Rightarrow> DownloadRuntimeFeatutres_cs C S bufs url (sel, p) = Some (Inl f)
     | Inr (r, q) \<Rightarrow> \<exists>sel' q'. DownloadRuntimeFeatutres_cs C S bufs url (sel, p) = Some (Inr (r, sel', q')) \<and>
         unmarked q' = unmarked q"
proof (cases "alloc_ok S (env p) 1 \<and> bufs")
  case False
  then show ?thesis by (auto simp: DownloadRuntimeFeatutres_def DownloadRuntimeFeatutres_cs_def)
next
  case True
  show ?thesis
  proof (cases "GetStoredHashAndTime S p")
    case (Inl f)
    with True show ?thesis by (simp add: DownloadRuntimeFeatutres_def DownloadRuntimeFeatutres_cs_def)
  next
    case (Inr x)
    then obtain h t p1 where g: "GetStoredHashAndTime S p = Inr ((h, t), p1)" by (cases x) auto
    let ?u = "buf_copy URL_BUF url" and ?h = "hash_header h" and ?t = "time_header t"
    obtain r q where e: "ExecuteRequest S ?u ?h ?t (NotifyTelemetry2Count ''SYS_INFO_MTLS_enable'' p1) = (r, q)"
      by fastforce
    then obtain q1 where q1: "ExecuteRequest S ?u ?h ?t p1 = (r, q1)" "unmarked q1 = unmarked q"
      using unmarked_request by blast
    have S': "S\<lparr>xconf_download := xconf_download S\<rparr> = S" by simp
    have "request_with C S blank_auth ?u ?h ?t (-1, -1, [], [])
        (NotifyTelemetry2Count ''SYS_INFO_MTLS_enable'' p1) = (r, q)"
      using e by (auto simp: request_with_def assms(2) S' ExecuteRequest_def split: if_splits)
    then have s: "cert_round C S ?u ?h ?t (cert_start p1) =
        \<lparr>cs_again = False, cs_failed = False, cs_sec = blank_auth, cs_out = r, cs_proc = q\<rparr>"
      by (simp add: cert_round_def cert_start_def getMtlscert_def assms(1))
    then have "cert_loop C S ?u ?h ?t (cert_start p1) = Some (cert_round C S ?u ?h ?t (cert_start p1))"
      by (subst cert_loop.simps) simp
    from Download_cs_cases [OF _ g _ this] True s assms(3)
    have "DownloadRuntimeFeatutres_cs C S bufs url (sel, p) =
        Some (Inr (fst (conclude_download S r q), True, snd (conclude_download S r q)))" by auto
    moreover have "DownloadRuntimeFeatutres S bufs url p = Inr (conclude_download S r q1)"
      using True g q1(1) by (simp add: DownloadRuntimeFeatutres_def)
    moreover have "fst (conclude_download S r q1) = fst (conclude_download S r q)"
        "unmarked (snd (conclude_download S r q)) = unmarked (snd (conclude_download S r q1))"
      using unmarked_conclude [of S r q] unmarked_conclude [of S r q1] q1(2) by simp_all
    ultimately show ?thesis by (auto simp: case_prod_beta)
  qed
qed

section \<open>Witnesses\<close>

text \<open>Three certificates, counted by the clock of the reference outside; a selector that is content with
  the first.\<close>

definition three_certs :: "refenv certsel" where
  "three_certs = \<lparr>rdkcertselector_new = (\<lambda>_. True),
     rdkcertselector_setCurlStatus = (\<lambda>e c u. if c = 58 \<and> re_now e < 2 then (e\<lparr>re_now := max 0 (re_now e) + 1\<rparr>, True) else (e, False)),
     sec_download = (\<lambda>_. ref_download)\<rparr>"

definition content_selector :: "refenv certsel" where
  "content_selector = three_certs\<lparr>rdkcertselector_setCurlStatus := \<lambda>e c u. (e, False)\<rparr>"

lemma answering_reads: "\<exists>ht q. GetStoredHashAndTime ref_cam answering_proc = Inr (ht, q)"
  by (simp add: GetStoredHashAndTime_def RetrieveHashAndTimeFromPreviousDataSet_def ref_sys_def answering_proc_def
      ref_proc_def ref_env0_def Let_def HASH_VALUE_FILE_def TIME_VALUE_FILE_def)

lemma ref_cam_alloc: "alloc_ok ref_cam e n"
  by (simp add: ref_sys_def)

theorem selector_download_returns_witness:
  "\<exists>r sel' q. DownloadRuntimeFeatutres_cs three_certs ref_cam True ''u'' (False, answering_proc) = Some (Inr (r, sel', q)) \<and>
     length (traffic q) \<le> 3"
proof -
  have "certs_left (\<lambda>e. nat (2 - max 0 (re_now e))) three_certs"
    by (auto simp: certs_left_def three_certs_def ref_download_def split: if_splits list.splits)
  moreover have "\<forall>e. nat (2 - max 0 (re_now e)) \<le> 2" by (auto simp: max_def)
  moreover obtain ht q where "GetStoredHashAndTime ref_cam answering_proc = Inr (ht, q)" using answering_reads by blast
  moreover have "traffic answering_proc = []" by (simp add: answering_proc_def ref_proc_def traffic_def)
  ultimately show ?thesis
    using selector_download_returns [of "\<lambda>e. nat (2 - max 0 (re_now e))" three_certs 2 ref_cam answering_proc ht q True "''u''" False]
    by force
qed

theorem selector_build_agrees_witness:
  "case DownloadRuntimeFeatutres ref_cam True ''u'' answering_proc of Inl f \<Rightarrow> False
     | Inr (r, q) \<Rightarrow> \<exists>sel' q'. DownloadRuntimeFeatutres_cs content_selector ref_cam True ''u'' (False, answering_proc) =
         Some (Inr (r, sel', q')) \<and> unmarked q' = unmarked q"
proof -
  have "sec_download content_selector blank_auth = xconf_download ref_cam"
    by (simp add: content_selector_def three_certs_def ref_sys_def)
  moreover have "\<exists>x. DownloadRuntimeFeatutres ref_cam True ''u'' answering_proc = Inr x"
    using answering_reads ref_cam_alloc by (auto simp: DownloadRuntimeFeatutres_def case_prod_beta simp del: split_paired_Ex)
  ultimately show ?thesis
    using selector_build_agrees [of content_selector ref_cam False True "''u''" answering_proc]
    by (auto simp: content_selector_def three_certs_def)
qed

end
