(* ===== verification/Tr181_Api.thy ===== *)
theory Tr181_Api
  imports Rfc_Api "HOL-Library.Multiset"
begin

text \<open>
  tr181api/tr181api.cpp: the typed front of rfcapi (\<open>getParam\<close>, \<open>setParam\<close>, \<open>clearParam\<close>) and the
  local store, a \<open>key=value\<close> file that every change reads whole, changes in memory and writes back.
  The abstract store is a map from names to values; setting and clearing are shown to refine the
  map update and the removal of a name or, for a text that ends in a dot, of every name that contains it,
  and reading back what was
  set returns it.  The order in which the hash map writes its entries is unknown: it is the field
  \<open>unordered_iter\<close>, of which only is assumed that it visits every entry once.
\<close>

section \<open>Types and codes\<close>

datatype tr181_type =
    TR181_STRING | TR181_INT | TR181_UINT | TR181_BOOLEAN | TR181_DATETIME | TR181_BASE64
  | TR181_LONG | TR181_ULONG | TR181_FLOAT | TR181_DOUBLE | TR181_BYTE | TR181_NONE | TR181_BLOB

datatype tr181_error =
    tr181Success | tr181Failure | tr181Timeout | tr181InvalidParameterName
  | tr181InvalidParameterValue | tr181InvalidType | tr181NotWritable | tr181ValueIsEmpty
  | tr181ValueIsNull | tr181InternalError | tr181DefaultValue

record TR181_ParamData =
  t_value :: string
  t_type :: tr181_type

definition TR181_CLEAR_PARAM :: string where
  [path_defs]: "TR181_CLEAR_PARAM = ''Device.DeviceInfo.X_RDKCENTRAL-COM_RFC.ClearParam''"
definition TR181_LOCAL_STORE_FILE :: string where
  [path_defs]: "TR181_LOCAL_STORE_FILE = ''/opt/secure/RFC/tr181localstore.ini''"

definition getType :: "data_type \<Rightarrow> tr181_type" where
  "getType t =
     (if t = 0 then TR181_STRING else if t = 1 then TR181_INT else if t = 2 then TR181_UINT
      else if t = 3 then TR181_BOOLEAN else if t = 4 then TR181_DATETIME
      else if t = 5 then TR181_BASE64 else if t = 6 then TR181_LONG else if t = 7 then TR181_ULONG
      else if t = 8 then TR181_FLOAT else if t = 9 then TR181_DOUBLE else if t = 10 then TR181_BYTE
      else TR181_NONE)"

definition getErrorCode :: "wdmp_status \<Rightarrow> tr181_error" where
  "getErrorCode st =
     (if st = 0 then tr181Success else if st = 1 then tr181Failure else if st = 2 then tr181Timeout
      else if st = 4 then tr181InvalidParameterName else if st = 6 then tr181InvalidParameterValue
      else if st = 5 then tr181InvalidType else if st = 7 then tr181NotWritable
      else if st = 22 then tr181ValueIsEmpty else if st = 23 then tr181ValueIsNull
      else if st = 38 then tr181DefaultValue else tr181InternalError)"

fun getTR181ErrorString :: "tr181_error \<Rightarrow> string" where
  "getTR181ErrorString tr181Success = '' Success''"
| "getTR181ErrorString tr181InternalError = '' Internal Error''"
| "getTR181ErrorString tr181InvalidParameterName = '' Invalid Parameter Name''"
| "getTR181ErrorString tr181InvalidParameterValue = '' Invalid Parameter Value''"
| "getTR181ErrorString tr181Failure = '' Failure''"
| "getTR181ErrorString tr181InvalidType = '' Invalid type''"
| "getTR181ErrorString tr181NotWritable = '' Not writable''"
| "getTR181ErrorString tr181ValueIsEmpty = '' Value is empty''"
| "getTR181ErrorString tr181ValueIsNull = '' Value is Null''"
| "getTR181ErrorString tr181DefaultValue = '' Default Value''"
| "getTR181ErrorString tr181Timeout = '' Unknown error code''"

section \<open>The front of rfcapi\<close>

text \<open>\<open>junk\<close> is the uninitialised local record handed to \<open>getRFCParameter\<close>.\<close>

definition getParam ::
    "'e sys \<Rightarrow> string option \<Rightarrow> string \<Rightarrow> RFC_ParamData \<Rightarrow> TR181_ParamData \<Rightarrow> ('e, 'z) world_scheme
       \<Rightarrow> (tr181_error \<times> TR181_ParamData \<times> ('e, 'z) world_scheme) res" where
  "getParam S caller pname junk out w =
     rbind (getRFCParameter S caller pname junk w)
       (\<lambda>(st, p, w'). if st = WDMP_SUCCESS \<or> st = WDMP_ERR_DEFAULT_VALUE
          then Inr (tr181Success,
                    out\<lparr>t_type := getType (prm_type p), t_value := buf_copy MAX_PARAM_LEN (prm_value p)\<rparr>, w')
          else Inr (getErrorCode st, out, w'))"

definition setParam ::
    "'e sys \<Rightarrow> string option \<Rightarrow> string \<Rightarrow> string option \<Rightarrow> ('e, 'z) world_scheme
       \<Rightarrow> (tr181_error \<times> ('e, 'z) world_scheme) res" where
  "setParam S caller pname pvalue w =
     rbind (setRFCParameter S caller pname pvalue WDMP_STRING w)
       (\<lambda>(st, w'). Inr (if st = WDMP_SUCCESS then tr181Success else getErrorCode st, w'))"

definition clearParam ::
    "'e sys \<Rightarrow> string option \<Rightarrow> string option \<Rightarrow> ('e, 'z) world_scheme
       \<Rightarrow> (tr181_error \<times> ('e, 'z) world_scheme) res" where
  "clearParam S caller pname w =
     rbind (setRFCParameter S caller TR181_CLEAR_PARAM pname WDMP_STRING w)
       (\<lambda>(st, w'). Inr (if st = WDMP_SUCCESS then tr181Success else getErrorCode st, w'))"

section \<open>The local store\<close>

definition getValue_local ::
    "string \<Rightarrow> string \<Rightarrow> TR181_ParamData \<Rightarrow> ('e, 'z) world_scheme \<Rightarrow> tr181_error \<times> TR181_ParamData" where
  "getValue_local fileName pname out w = (case files w fileName of
       None \<Rightarrow> (tr181Failure, out)
     | Some c \<Rightarrow> (case ini_lookup split_eq pname (getlines c) of
           None \<Rightarrow> (tr181Failure, out)
         | Some v \<Rightarrow> if 0 < length v
                     then (tr181Success, out\<lparr>t_type := TR181_NONE, t_value := buf_copy MAX_PARAM_LEN v\<rparr>)
                     else (tr181ValueIsEmpty, out)))"

text \<open>The two bounded \<open>strncat\<close> calls into an array of 256.\<close>

definition defaults_filename :: "string \<Rightarrow> string" where
  "defaults_filename caller =
     (let f = RFCDEFAULTS_ETC_DIR @ take (256 - length RFCDEFAULTS_ETC_DIR - 5) (cstr caller)
      in f @ take (256 - length f - 1) ''.ini'')"

definition getDefaultValue ::
    "string option \<Rightarrow> string \<Rightarrow> TR181_ParamData \<Rightarrow> ('e, 'z) world_scheme \<Rightarrow> tr181_error \<times> TR181_ParamData" where
  "getDefaultValue caller pname out w = (case caller of
       None \<Rightarrow> (tr181Failure, out)
     | Some c \<Rightarrow> getValue_local (defaults_filename c) pname out w)"

text \<open>Reading the store into the dictionary: a later line of the same key overwrites.\<close>

definition read_dict :: "string option \<Rightarrow> (string, string) std_map" where
  "read_dict content = (case content of None \<Rightarrow> []
     | Some c \<Rightarrow> fold (\<lambda>l d. case split_eq l of None \<Rightarrow> d | Some (k, v) \<Rightarrow> map_put k v d) (getlines c) [])"

text \<open>Which keys a clear request removes; \<open>back()\<close> of an empty value is out of range.\<close>

definition clears :: "string \<Rightarrow> string \<Rightarrow> bool" where
  "clears v key \<longleftrightarrow> key = v \<or> (last v = CHR ''.'' \<and> str_contains key v)"

definition write_dict :: "'e sys \<Rightarrow> (string, string) std_map \<Rightarrow> ('e, 'z) world_scheme \<Rightarrow> ('e, 'z) world_scheme" where
  "write_dict S d w = write_file S TR181_LOCAL_STORE_FILE
     (unlines (map (\<lambda>(k, v). cstr k @ CHR ''='' # cstr v) (unordered_iter S (env w) d))) w"

text \<open>What follows the read: the change in memory and the write of the whole dictionary.\<close>

definition write_back ::
    "'e sys \<Rightarrow> string \<Rightarrow> string \<Rightarrow> (string, string) std_map \<Rightarrow> ('e, 'z) world_scheme
       \<Rightarrow> (tr181_error \<times> ('e, 'z) world_scheme) res" where
  "write_back S key v d w =
     (let store = (\<lambda>d'. if fopen_w S (env w) TR181_LOCAL_STORE_FILE
                        then Inr (tr181Success, write_dict S d' w) else Inr (tr181Failure, w)) in
      if key = TR181_CLEAR_PARAM then
        (if v = [] \<and> (\<exists>(k, _)\<in>set d. k \<noteq> []) then Inl OutOfBounds
         else if \<exists>(k, _)\<in>set d. clears v k then store (filter (\<lambda>(k, _). \<not> clears v k) d)
         else Inr (tr181Success, w))
      else store (map_put key v d))"

definition setValue ::
    "'e sys \<Rightarrow> string \<Rightarrow> string \<Rightarrow> ('e, 'z) world_scheme \<Rightarrow> (tr181_error \<times> ('e, 'z) world_scheme) res" where
  "setValue S key v w = write_back S key v (read_dict (files w TR181_LOCAL_STORE_FILE)) w"

definition getLocalParam ::
    "'e sys \<Rightarrow> string option \<Rightarrow> string \<Rightarrow> TR181_ParamData \<Rightarrow> ('e, 'z) world_scheme \<Rightarrow> tr181_error \<times> TR181_ParamData" where
  "getLocalParam S caller pname out w =
     (if \<not> sem_open_ok S (env w) then (tr181Failure, out)
      else let (st, out1) = getValue_local TR181_LOCAL_STORE_FILE pname out w in
           if st \<noteq> tr181Success then getDefaultValue caller pname out1 w else (st, out1))"

definition setLocalParam ::
    "'e sys \<Rightarrow> string option \<Rightarrow> string \<Rightarrow> string \<Rightarrow> ('e, 'z) world_scheme
       \<Rightarrow> (tr181_error \<times> ('e, 'z) world_scheme) res" where
  "setLocalParam S caller pname v w =
     (if \<not> sem_open_ok S (env w) then Inr (tr181Failure, w) else setValue S pname v w)"

definition clearLocalParam ::
    "'e sys \<Rightarrow> string option \<Rightarrow> string \<Rightarrow> ('e, 'z) world_scheme
       \<Rightarrow> (tr181_error \<times> ('e, 'z) world_scheme) res" where
  "clearLocalParam S caller pname w =
     (if \<not> sem_open_ok S (env w) then Inr (tr181Failure, w) else setValue S TR181_CLEAR_PARAM pname w)"

section \<open>The dictionary read from a file\<close>

lemma read_dict_put_all:
  "read_dict (Some c) = std_map.put_all (List.map_filter split_eq (getlines c)) []"
proof -
  have "fold (\<lambda>l d. case split_eq l of None \<Rightarrow> d | Some (k, v) \<Rightarrow> map_put k v d) ls d =
      std_map.put_all (List.map_filter split_eq ls) d" for ls d
    by (induction ls arbitrary: d) (auto simp: std_map.put_all_def List.map_filter_def split: option.splits)
  then show ?thesis by (simp add: read_dict_def)
qed

lemma read_dict_wf: "map_wf (read_dict c)"
proof (cases c)
  case None
  then show ?thesis by (simp add: read_dict_def std_map.invar_empty)
next
  case (Some a)
  then show ?thesis by (simp add: read_dict_put_all std_map.invar_put_all std_map.invar_empty)
qed

text \<open>What a line-oriented text can hold: no newline and no NUL, and no \<open>=\<close> in a key.\<close>

definition entry_ok :: "string \<times> string \<Rightarrow> bool" where
  "entry_ok kv \<longleftrightarrow> key_ok (fst kv) \<and> NUL \<notin> set (fst kv) \<and> NL \<notin> set (snd kv) \<and> NUL \<notin> set (snd kv)"

lemma set_getlines: "l \<in> set (getlines s) \<Longrightarrow> set l \<subseteq> set s"
proof (induction s rule: getlines.induct)
  case (1 s)
  show ?case
  proof (cases "s = []")
    case False
    let ?l = "takeWhile (\<lambda>c. c \<noteq> NL) s"
    have "getlines s = ?l # getlines (drop (Suc (length ?l)) s)"
      using False by (subst getlines.simps) (simp add: Let_def)
    moreover have "set ?l \<subseteq> set s" by (auto dest: set_takeWhileD)
    ultimately show ?thesis
      using 1 False by (metis (no_types, lifting) order.trans set_ConsD set_drop_subset)
  qed (use 1 in simp)
qed

lemma split_eq_entry_ok:
  "l \<in> set (getlines c) \<Longrightarrow> NUL \<notin> set c \<Longrightarrow> split_eq l = Some kv \<Longrightarrow> entry_ok kv"
proof -
  assume a: "l \<in> set (getlines c)" "NUL \<notin> set c" "split_eq l = Some kv"
  obtain k v where kv: "kv = (k, v)" by (cases kv)
  have "l = k @ CHR ''='' # v" "CHR ''='' \<notin> set k" using a(3) split_eq_SomeD kv by blast+
  moreover have "NL \<notin> set l" "set l \<subseteq> set c" using a(1) getlines_no_NL set_getlines by blast+
  ultimately show ?thesis using a(2) by (auto simp: entry_ok_def key_ok_def kv)
qed

lemma map_put_entries: "set (map_put k v m) \<subseteq> insert (k, v) (set m)"
  by (induction k v m rule: map_put.induct) auto

lemma put_all_entries: "set (std_map.put_all kvs m) \<subseteq> set kvs \<union> set m"
proof (induction kvs arbitrary: m)
  case (Cons p kvs)
  have "std_map.put_all (p # kvs) m = std_map.put_all kvs (map_put (fst p) (snd p) m)"
    by (simp add: std_map.put_all_def split: prod.splits)
  then show ?case using Cons [of "map_put (fst p) (snd p) m"] map_put_entries [of "fst p" "snd p" m] by auto
qed (simp add: std_map.put_all_def)

lemma read_dict_entries: "NUL \<notin> set c \<Longrightarrow> kv \<in> set (read_dict (Some c)) \<Longrightarrow> entry_ok kv"
  using put_all_entries [of "List.map_filter split_eq (getlines c)" "[]"]
  by (auto simp: read_dict_put_all List.map_filter_def dest!: subsetD intro: split_eq_entry_ok)


section \<open>What the store's file denotes\<close>

text \<open>The abstract store.\<close>

definition store_view :: "('e, 'z) world_scheme \<Rightarrow> string \<rightharpoonup> string" where
  "store_view w = map_of (read_dict (files w TR181_LOCAL_STORE_FILE))"

text \<open>The documented behaviour of a hash map's iterator: every entry is visited once.\<close>

definition iter_ok :: "'e sys \<Rightarrow> bool" where
  "iter_ok S \<longleftrightarrow> (\<forall>e d. mset (unordered_iter S e d) = mset d)"

definition store_text :: "('e, 'z) world_scheme \<Rightarrow> bool" where
  "store_text w \<longleftrightarrow> (\<forall>c. files w TR181_LOCAL_STORE_FILE = Some c \<longrightarrow> NUL \<notin> set c)"

lemma store_dict_ok: "store_text w \<Longrightarrow> kv \<in> set (read_dict (files w TR181_LOCAL_STORE_FILE)) \<Longrightarrow> entry_ok kv"
  by (cases "files w TR181_LOCAL_STORE_FILE")
    (auto simp: store_text_def dest: read_dict_entries, simp add: read_dict_def)

lemma entry_line: "entry_ok kv \<Longrightarrow> cstr (fst kv) @ CHR ''='' # cstr (snd kv) = render_plain (fst kv) (snd kv)"
  by (simp add: entry_ok_def render_plain_def)

lemma dict_lines:
  "\<forall>kv\<in>set kvs. entry_ok kv \<Longrightarrow>
     unlines (map (\<lambda>(k, v). cstr k @ CHR ''='' # cstr v) kvs) = plain_ini.printed kvs"
  unfolding plain_ini.printed_def case_prod_unfold by (simp add: entry_line cong: map_cong)

lemma map_of_perm:
  assumes "mset kvs = mset d" "distinct (map fst d)"
  shows "map_of kvs = map_of d" "distinct (map fst kvs)"
proof -
  have "mset (map fst kvs) = mset (map fst d)" using assms(1) by simp
  then show "distinct (map fst kvs)" using assms(2) by (metis distinct_count_atmost_1 mset_eq_setD)
  with assms show "map_of kvs = map_of d" by (metis map_of_eqI mset_eq_setD map_of_inject_set)
qed

lemma written_dict_view:
  assumes "iter_ok S" "map_wf d" "\<forall>kv\<in>set d. entry_ok kv"
    and t0: "text = unlines (map (\<lambda>(k, v). cstr k @ CHR ''='' # cstr v) (unordered_iter S e d))"
  shows "map_of (read_dict (Some text)) = map_of d"
    "ini_lookup split_eq key (getlines text) = map_of d key" "NUL \<notin> set text"
proof -
  let ?kvs = "unordered_iter S e d"
  have m: "mset ?kvs = mset d" using assms(1) by (simp add: iter_ok_def)
  then have ok: "\<forall>kv\<in>set ?kvs. entry_ok kv" using assms(3) by (metis mset_eq_setD)
  then have ok': "\<forall>(k, v)\<in>set ?kvs. key_ok k \<and> NL \<notin> set v" by (auto simp: entry_ok_def)
  note same = map_of_perm [OF m map_wf_distinct [OF assms(2)]]
  have t: "text = plain_ini.printed ?kvs" unfolding t0 by (rule dict_lines [OF ok])
  show "ini_lookup split_eq key (getlines text) = map_of d key"
    unfolding t using plain_ini.lookup_printed [OF ok'] same(1) by simp
  have "map_of (read_dict (Some text)) = map_of (rev ?kvs)"
    unfolding t read_dict_put_all plain_ini.entries_printed [OF ok']
    by (rule ext, subst std_map.get_put_all [OF std_map.invar_empty]) (simp split: option.splits)
  also have "\<dots> = map_of d" using map_of_perm [OF _ same(2), of "rev ?kvs"] same(1) by simp
  finally show "map_of (read_dict (Some text)) = map_of d" .
  show "NUL \<notin> set text"
    unfolding t0 unlines_def using cstr_no_NUL by auto
qed

lemma write_dict_view:
  assumes "iter_ok S" "map_wf d" "\<forall>kv\<in>set d. entry_ok kv" "fopen_w S (env w) TR181_LOCAL_STORE_FILE"
  shows "store_view (write_dict S d w) = map_of d" "store_text (write_dict S d w)"
    "files (write_dict S d w) TR181_LOCAL_STORE_FILE = Some c \<Longrightarrow>
       ini_lookup split_eq key (getlines c) = map_of d key"
  using written_dict_view [OF assms(1-3) refl, where e = "env w"] assms(4)
  by (auto simp: store_view_def store_text_def write_dict_def write_file_files)

lemma map_wf_filter: "map_wf m \<Longrightarrow> map_wf (filter P m)"
  unfolding map_wf_def by (induction m) auto

lemma map_of_filter_key:
  "distinct (map fst m) \<Longrightarrow> map_of (filter (\<lambda>(k, _). P k) m) k = (if P k then map_of m k else None)"
  by (induction m) (auto simp: map_of_eq_None_iff)

lemma clears_sublist: "clears v k \<longleftrightarrow> k = v \<or> (last v = CHR ''.'' \<and> sublist v k)"
  unfolding clears_def str_contains_sublist ..

section \<open>Setting and clearing refine the abstract store\<close>

lemma set_refines:
  assumes "iter_ok S" "store_text w" "entry_ok (key, v)" "key \<noteq> TR181_CLEAR_PARAM"
    "fopen_w S (env w) TR181_LOCAL_STORE_FILE"
  shows "\<exists>w'. setValue S key v w = Inr (tr181Success, w') \<and>
     store_view w' = (store_view w)(key \<mapsto> v) \<and> store_text w' \<and> env w' = env w \<and>
     (\<forall>c. files w' TR181_LOCAL_STORE_FILE = Some c \<longrightarrow>
            ini_lookup split_eq key (getlines c) = Some v)"
proof -
  let ?d = "read_dict (files w TR181_LOCAL_STORE_FILE)"
  let ?w = "write_dict S (map_put key v ?d) w"
  have ok: "\<forall>kv\<in>set (map_put key v ?d). entry_ok kv"
    using map_put_entries [of key v ?d] store_dict_ok [OF assms(2)] assms(3) by auto
  have "setValue S key v w = Inr (tr181Success, ?w)" using assms(4,5) by (simp add: setValue_def write_back_def)
  moreover note v = write_dict_view [OF assms(1) map_wf_put [OF read_dict_wf] ok assms(5)]
  have "store_view ?w = (store_view w)(key \<mapsto> v)"
    unfolding v(1) by (rule ext) (simp add: map_of_put store_view_def)
  moreover have "\<forall>c. files ?w TR181_LOCAL_STORE_FILE = Some c \<longrightarrow>
      ini_lookup split_eq key (getlines c) = Some v"
    using v(3) by (simp add: map_of_put)
  moreover have "env ?w = env w" by (simp add: write_dict_def)
  ultimately show ?thesis using v(2) by blast
qed

lemma clear_refines:
  assumes "iter_ok S" "store_text w" "v \<noteq> []" "fopen_w S (env w) TR181_LOCAL_STORE_FILE"
  shows "\<exists>w'. setValue S TR181_CLEAR_PARAM v w = Inr (tr181Success, w') \<and>
     store_view w' = (\<lambda>k. if clears v k then None else store_view w k) \<and> store_text w'"
proof -
  let ?d = "read_dict (files w TR181_LOCAL_STORE_FILE)"
  let ?f = "filter (\<lambda>(k, _). \<not> clears v k) ?d"
  have dist: "distinct (map fst ?d)" by (rule map_wf_distinct [OF read_dict_wf])
  show ?thesis
  proof (cases "\<exists>(k, _)\<in>set ?d. clears v k")
    case True
    then have "setValue S TR181_CLEAR_PARAM v w = Inr (tr181Success, write_dict S ?f w)"
      using assms(3,4) by (simp add: setValue_def write_back_def)
    moreover have "\<forall>kv\<in>set ?f. entry_ok kv" using store_dict_ok [OF assms(2)] by auto
    note v = write_dict_view [OF assms(1) map_wf_filter [OF read_dict_wf] this assms(4)]
    moreover have "map_of ?f = (\<lambda>k. if clears v k then None else store_view w k)"
      by (rule ext) (simp add: map_of_filter_key [OF dist, where P = "\<lambda>k. \<not> clears v k"] store_view_def)
    ultimately show ?thesis using v by simp
  next
    case False
    then have "setValue S TR181_CLEAR_PARAM v w = Inr (tr181Success, w)"
      using assms(3) by (auto simp: setValue_def write_back_def)
    moreover have "store_view w = (\<lambda>k. if clears v k then None else store_view w k)"
      using False by (auto simp: store_view_def fun_eq_iff map_of_eq_None_iff)
    ultimately show ?thesis using assms(2) by auto
  qed
qed

text \<open>Reading returns the value that was set.\<close>

lemma set_get_value:
  assumes "iter_ok S" "store_text w" "entry_ok (key, v)" "key \<noteq> TR181_CLEAR_PARAM"
    "v \<noteq> []" "length v < MAX_PARAM_LEN"
    "fopen_w S (env w) TR181_LOCAL_STORE_FILE" "sem_open_ok S (env w)"
  shows "\<exists>w'. setLocalParam S caller key v w = Inr (tr181Success, w') \<and>
     getLocalParam S caller key out w' = (tr181Success, out\<lparr>t_type := TR181_NONE, t_value := v\<rparr>)"
proof -
  from set_refines [OF assms(1-4,7)] obtain w' where w':
    "setValue S key v w = Inr (tr181Success, w')" "store_view w' = (store_view w)(key \<mapsto> v)"
    "env w' = env w"
    "\<forall>c. files w' TR181_LOCAL_STORE_FILE = Some c \<longrightarrow> ini_lookup split_eq key (getlines c) = Some v"
    by blast
  have "files w' TR181_LOCAL_STORE_FILE \<noteq> None"
    using fun_cong [OF w'(2), of key] by (auto simp: store_view_def read_dict_def split: option.splits)
  with w'(4) assms(3,5,6) have "getValue_local TR181_LOCAL_STORE_FILE key out w' =
      (tr181Success, out\<lparr>t_type := TR181_NONE, t_value := v\<rparr>)"
    by (auto simp: getValue_local_def entry_ok_def str_simps)
  with w'(1,3) assms(8) show ?thesis by (simp add: setLocalParam_def getLocalParam_def)
qed

text \<open>Setting a parameter changes the abstract store in that name only.\<close>

lemma setLocalParam_refines:
  assumes "iter_ok S" "store_text w" "entry_ok (key, v)" "key \<noteq> TR181_CLEAR_PARAM"
    "fopen_w S (env w) TR181_LOCAL_STORE_FILE" "sem_open_ok S (env w)"
  shows "\<exists>w'. setLocalParam S caller key v w = Inr (tr181Success, w') \<and>
     store_view w' = (store_view w)(key \<mapsto> v)"
  using set_refines [OF assms(1-5)] assms(6) by (auto simp: setLocalParam_def)

text \<open>C9: clearing removes the name given and, when the text given ends in a dot, every name that contains
  it anywhere, not only the names that begin with it; every other name keeps its value.\<close>

theorem clearLocalParam_refines:
  assumes "iter_ok S" "store_text w" "v \<noteq> []"
    "fopen_w S (env w) TR181_LOCAL_STORE_FILE" "sem_open_ok S (env w)"
  shows "\<exists>w'. clearLocalParam S caller v w = Inr (tr181Success, w') \<and>
     store_view w' = (\<lambda>k. if k = v \<or> (last v = CHR ''.'' \<and> sublist v k) then None else store_view w k)"
  using clear_refines [OF assms(1-4)] assms(5)
  by (auto simp: clearLocalParam_def clears_sublist)

lemma ref_store [simp]:
  "iter_ok (ref_sys p parse)" "store_text ref_world"
  "fopen_w (ref_sys p parse) e f" "sem_open_ok (ref_sys p parse) e"
  by (simp_all add: iter_ok_def ref_sys_def store_text_def ref_world_def)

text \<open>A store in which one name begins with the text cleared, one contains it and one does neither.\<close>

definition three_names :: "refenv world" where
  "three_names = ref_world\<lparr>files := [TR181_LOCAL_STORE_FILE \<mapsto> unlines [''a.b=1'', ''x.a.c=2'', ''b=3'']]\<rparr>"

lemma three_names_view: "store_view three_names = [''a.b'' \<mapsto> ''1'', ''b'' \<mapsto> ''3'', ''x.a.c'' \<mapsto> ''2'']"
proof -
  have "read_dict (Some (unlines [''a.b=1'', ''x.a.c=2'', ''b=3''])) = [(''a.b'', ''1''), (''b'', ''3''), (''x.a.c'', ''2'')]"
    by code_simp
  then show ?thesis by (simp add: store_view_def three_names_def fun_eq_iff)
qed

theorem clearLocalParam_refines_witness:
  "store_view three_names ''a.b'' = Some ''1'' \<and> store_view three_names ''x.a.c'' = Some ''2'' \<and>
   (\<exists>w'. clearLocalParam ref_stb None ''a.'' three_names = Inr (tr181Success, w') \<and>
     store_view w' = [''b'' \<mapsto> ''3''])"
proof -
  have "store_text three_names" by (simp add: store_text_def three_names_def ref_world_def)
  from clearLocalParam_refines [OF _ this, of ref_stb "''a.''" None] obtain w' where
    w': "clearLocalParam ref_stb None ''a.'' three_names = Inr (tr181Success, w')"
      "store_view w' = (\<lambda>k. if k = ''a.'' \<or> sublist ''a.'' k then None else store_view three_names k)" by auto
  have "store_view w' = [''b'' \<mapsto> ''3'']"
    unfolding w'(2) three_names_view by (auto simp: fun_eq_iff sublist_code)
  with w'(1) show ?thesis by (auto simp: three_names_view)
qed

end
