(* ===== verification/Store_Lock.thy ===== *)
theory Store_Lock
  imports Tr181_Api
begin

text \<open>
  Concurrent callers of the local store (tr181api.cpp).  Every caller opens the named semaphore of
  value 1, waits for it, works on the store and posts it; a change reads the whole file first and
  writes it back in a later step.  The interleavings of any number of callers are a step relation.
  Shown here: at most one caller is between wait and post; the store of every interleaving is the one
  the requests leave when they are served one after the other in the order they were admitted, every
  caller receives the answer it has in that order, and in terms of the abstract store no update is
  lost.  A wait that is interrupted is only logged, so the caller goes on unprotected; the relation
  has that step under a flag, with which an update can be lost.
\<close>

section \<open>Callers\<close>

datatype store_request =
    SetReq string string
  | ClearReq string
  | GetReq "string option" string TR181_ParamData

datatype answer =
    Status tr181_error
  | Data tr181_error TR181_ParamData
  | Faulted fault

datatype caller_phase =
    Outside | Entered | Loaded "(string, string) std_map" | Answered answer | Done answer | Refused

record 'e store_state =
  sem_value :: nat
  store_world :: "'e world"
  phase_at :: "nat \<Rightarrow> caller_phase"
  admitted :: "nat list"

text \<open>The two arguments of \<open>setValue\<close>.\<close>

fun change_of :: "store_request \<Rightarrow> (string \<times> string) option" where
  "change_of (SetReq k v) = Some (k, v)"
| "change_of (ClearReq k) = Some (TR181_CLEAR_PARAM, k)"
| "change_of (GetReq _ _ _) = None"

definition move :: "nat \<Rightarrow> caller_phase \<Rightarrow> 'e store_state \<Rightarrow> 'e store_state" where
  "move i ph s = s\<lparr>phase_at := (phase_at s)(i := ph)\<rparr>"

text \<open>\<open>intr\<close>: a wait may be interrupted.  A fault ends the caller without a post.\<close>

inductive store_step :: "bool \<Rightarrow> 'e sys \<Rightarrow> (nat \<Rightarrow> store_request) \<Rightarrow> 'e store_state \<Rightarrow> 'e store_state \<Rightarrow> bool"
  for intr S rq where
  not_open: "phase_at s i = Outside \<Longrightarrow> \<not> sem_open_ok S (env (store_world s)) \<Longrightarrow>
    store_step intr S rq s (move i Refused s)"
| wait: "phase_at s i = Outside \<Longrightarrow> sem_open_ok S (env (store_world s)) \<Longrightarrow> 0 < sem_value s \<Longrightarrow>
    store_step intr S rq s (move i Entered (s\<lparr>sem_value := sem_value s - 1, admitted := admitted s @ [i]\<rparr>))"
| interrupted: "intr \<Longrightarrow> phase_at s i = Outside \<Longrightarrow> sem_open_ok S (env (store_world s)) \<Longrightarrow>
    store_step intr S rq s (move i Entered (s\<lparr>admitted := admitted s @ [i]\<rparr>))"
| load: "phase_at s i = Entered \<Longrightarrow> change_of (rq i) = Some kv \<Longrightarrow>
    store_step intr S rq s (move i (Loaded (read_dict (files (store_world s) TR181_LOCAL_STORE_FILE))) s)"
| store: "phase_at s i = Loaded d \<Longrightarrow> change_of (rq i) = Some (k, v) \<Longrightarrow>
    write_back S k v d (store_world s) = Inr (st, w) \<Longrightarrow>
    store_step intr S rq s (move i (Answered (Status st)) (s\<lparr>store_world := w\<rparr>))"
| fault: "phase_at s i = Loaded d \<Longrightarrow> change_of (rq i) = Some (k, v) \<Longrightarrow>
    write_back S k v d (store_world s) = Inl f \<Longrightarrow> store_step intr S rq s (move i (Answered (Faulted f)) s)"
| look: "phase_at s i = Entered \<Longrightarrow> rq i = GetReq caller name out \<Longrightarrow>
    getLocalParam S caller name out (store_world s) = (st, prm) \<Longrightarrow>
    store_step intr S rq s (move i (Answered (Data st prm)) s)"
| post: "phase_at s i = Answered a \<Longrightarrow> (\<And>f. a \<noteq> Faulted f) \<Longrightarrow>
    store_step intr S rq s (move i (Done a) (s\<lparr>sem_value := Suc (sem_value s)\<rparr>))"

inductive_cases store_step_E: "store_step intr S rq s s'"

definition store_start :: "'e world \<Rightarrow> 'e store_state" where
  "store_start w = \<lparr>sem_value = 1, store_world = w, phase_at = \<lambda>_. Outside, admitted = []\<rparr>"

inductive store_reach :: "bool \<Rightarrow> 'e sys \<Rightarrow> (nat \<Rightarrow> store_request) \<Rightarrow> 'e world \<Rightarrow> 'e store_state \<Rightarrow> bool"
  for intr S rq w where
  start: "store_reach intr S rq w (store_start w)"
| step: "store_reach intr S rq w s \<Longrightarrow> store_step intr S rq s s' \<Longrightarrow> store_reach intr S rq w s'"

lemma move_simps [simp]:
  "sem_value (move i ph s) = sem_value s" "store_world (move i ph s) = store_world s"
  "admitted (move i ph s) = admitted s" "phase_at (move i ph s) j = (if j = i then ph else phase_at s j)"
  by (simp_all add: move_def)

section \<open>One after the other\<close>

text \<open>One request served on its own, by the operations of the store.\<close>

definition serve :: "'e sys \<Rightarrow> store_request \<Rightarrow> 'e world \<Rightarrow> answer \<times> 'e world" where
  "serve S r w = (let done = (\<lambda>x. case x of Inl f \<Rightarrow> (Faulted f, w) | Inr (st, w') \<Rightarrow> (Status st, w')) in
     case r of
       SetReq k v \<Rightarrow> done (setLocalParam S None k v w)
     | ClearReq k \<Rightarrow> done (clearLocalParam S None k w)
     | GetReq caller name out \<Rightarrow> (let (st, prm) = getLocalParam S caller name out w in (Data st prm, w)))"

definition serve_all ::
    "'e sys \<Rightarrow> (nat \<Rightarrow> store_request) \<Rightarrow> nat list \<Rightarrow> 'e world \<Rightarrow> (nat \<rightharpoonup> answer) \<times> 'e world" where
  "serve_all S rq is w = fold (\<lambda>i (as, w). let (a, w') = serve S (rq i) w in (as(i \<mapsto> a), w')) is (Map.empty, w)"

lemma serve_all_Nil [simp]: "serve_all S rq [] w = (Map.empty, w)"
  by (simp add: serve_all_def)

lemma serve_all_snoc:
  "serve_all S rq (is @ [i]) w =
     ((fst (serve_all S rq is w))(i \<mapsto> fst (serve S (rq i) (snd (serve_all S rq is w)))),
      snd (serve S (rq i) (snd (serve_all S rq is w))))"
  by (simp add: serve_all_def case_prod_beta Let_def)

lemma serve_change:
  assumes "change_of r = Some (k, v)" "sem_open_ok S (env w)"
  shows "serve S r w = (case write_back S k v (read_dict (files w TR181_LOCAL_STORE_FILE)) w of
     Inl f \<Rightarrow> (Faulted f, w) | Inr (st, w') \<Rightarrow> (Status st, w'))"
  using assms by (cases r) (auto simp: serve_def setLocalParam_def clearLocalParam_def setValue_def Let_def)

lemma write_back_env: "write_back S k v d w = Inr (st, w') \<Longrightarrow> env w' = env w"
  by (auto simp: write_back_def Let_def write_dict_def split: if_splits)

section \<open>The invariant\<close>

fun inside :: "caller_phase \<Rightarrow> bool" where
  "inside Entered = True"
| "inside (Loaded _) = True"
| "inside (Answered _) = True"
| "inside _ = False"

text \<open>Where the caller last admitted stands, \<open>w\<close> being the store before it.\<close>

fun progress :: "'e sys \<Rightarrow> store_request \<Rightarrow> 'e world \<Rightarrow> caller_phase \<Rightarrow> 'e world \<Rightarrow> bool" where
  "progress S r w Entered w' \<longleftrightarrow> w' = w"
| "progress S r w (Loaded d) w' \<longleftrightarrow> w' = w \<and> d = read_dict (files w TR181_LOCAL_STORE_FILE)"
| "progress S r w (Answered a) w' \<longleftrightarrow> (a, w') = serve S r w"
| "progress S r w _ w' \<longleftrightarrow> False"

definition serial :: "'e sys \<Rightarrow> (nat \<Rightarrow> store_request) \<Rightarrow> 'e world \<Rightarrow> 'e store_state \<Rightarrow> bool" where
  "serial S rq w s \<longleftrightarrow>
     distinct (admitted s) \<and> env (store_world s) = env w \<and>
     (\<forall>i. i \<in> set (admitted s) \<longleftrightarrow> phase_at s i \<noteq> Outside \<and> phase_at s i \<noteq> Refused) \<and>
     (\<forall>i a. phase_at s i = Done a \<longrightarrow> fst (serve_all S rq (admitted s) w) i = Some a) \<and>
     (sem_value s = 1 \<and> (\<forall>i. \<not> inside (phase_at s i)) \<and> store_world s = snd (serve_all S rq (admitted s) w) \<or>
      sem_value s = 0 \<and> (\<exists>is i. admitted s = is @ [i] \<and> (\<forall>j. inside (phase_at s j) \<longleftrightarrow> j = i) \<and>
        sem_open_ok S (env w) \<and>
        progress S (rq i) (snd (serve_all S rq is w)) (phase_at s i) (store_world s)))"

lemma serve_env [simp]: "env (snd (serve S r w)) = env w"
  by (cases r) (auto simp: serve_def setLocalParam_def clearLocalParam_def setValue_def Let_def
      dest: write_back_env split: sum.splits prod.splits)

lemma serve_all_env [simp]: "env (snd (serve_all S rq is w)) = env w"
  by (induction "is" rule: rev_induct) (simp_all add: serve_all_snoc)

lemma serial_env: "serial S rq w s \<Longrightarrow> env (store_world s) = env w"
  by (simp add: serial_def)

lemma serial_inside:
  assumes "serial S rq w s" "inside (phase_at s i)"
  obtains "is" where "sem_value s = 0" "admitted s = is @ [i]" "\<forall>j. inside (phase_at s j) \<longleftrightarrow> j = i"
    "sem_open_ok S (env w)" "progress S (rq i) (snd (serve_all S rq is w)) (phase_at s i) (store_world s)"
  using assms unfolding serial_def by metis

text \<open>A step of the caller that is inside, which stays inside.\<close>

lemma serial_inner:
  assumes "serial S rq w s" "inside (phase_at s i)" "admitted s = is @ [i]" "inside ph"
    "progress S (rq i) (snd (serve_all S rq is w)) ph w'" "env w' = env w"
  shows "serial S rq w (move i ph (s\<lparr>store_world := w'\<rparr>))"
proof -
  from serial_inside [OF assms(1,2)] have
      "sem_value s = 0" "\<forall>j. inside (phase_at s j) \<longleftrightarrow> j = i" "sem_open_ok S (env w)" by metis+
  moreover have "ph \<noteq> Outside" "ph \<noteq> Refused" "\<And>a. ph \<noteq> Done a" using assms(4) by auto
  ultimately show ?thesis using assms unfolding serial_def by auto
qed

lemma serial_keep:
  assumes "serial S rq w s" "inside (phase_at s i)" "admitted s = is @ [i]" "inside ph"
    "progress S (rq i) (snd (serve_all S rq is w)) ph (store_world s)"
  shows "serial S rq w (move i ph s)"
  using serial_inner [OF assms serial_env [OF assms(1)]] by simp

lemma serial_enter:
  assumes "serial S rq w s" "phase_at s i = Outside" "sem_open_ok S (env (store_world s))" "0 < sem_value s"
  shows "serial S rq w (move i Entered (s\<lparr>sem_value := sem_value s - 1, admitted := admitted s @ [i]\<rparr>))"
proof -
  have n: "i \<notin> set (admitted s)" and e: "env (store_world s) = env w" using assms(1,2) by (auto simp: serial_def)
  have q: "sem_value s = 1" "\<forall>j. \<not> inside (phase_at s j)" "store_world s = snd (serve_all S rq (admitted s) w)"
    using assms(1,4) by (auto simp: serial_def)
  have d: "phase_at s j = Done a \<Longrightarrow> fst (serve_all S rq (admitted s @ [i]) w) j = Some a" for j a
    using assms(1,2) by (cases "j = i") (auto simp: serial_def serve_all_snoc)
  show ?thesis using assms(1,3) n e q d unfolding serial_def by auto
qed

lemma serial_leave:
  assumes "serial S rq w s" "phase_at s i = Answered a"
  shows "serial S rq w (move i (Done a) (s\<lparr>sem_value := Suc (sem_value s)\<rparr>))"
proof -
  have "inside (phase_at s i)" by (simp add: assms(2))
  then obtain "is" where x: "sem_value s = 0" "admitted s = is @ [i]" "\<forall>j. inside (phase_at s j) \<longleftrightarrow> j = i"
      "(a, store_world s) = serve S (rq i) (snd (serve_all S rq is w))"
    using serial_inside [OF assms(1)] assms(2) by (metis progress.simps(3))
  then have "fst (serve_all S rq (admitted s) w) i = Some a" "store_world s = snd (serve_all S rq (admitted s) w)"
    by (metis fst_conv fun_upd_same serve_all_snoc) (metis snd_conv serve_all_snoc x(2,4))
  then show ?thesis using assms x(1,3) unfolding serial_def by auto
qed

lemma serial_step:
  assumes "store_step False S rq s s'" "serial S rq w s"
  shows "serial S rq w s'"
  using assms(1)
proof cases
  case (not_open i)
  then show ?thesis using assms(2) by (auto simp: serial_def)
next
  case (wait i)
  then show ?thesis using serial_enter [OF assms(2)] by simp
next
  case (load i kv)
  then have i: "inside (phase_at s i)" by simp
  from serial_inside [OF assms(2) this] obtain "is" where "admitted s = is @ [i]"
      "progress S (rq i) (snd (serve_all S rq is w)) Entered (store_world s)" using load(2) by metis
  then show ?thesis unfolding load(1) by (intro serial_keep [OF assms(2) i]) simp_all
next
  case (store i d k v st w1)
  then have i: "inside (phase_at s i)" by simp
  from serial_inside [OF assms(2) this] obtain "is" where x: "admitted s = is @ [i]" "sem_open_ok S (env w)"
      "progress S (rq i) (snd (serve_all S rq is w)) (Loaded d) (store_world s)" using store(2) by metis
  have e: "env w1 = env w" using write_back_env [OF store(4)] serial_env [OF assms(2)] by simp
  have "serve S (rq i) (snd (serve_all S rq is w)) = (Status st, w1)"
    using serve_change [OF store(3), of S "snd (serve_all S rq is w)"] x(2,3) store(4) by simp
  with serial_inner [OF assms(2) i x(1), of "Answered (Status st)" w1] e store(1) show ?thesis by simp
next
  case (fault i d k v f)
  then have i: "inside (phase_at s i)" by simp
  from serial_inside [OF assms(2) this] obtain "is" where x: "admitted s = is @ [i]" "sem_open_ok S (env w)"
      "progress S (rq i) (snd (serve_all S rq is w)) (Loaded d) (store_world s)" using fault(2) by metis
  have "serve S (rq i) (snd (serve_all S rq is w)) = (Faulted f, store_world s)"
    using serve_change [OF fault(3), of S "snd (serve_all S rq is w)"] x(2,3) fault(4) by simp
  then show ?thesis unfolding fault(1) by (intro serial_keep [OF assms(2) i x(1)]) simp_all
next
  case (look i caller name out st prm)
  then have i: "inside (phase_at s i)" by simp
  from serial_inside [OF assms(2) this] obtain "is" where x: "admitted s = is @ [i]"
      "progress S (rq i) (snd (serve_all S rq is w)) Entered (store_world s)" using look(2) by metis
  then have "serve S (rq i) (snd (serve_all S rq is w)) = (Data st prm, store_world s)"
    using look(3,4) by (simp add: serve_def)
  then show ?thesis unfolding look(1) by (intro serial_keep [OF assms(2) i x(1)]) simp_all
next
  case (post i a)
  then show ?thesis using serial_leave [OF assms(2)] by simp
qed simp

lemma serial_reach: "store_reach False S rq w s \<Longrightarrow> serial S rq w s"
proof (induction rule: store_reach.induct)
  case start
  show ?case by (simp add: serial_def store_start_def)
qed (rule serial_step)

section \<open>The abstract store under concurrent callers\<close>

fun abs_serve :: "store_request \<Rightarrow> (string \<rightharpoonup> string) \<Rightarrow> (string \<rightharpoonup> string)" where
  "abs_serve (SetReq k v) m = m(k \<mapsto> v)"
| "abs_serve (ClearReq n) m = (\<lambda>k. if clears n k then None else m k)"
| "abs_serve (GetReq _ _ _) m = m"

fun request_ok :: "store_request \<Rightarrow> bool" where
  "request_ok (SetReq k v) \<longleftrightarrow> entry_ok (k, v) \<and> k \<noteq> TR181_CLEAR_PARAM"
| "request_ok (ClearReq n) \<longleftrightarrow> n \<noteq> []"
| "request_ok (GetReq _ _ _) \<longleftrightarrow> True"

lemma serve_refines:
  assumes "iter_ok S" "store_text w" "request_ok r" "fopen_w S (env w) TR181_LOCAL_STORE_FILE" "sem_open_ok S (env w)"
  shows "store_view (snd (serve S r w)) = abs_serve r (store_view w) \<and> store_text (snd (serve S r w))"
proof (cases r)
  case (SetReq k v)
  with set_refines [OF assms(1,2) _ _ assms(4), of k v] assms(3,5) show ?thesis
    by (auto simp: serve_def setLocalParam_def)
next
  case (ClearReq n)
  with clear_refines [OF assms(1,2) _ assms(4), of n] assms(3,5) show ?thesis
    by (auto simp: serve_def clearLocalParam_def)
next
  case (GetReq c n out)
  with assms(2) show ?thesis by (simp add: serve_def case_prod_beta)
qed

lemma serve_all_refines:
  assumes "iter_ok S" "store_text w" "\<forall>i. request_ok (rq i)" "fopen_w S (env w) TR181_LOCAL_STORE_FILE" "sem_open_ok S (env w)"
  shows "store_view (snd (serve_all S rq is w)) = fold (\<lambda>i. abs_serve (rq i)) is (store_view w) \<and>
     store_text (snd (serve_all S rq is w))"
proof (induction "is" rule: rev_induct)
  case (snoc i "is")
  with serve_refines [OF assms(1), of "snd (serve_all S rq is w)" "rq i"] assms(3-5) show ?case
    by (simp add: serve_all_snoc)
qed (simp add: assms(2))

text \<open>A stale dictionary written back replaces the store.\<close>

lemma stale_write:
  assumes "iter_ok S" "store_text w" "entry_ok (k, v)" "k \<noteq> TR181_CLEAR_PARAM" "fopen_w S (env w') TR181_LOCAL_STORE_FILE"
  shows "\<exists>w1. write_back S k v (read_dict (files w TR181_LOCAL_STORE_FILE)) w' = Inr (tr181Success, w1) \<and>
     store_view w1 = (store_view w)(k \<mapsto> v) \<and> env w1 = env w'"
proof -
  let ?d = "read_dict (files w TR181_LOCAL_STORE_FILE)"
  have ok: "\<forall>kv\<in>set (map_put k v ?d). entry_ok kv"
    using map_put_entries [of k v ?d] store_dict_ok [OF assms(2)] assms(3) by auto
  have "write_back S k v ?d w' = Inr (tr181Success, write_dict S (map_put k v ?d) w')"
    using assms(4,5) by (simp add: write_back_def)
  moreover have "store_view (write_dict S (map_put k v ?d) w') = (store_view w)(k \<mapsto> v)"
    unfolding write_dict_view(1) [OF assms(1) map_wf_put [OF read_dict_wf] ok assms(5)]
    by (rule ext) (simp add: map_of_put store_view_def)
  ultimately show ?thesis by (auto simp: write_dict_def)
qed

lemma store_enters:
  "sem_open_ok S (env w) \<Longrightarrow> store_reach intr S rq w
     (move 0 Entered ((store_start w)\<lparr>sem_value := 0, admitted := [0]\<rparr>))"
  using store_reach.step [OF store_reach.start store_step.wait, of w 0 S intr rq] by (simp add: store_start_def)

section \<open>Properties\<close>

text \<open>In every interleaving at most one caller is between its wait and its post, unless a wait is
  interrupted.\<close>

lemma store_exclusive:
  assumes "store_reach False S rq w s" "inside (phase_at s i)" "inside (phase_at s j)"
  shows "i = j \<and> sem_value s = 0"
  using serial_inside [OF serial_reach [OF assms(1)] assms(2)] assms(3) by metis

text \<open>C8: the store refines an atomic one: when nobody is inside, its content is that of serving the
  requests one after the other in the order of admission (an abstract map update each, so that no
  update is lost), and every caller that has finished got the answer it gets in that order.\<close>

theorem store_serializable:
  assumes "store_reach False S rq w s" "\<forall>i. \<not> inside (phase_at s i)" "iter_ok S" "store_text w" "\<forall>i. request_ok (rq i)"
    "fopen_w S (env w) TR181_LOCAL_STORE_FILE" "sem_open_ok S (env w)"
  shows "store_view (store_world s) = fold (\<lambda>i. abs_serve (rq i)) (admitted s) (store_view w) \<and>
     distinct (admitted s) \<and>
     (\<forall>i a. phase_at s i = Done a \<longrightarrow> i \<in> set (admitted s) \<and> fst (serve_all S rq (admitted s) w) i = Some a)"
proof -
  have "serial S rq w s" by (rule serial_reach [OF assms(1)])
  then have "store_world s = snd (serve_all S rq (admitted s) w)" "distinct (admitted s)"
      "\<forall>i a. phase_at s i = Done a \<longrightarrow> i \<in> set (admitted s) \<and> fst (serve_all S rq (admitted s) w) i = Some a"
    using assms(2) unfolding serial_def by auto
  with serve_all_refines [OF assms(3-7), of "admitted s"] show ?thesis by simp
qed

text \<open>C25: when the wait of a second caller is interrupted both callers load the same content, and the
  one that writes last undoes the change of the other, although both are told that it succeeded.\<close>

theorem interrupted_wait_loses_update:
  assumes "iter_ok S" "store_text w" "\<forall>e. fopen_w S e TR181_LOCAL_STORE_FILE" "sem_open_ok S (env w)"
    "entry_ok (k1, v1)" "entry_ok (k2, v2)" "k1 \<noteq> TR181_CLEAR_PARAM" "k2 \<noteq> TR181_CLEAR_PARAM" "k1 \<noteq> k2"
    "rq 0 = SetReq k1 v1" "rq 1 = SetReq k2 v2"
  shows "\<exists>s. store_reach True S rq w s \<and> phase_at s 0 = Done (Status tr181Success) \<and>
     phase_at s 1 = Done (Status tr181Success) \<and> store_view (store_world s) = (store_view w)(k2 \<mapsto> v2)"
proof -
  let ?d = "read_dict (files w TR181_LOCAL_STORE_FILE)" and ?ok = "Answered (Status tr181Success)"
  obtain w1 where w1: "write_back S k1 v1 ?d w = Inr (tr181Success, w1)"
    using stale_write [OF assms(1,2,5,7), of w] assms(3) by blast
  obtain w2 where w2: "write_back S k2 v2 ?d w1 = Inr (tr181Success, w2)" "store_view w2 = (store_view w)(k2 \<mapsto> v2)"
    using stale_write [OF assms(1,2,6,8), of w1] assms(3) by blast
  define s1 where "s1 = move 0 Entered ((store_start w)\<lparr>sem_value := 0, admitted := [0]\<rparr>)"
  define s2 where "s2 = move 1 Entered (s1\<lparr>admitted := admitted s1 @ [1]\<rparr>)"
  define s3 where "s3 = move 0 (Loaded ?d) s2"
  define s4 where "s4 = move 1 (Loaded ?d) s3"
  define s5 where "s5 = move 0 ?ok (s4\<lparr>store_world := w1\<rparr>)"
  define s6 where "s6 = move 1 ?ok (s5\<lparr>store_world := w2\<rparr>)"
  define s7 where "s7 = move 0 (Done (Status tr181Success)) (s6\<lparr>sem_value := Suc (sem_value s6)\<rparr>)"
  define s8 where "s8 = move 1 (Done (Status tr181Success)) (s7\<lparr>sem_value := Suc (sem_value s7)\<rparr>)"
  note d = s1_def s2_def s3_def s4_def s5_def s6_def s7_def s8_def store_start_def
  have w: "store_world s2 = w" "store_world s3 = w" and e: "phase_at s2 0 = Entered" "phase_at s3 1 = Entered"
    by (simp_all add: d)
  have c: "change_of (rq 0) = Some (k1, v1)" "change_of (rq 1) = Some (k2, v2)"
    by (simp_all only: assms(10,11) change_of.simps)
  have "store_reach True S rq w s1" unfolding s1_def by (rule store_enters [OF assms(4)])
  moreover have "store_step True S rq s1 s2" unfolding s2_def by (rule interrupted) (simp_all add: d assms(4))
  moreover have "store_step True S rq s2 s3"
    using load [of s2 0 rq "(k1, v1)" True S, OF e(1) c(1)] unfolding w s3_def [symmetric] .
  moreover have "store_step True S rq s3 s4"
    using load [of s3 1 rq "(k2, v2)" True S, OF e(2) c(2)] unfolding w s4_def [symmetric] .
  moreover have "store_step True S rq s4 s5"
    unfolding s5_def by (rule store [of _ _ ?d _ k1 v1]) (simp_all only: c w1, simp_all add: d w1)
  moreover have "store_step True S rq s5 s6"
    unfolding s6_def by (rule store [of _ _ ?d _ k2 v2]) (simp_all only: c w2(1), simp_all add: d w2(1))
  moreover have "store_step True S rq s6 s7" unfolding s7_def by (rule post) (simp_all add: d)
  moreover have "store_step True S rq s7 s8" unfolding s8_def by (rule post) (simp_all add: d)
  ultimately have "store_reach True S rq w s8" by (meson store_reach.step)
  then show ?thesis using w2(2) by (intro exI [of _ s8]) (simp add: d)
qed

section \<open>Witnesses\<close>

definition two_sets :: "nat \<Rightarrow> store_request" where
  "two_sets i = (if i = 0 then SetReq ''a'' ''1'' else SetReq ''b'' ''2'')"

lemma two_sets_ok: "request_ok (two_sets i)" "entry_ok (''a'', ''1'')" "entry_ok (''b'', ''2'')"
  by (simp_all add: two_sets_def entry_ok_def key_ok_def path_defs)

theorem store_serializable_witness:
  "\<exists>s. store_reach False ref_stb two_sets ref_world s \<and> phase_at s 0 = Done (Status tr181Success) \<and>
     store_view (store_world s) = (store_view ref_world)(''a'' \<mapsto> ''1'')"
proof -
  let ?S = "ref_stb" and ?d = "read_dict (files ref_world TR181_LOCAL_STORE_FILE)"
  obtain w1 where w1: "write_back ?S ''a'' ''1'' ?d ref_world = Inr (tr181Success, w1)"
    using stale_write [of ?S ref_world "''a''" "''1''" ref_world] two_sets_ok(2) by (auto simp: path_defs)
  define s1 where "s1 = move 0 Entered ((store_start ref_world)\<lparr>sem_value := 0, admitted := [0]\<rparr>)"
  define s2 where "s2 = move 0 (Loaded ?d) s1"
  define s3 where "s3 = move 0 (Answered (Status tr181Success)) (s2\<lparr>store_world := w1\<rparr>)"
  define s4 where "s4 = move 0 (Done (Status tr181Success)) (s3\<lparr>sem_value := Suc (sem_value s3)\<rparr>)"
  note d = s1_def s2_def s3_def s4_def store_start_def two_sets_def
  have "store_reach False ?S two_sets ref_world s1" unfolding s1_def by (rule store_enters) simp
  moreover have "store_step False ?S two_sets s1 s2"
    using load [of s1 0 two_sets "(''a'', ''1'')" False ?S] by (simp add: d)
  moreover have "store_step False ?S two_sets s2 s3"
    unfolding s3_def by (rule store [of _ _ ?d _ "''a''" "''1''"]) (simp_all add: d w1)
  moreover have "store_step False ?S two_sets s3 s4" unfolding s4_def by (rule post) (simp_all add: d)
  ultimately have r: "store_reach False ?S two_sets ref_world s4" by (meson store_reach.step)
  have q: "\<forall>i. \<not> inside (phase_at s4 i)" and a: "admitted s4 = [0]" and p: "phase_at s4 0 = Done (Status tr181Success)"
    by (simp_all add: d)
  have "store_view (store_world s4) = fold (\<lambda>i. abs_serve (two_sets i)) (admitted s4) (store_view ref_world)"
    by (rule conjunct1 [OF store_serializable [OF r q]]) (simp_all add: two_sets_ok(1))
  then have "store_view (store_world s4) = (store_view ref_world)(''a'' \<mapsto> ''1'')"
    by (simp add: a two_sets_def)
  with r p show ?thesis by blast
qed

theorem interrupted_wait_loses_update_witness:
  "\<exists>s. store_reach True ref_stb two_sets ref_world s \<and> phase_at s 0 = Done (Status tr181Success) \<and>
     store_view (store_world s) ''a'' = None"
proof -
  have "\<exists>s. store_reach True ref_stb two_sets ref_world s \<and> phase_at s 0 = Done (Status tr181Success) \<and>
      phase_at s 1 = Done (Status tr181Success) \<and> store_view (store_world s) = (store_view ref_world)(''b'' \<mapsto> ''2'')"
    by (rule interrupted_wait_loses_update [of _ _ "''a''" "''1''"])
      (simp_all add: two_sets_ok, simp_all add: two_sets_def path_defs)
  moreover have "((store_view ref_world)(''b'' \<mapsto> ''2'')) ''a'' = None"
    by (simp add: store_view_def read_dict_def ref_world_def)
  ultimately show ?thesis by metis
qed

end
