(* ===== verification/Arg_Loop.thy ===== *)
theory Arg_Loop
  imports Rfc_Prelude
begin

text \<open>
  The loop with which the two command line tools read their arguments: a counter runs over \<open>argv\<close>
  and the body decides how far it moves.  The body of such a loop is described by a locale, in
  which it is shown exactly when the loop returns: an option that waits for its value leaves the
  counter where it is when the value is missing, and the loop never ends.
\<close>

partial_function (option) arg_loop ::
    "(string list \<Rightarrow> nat \<Rightarrow> 'o \<Rightarrow> nat \<times> 'o) \<Rightarrow> string list \<Rightarrow> nat \<Rightarrow> 'o \<Rightarrow> 'o option" where
  "arg_loop step argv i opts =
     (if i < length argv then (case step argv i opts of (j, opts') \<Rightarrow> arg_loop step argv j opts')
      else Some opts)"

text \<open>\<open>waits a\<close>: the option needs the following argument and does not advance without it;
  \<open>pairs a\<close>: it takes the following argument whether there is one or not.\<close>

fun dangling :: "(string \<Rightarrow> bool) \<Rightarrow> (string \<Rightarrow> bool) \<Rightarrow> string list \<Rightarrow> bool" where
  "dangling waits pairs [] = False"
| "dangling waits pairs [a] = waits a"
| "dangling waits pairs (a # b # as) =
     (if waits a \<or> pairs a then dangling waits pairs as else dangling waits pairs (b # as))"

lemma arg_loop_stuck:
  assumes "i < length argv" "step argv i opts = (i, opts)"
  shows "arg_loop step argv i opts = None"
proof -
  have "st = step \<and> av = argv \<longrightarrow> \<not> (j = i \<and> o' = opts)" if "arg_loop st av j o' = Some r" for st av j o' r
    using _ that by (rule arg_loop.raw_induct [where P = "\<lambda>st av j o' r. st = step \<and> av = argv \<longrightarrow> \<not> (j = i \<and> o' = opts)"])
      (use assms in fastforce)
  from this [of step argv i opts] show ?thesis by (cases "arg_loop step argv i opts") auto
qed

locale arg_words =
  fixes step :: "string list \<Rightarrow> nat \<Rightarrow> 'o \<Rightarrow> nat \<times> 'o"
    and waits pairs :: "string \<Rightarrow> bool"
  assumes missing: "Suc i = length argv \<Longrightarrow> waits (argv ! i) \<Longrightarrow> step argv i opts = (i, opts)"
    and two: "Suc i < length argv \<Longrightarrow> waits (argv ! i) \<or> pairs (argv ! i) \<Longrightarrow> fst (step argv i opts) = i + 2"
    and two_last: "Suc i = length argv \<Longrightarrow> \<not> waits (argv ! i) \<Longrightarrow> pairs (argv ! i) \<Longrightarrow> fst (step argv i opts) = i + 2"
    and one: "i < length argv \<Longrightarrow> \<not> waits (argv ! i) \<Longrightarrow> \<not> pairs (argv ! i) \<Longrightarrow> fst (step argv i opts) = i + 1"
begin

lemma loop_end: "length argv \<le> i \<Longrightarrow> arg_loop step argv i opts = Some opts"
  by (subst arg_loop.simps) simp

lemma loop_next:
  "i < length argv \<Longrightarrow> step argv i opts = (j, opts') \<Longrightarrow> arg_loop step argv i opts = arg_loop step argv j opts'"
  by (subst arg_loop.simps) simp

lemma hangs_iff: "arg_loop step argv i opts = None \<longleftrightarrow> dangling waits pairs (drop i argv)"
proof (induction "length argv - i" arbitrary: i opts rule: less_induct)
  case less
  obtain j opts' where st: "step argv i opts = (j, opts')" by fastforce
  consider (over) "length argv \<le> i" | (last) "Suc i = length argv" | (more) "Suc i < length argv" by linarith
  then show ?case
  proof cases
    case over
    then show ?thesis by (simp add: loop_end)
  next
    case last
    then have d: "drop i argv = [argv ! i]" by (simp add: Cons_nth_drop_Suc [symmetric])
    show ?thesis
    proof (cases "waits (argv ! i)")
      case True
      then show ?thesis using d last arg_loop_stuck [of i argv step opts] missing by simp
    next
      case False
      then have "length argv \<le> j" using last st two_last [OF last False, of opts] one [of i argv opts] by fastforce
      then have "arg_loop step argv i opts = Some opts'" using last st by (simp add: loop_next [of i argv] loop_end)
      then show ?thesis using d False by simp
    qed
  next
    case more
    then have d: "drop i argv = argv ! i # argv ! Suc i # drop (i + 2) argv"
      by (simp add: Cons_nth_drop_Suc [symmetric])
    have n: "arg_loop step argv i opts = arg_loop step argv j opts'" using more st by (simp add: loop_next)
    show ?thesis
    proof (cases "waits (argv ! i) \<or> pairs (argv ! i)")
      case True
      then have "j = i + 2" using two [OF more, of opts] st by simp
      then show ?thesis using True d n more less [of j opts'] by simp
    next
      case False
      then have "j = Suc i" using one [of i argv opts] more st by simp
      moreover have "drop (Suc i) argv = argv ! Suc i # drop (i + 2) argv" using more by (simp add: Cons_nth_drop_Suc [symmetric])
      ultimately show ?thesis using False d n more less [of j opts'] by simp
    qed
  qed
qed

end

section \<open>Options\<close>

text \<open>\<open>strncasecmp(a, opt, 2) == 0\<close> and \<open>a[0] != '-'\<close>.\<close>

definition is_opt :: "string \<Rightarrow> string \<Rightarrow> bool" where
  "is_opt a opt \<longleftrightarrow> strncasecmp_eq a opt 2"

definition not_dash :: "string \<Rightarrow> bool" where
  "not_dash a \<longleftrightarrow> a = [] \<or> hd a \<noteq> CHR ''-''"

lemma is_opt_letter: "is_opt a [CHR ''-'', c] \<Longrightarrow> c \<noteq> NUL \<Longrightarrow> tolower (cstr a ! 1) = tolower c"
proof -
  assume a: "is_opt a [CHR ''-'', c]" "c \<noteq> NUL"
  then have "map tolower (take 2 (cstr a)) = [tolower (CHR ''-''), tolower c]"
    by (simp add: is_opt_def strncasecmp_eq_def cstr_def)
  then show ?thesis by (cases "cstr a" rule: list.exhaust [case_names Nil Cons]) (auto simp: take_Cons' split: if_splits, cases "tl (cstr a)", auto)
qed

lemma lower_letters:
  "tolower (CHR ''s'') = CHR ''s''" "tolower (CHR ''v'') = CHR ''v''" "tolower (CHR ''c'') = CHR ''c''"
  "tolower (CHR ''t'') = CHR ''t''" "tolower (CHR ''d'') = CHR ''d''" "tolower (CHR ''n'') = CHR ''n''"
  by (simp_all add: tolower_def isupper_def)

lemma tolower_dash: "tolower c = CHR ''-'' \<Longrightarrow> c = CHR ''-''"
proof (rule ccontr)
  assume t: "tolower c = CHR ''-''" "c \<noteq> CHR ''-''"
  then have u: "isupper c" by (auto simp: tolower_def split: if_splits)
  then have "(of_char (tolower c) :: nat) = of_char c + 32" using tolower_lt [OF u] by (simp add: tolower_def)
  with t(1) u show False by (simp add: isupper_def)
qed

lemma is_opt_dash: "is_opt a [CHR ''-'', c] \<Longrightarrow> \<not> not_dash a"
  by (cases a) (auto simp: is_opt_def strncasecmp_eq_def not_dash_def cstr_def numeral_2_eq_2
      tolower_def [of "CHR ''-''"] isupper_def dest!: tolower_dash split: if_splits)

lemma opt_clash:
  "is_opt a ''-v'' \<Longrightarrow> \<not> is_opt a ''-s''" "is_opt a ''-v'' \<Longrightarrow> \<not> is_opt a ''-c''" "is_opt a ''-v'' \<Longrightarrow> \<not> is_opt a ''-t''"
  "is_opt a ''-t'' \<Longrightarrow> \<not> is_opt a ''-s''" "is_opt a ''-t'' \<Longrightarrow> \<not> is_opt a ''-c''"
  "is_opt a ''-n'' \<Longrightarrow> \<not> is_opt a ''-s''" "is_opt a ''-n'' \<Longrightarrow> \<not> is_opt a ''-c''" "is_opt a ''-n'' \<Longrightarrow> \<not> is_opt a ''-t''"
  "is_opt a ''-n'' \<Longrightarrow> \<not> is_opt a ''-v''" "is_opt a ''-n'' \<Longrightarrow> \<not> is_opt a ''-d''"
  by (auto dest!: is_opt_letter simp: lower_letters)

end
