(* ===== verification/Trset_Utils.thy ===== *)
theory Trset_Utils
  imports Arg_Loop Rfc_World
begin

text \<open>
  utils/trsetutils.cpp: the legacy tool that reads and writes parameters of tr69hostif over the
  IARM bus, as built with \<open>USE_TR69HOSTIF\<close> and \<open>USE_IARMBUS\<close> (without the former the tool does
  nothing and returns 0).  The bus and the message layout are not part of the repository: the
  record \<open>bus\<close> holds the calls, the length of the value array and the zeroed message.  The value
  array is a list of bytes, in which numbers are stored in little-endian two's complement.  Shown
  here: when the connection loop and the argument loop return, and what the tool prints of a value
  it stored.
\<close>

section \<open>Messages and the bus\<close>

text \<open>The types and fault codes the switches name; \<open>Unlisted\<close> stands for any other code.\<close>

datatype HostIf_ParamType =
    hostIf_StringType | hostIf_IntegerType | hostIf_UnsignedIntType | hostIf_UnsignedLongType
  | hostIf_BooleanType | hostIf_DateTimeType | hostIf_Unlisted nat

datatype faultCode =
    fcNoFault | fcMethodNotSupported | fcRequestDenied | fcInternalError | fcInvalidArguments
  | fcResourcesExceeded | fcInvalidParameterName | fcInvalidParameterType | fcInvalidParameterValue
  | fcAttemptToSetaNonWritableParameter | fcUnlisted nat

datatype HostIf_ReqType = HOSTIF_GET | HOSTIF_SET

record HOSTIF_MsgData =
  paramName :: string
  paramValue :: string
  paramtype :: HostIf_ParamType
  reqType :: HostIf_ReqType
  msg_fault :: faultCode

record 'b bus =
  msg_len :: nat
  zero_msg :: HOSTIF_MsgData
  IARM_Bus_Init :: "'b \<Rightarrow> 'b \<times> bool"
  IARM_Bus_Connect :: "'b \<Rightarrow> 'b \<times> bool"
  IARM_Bus_Term :: "'b \<Rightarrow> 'b"
  IARM_Bus_Disconnect :: "'b \<Rightarrow> 'b"
  bus_sleep :: "nat \<Rightarrow> 'b \<Rightarrow> 'b"
  IARM_Bus_Call :: "HostIf_ReqType \<Rightarrow> HOSTIF_MsgData \<Rightarrow> 'b \<Rightarrow> 'b \<times> bool \<times> HOSTIF_MsgData"

definition ONE_SEC_MILLIS :: nat where "ONE_SEC_MILLIS = 1000"

section \<open>Connecting\<close>

text \<open>One round of the loop: whether the bus is initialised and connected.\<close>

definition connect_round :: "'b bus \<Rightarrow> 'b \<Rightarrow> 'b \<times> bool" where
  "connect_round B b = (case IARM_Bus_Init B b of
       (b1, False) \<Rightarrow> (b1, False)
     | (b1, True) \<Rightarrow> (case IARM_Bus_Connect B b1 of
           (b2, True) \<Rightarrow> (b2, True)
         | (b2, False) \<Rightarrow> (bus_sleep B ONE_SEC_MILLIS (IARM_Bus_Term B b2), False)))"

partial_function (option) initilize :: "'b bus \<Rightarrow> 'b \<Rightarrow> 'b option" where
  "initilize B b = (case connect_round B b of (b', ok) \<Rightarrow> if ok then Some b' else initilize B b')"

definition bus_term :: "'b bus \<Rightarrow> 'b \<Rightarrow> 'b" where
  "bus_term B b = IARM_Bus_Term B (IARM_Bus_Disconnect B b)"

section \<open>Values\<close>

fun getErrorDetails :: "faultCode \<Rightarrow> string" where
  "getErrorDetails fcMethodNotSupported = '' Method not supported''"
| "getErrorDetails fcRequestDenied = '' Request denied''"
| "getErrorDetails fcInternalError = '' Internal error ''"
| "getErrorDetails fcInvalidArguments = '' Method not supported''"
| "getErrorDetails fcResourcesExceeded = '' Resorces exhausted''"
| "getErrorDetails fcInvalidParameterName = '' Invalid parameter name''"
| "getErrorDetails fcInvalidParameterType = '' Invalid parameter type''"
| "getErrorDetails fcInvalidParameterValue = '' Invalid parameter value''"
| "getErrorDetails fcAttemptToSetaNonWritableParameter = '' Read only parameter''"
| "getErrorDetails _ = '' Unknown error code''"

text \<open>\<open>strtol\<close> saturates at the range of a 64-bit \<open>long\<close>; \<open>atoi\<close> keeps its low 32 bits.\<close>

definition atol :: "string \<Rightarrow> int" where
  "atol s = (case strtol10 (cstr s) of None \<Rightarrow> 0 | Some i \<Rightarrow> max (- (2 ^ 63)) (min (2 ^ 63 - 1) i))"

definition atoi :: "string \<Rightarrow> int" where
  "atoi s = signed_take_bit 31 (atol s)"

text \<open>The \<open>n\<close> low bytes of a number, lowest first, and the unsigned number in \<open>n\<close> bytes.\<close>

fun le_bytes :: "nat \<Rightarrow> int \<Rightarrow> string" where
  "le_bytes 0 x = []"
| "le_bytes (Suc n) x = char_of (x mod 256) # le_bytes n (x div 256)"

fun le_val :: "nat \<Rightarrow> string \<Rightarrow> int" where
  "le_val (Suc n) (c # s) = of_char c + 256 * le_val n s"
| "le_val _ _ = 0"

definition put_bytes :: "string \<Rightarrow> string \<Rightarrow> string" where
  "put_bytes b old = b @ drop (length b) old"

definition text_true :: "string \<Rightarrow> bool" where
  "text_true v \<longleftrightarrow> strncasecmp_eq v ''TRUE'' 4 \<or> (v \<noteq> [] \<and> isdigit (hd v) \<and> hd v \<noteq> CHR ''0'')"

definition convertParamValues :: "'b bus \<Rightarrow> HOSTIF_MsgData \<Rightarrow> string \<Rightarrow> HOSTIF_MsgData" where
  "convertParamValues B m v = (case paramtype m of
       hostIf_StringType \<Rightarrow> m\<lparr>paramValue := put_bytes (buf_copy (msg_len B) v @ [NUL]) (paramValue m)\<rparr>
     | hostIf_DateTimeType \<Rightarrow> m\<lparr>paramValue := put_bytes (buf_copy (msg_len B) v @ [NUL]) (paramValue m)\<rparr>
     | hostIf_IntegerType \<Rightarrow> m\<lparr>paramValue := put_bytes (le_bytes 4 (atoi v)) (paramValue m)\<rparr>
     | hostIf_UnsignedIntType \<Rightarrow> m\<lparr>paramValue := put_bytes (le_bytes 4 (atoi v)) (paramValue m)\<rparr>
     | hostIf_UnsignedLongType \<Rightarrow> m\<lparr>paramValue := put_bytes (le_bytes 8 (atol v)) (paramValue m)\<rparr>
     | hostIf_BooleanType \<Rightarrow> m\<lparr>paramValue := put_bytes (le_bytes 1 (if text_true v then 1 else 0)) (paramValue m)\<rparr>
     | hostIf_Unlisted _ \<Rightarrow> m)"

definition trset_convertType :: "char \<Rightarrow> HostIf_ParamType" where
  "trset_convertType t =
     (if t = CHR ''s'' then hostIf_StringType else if t = CHR ''i'' then hostIf_IntegerType
      else if t = CHR ''b'' then hostIf_BooleanType else hostIf_IntegerType)"

text \<open>What goes to the error stream; every number is printed as a signed one.\<close>

definition print_text :: "string \<Rightarrow> string res" where
  "print_text s = (if NUL \<in> set s then Inr (cstr s @ [NL]) else Inl OutOfBounds)"

definition printParameterDetails :: "HOSTIF_MsgData \<Rightarrow> string res" where
  "printParameterDetails m = (case paramtype m of
       hostIf_StringType \<Rightarrow> print_text (paramValue m)
     | hostIf_DateTimeType \<Rightarrow> print_text (paramValue m)
     | hostIf_IntegerType \<Rightarrow> Inr (int_str (signed_take_bit 31 (le_val 4 (paramValue m))) @ [NL])
     | hostIf_UnsignedIntType \<Rightarrow> Inr (int_str (signed_take_bit 31 (le_val 4 (paramValue m))) @ [NL])
     | hostIf_UnsignedLongType \<Rightarrow> Inr (int_str (signed_take_bit 63 (le_val 8 (paramValue m))) @ [NL])
     | hostIf_BooleanType \<Rightarrow> Inr (int_str (if le_val 1 (paramValue m) = 0 then 0 else 1) @ [NL])
     | hostIf_Unlisted _ \<Rightarrow> Inr [])"

section \<open>Reading and writing a parameter\<close>

definition get_msg :: "'b bus \<Rightarrow> string \<Rightarrow> HOSTIF_MsgData" where
  "get_msg B pname = (zero_msg B)\<lparr>paramName := buf_copy (msg_len B) pname, reqType := HOSTIF_GET\<rparr>"

definition trset_getParamType :: "'b bus \<Rightarrow> string \<Rightarrow> 'b \<Rightarrow> HostIf_ParamType option \<times> 'b" where
  "trset_getParamType B pname b = (case IARM_Bus_Call B HOSTIF_GET (get_msg B pname) b of
       (b', ok, m) \<Rightarrow> (if ok \<and> msg_fault m = fcNoFault then Some (paramtype m) else None, b'))"

definition trset_getAttribute :: "'b bus \<Rightarrow> string \<Rightarrow> 'b \<Rightarrow> (int \<times> string \<times> 'b) res" where
  "trset_getAttribute B pname b = (case IARM_Bus_Call B HOSTIF_GET (get_msg B pname) b of
       (b', ok, m) \<Rightarrow> if ok \<and> msg_fault m = fcNoFault
         then rbind (printParameterDetails m) (\<lambda>out. Inr (0, out, b')) else Inr (1, [], b'))"

definition trset_setAttribute :: "'b bus \<Rightarrow> string \<Rightarrow> char \<Rightarrow> string \<Rightarrow> 'b \<Rightarrow> (int \<times> string \<times> 'b) res" where
  "trset_setAttribute B pname type v b = (case trset_getParamType B pname b of (t, b1) \<Rightarrow>
     let m = (zero_msg B)\<lparr>paramName := buf_copy (msg_len B) pname,
                paramtype := (case t of Some ty \<Rightarrow> ty | None \<Rightarrow> trset_convertType type)\<rparr>;
         m' = (convertParamValues B m v)\<lparr>reqType := HOSTIF_SET\<rparr>
     in case IARM_Bus_Call B HOSTIF_SET m' b1 of (b2, ok, r) \<Rightarrow>
          if ok \<and> msg_fault r = fcNoFault
          then rbind (trset_getAttribute B pname b2) (\<lambda>(_, out, b3). Inr (0, out, b3)) else Inr (1, [], b2))"

section \<open>The tool\<close>

record trset_opts =
  s_value :: "string option"
  s_key :: "string option"
  s_mode :: HostIf_ReqType
  s_silent :: bool

definition trset_opts0 :: trset_opts where
  "trset_opts0 = \<lparr>s_value = None, s_key = None, s_mode = HOSTIF_GET, s_silent = True\<rparr>"

definition trset_step :: "string list \<Rightarrow> nat \<Rightarrow> trset_opts \<Rightarrow> nat \<times> trset_opts" where
  "trset_step argv i opts = (let a = argv ! i in
     if is_opt a ''-s'' then (i + 1, opts\<lparr>s_mode := HOSTIF_SET\<rparr>)
     else if is_opt a ''-v'' then (if i + 1 < length argv then (i + 2, opts\<lparr>s_value := Some (argv ! (i + 1))\<rparr>) else (i, opts))
     else if not_dash a then (i + 1, opts\<lparr>s_key := Some a\<rparr>)
     else if is_opt a ''-d'' then (i + 1, opts\<lparr>s_silent := False\<rparr>)
     else (i + 1, opts))"

definition trset_parseargs :: "string list \<Rightarrow> trset_opts \<Rightarrow> trset_opts option" where
  "trset_parseargs argv opts = arg_loop trset_step argv 1 opts"

text \<open>\<open>trsetutil\<close>: the exit status, the text on the error stream and the bus; the outer \<open>None\<close> is a
  run that does not end.  The type letter is never set and stays \<open>u\<close>.\<close>

definition trsetutil :: "'b bus \<Rightarrow> string list \<Rightarrow> 'b \<Rightarrow> (int \<times> string \<times> 'b) res option" where
  "trsetutil B argv b = (case trset_parseargs argv trset_opts0 of None \<Rightarrow> None
     | Some opts \<Rightarrow> (case s_key opts of None \<Rightarrow> Some (Inr (1, [], b))
         | Some key \<Rightarrow>
             if s_mode opts = HOSTIF_SET \<and> s_value opts = None then Some (Inr (1, [], b))
             else case initilize B b of None \<Rightarrow> None
               | Some b1 \<Rightarrow> Some (rbind
                   (case s_mode opts of
                      HOSTIF_GET \<Rightarrow> trset_getAttribute B key b1
                    | HOSTIF_SET \<Rightarrow> (case s_value opts of None \<Rightarrow> Inr (1, [], b1)
                        | Some v \<Rightarrow> trset_setAttribute B key (CHR ''u'') v b1))
                   (\<lambda>(rc, out, b2). Inr (rc, out, bus_term B b2)))))"

text \<open>The tool built without \<open>USE_TR69HOSTIF\<close>.\<close>

definition trsetutil_disabled :: int where "trsetutil_disabled = 0"

section \<open>The loops\<close>

interpretation trset_args: arg_words trset_step "\<lambda>a. is_opt a ''-v''" "\<lambda>_. False"
  by unfold_locales (auto simp: trset_step_def Let_def dest: opt_clash)

text \<open>The state before round \<open>n\<close> while no round connects.\<close>

definition after_rounds :: "'b bus \<Rightarrow> nat \<Rightarrow> 'b \<Rightarrow> 'b" where
  "after_rounds B n = (fst \<circ> connect_round B) ^^ n"

lemma initilize_connects:
  "snd (connect_round B (after_rounds B n b)) \<Longrightarrow> \<exists>b'. initilize B b = Some b'"
proof (induction n arbitrary: b)
  case 0
  then show ?case by (subst initilize.simps) (auto simp: after_rounds_def split: prod.splits)
next
  case (Suc n)
  obtain b1 ok where r: "connect_round B b = (b1, ok)" by fastforce
  then have "after_rounds B (Suc n) b = after_rounds B n b1"
    by (simp add: after_rounds_def funpow_swap1)
  with Suc obtain b' where "initilize B b1 = Some b'" by auto
  with r show ?case by (subst initilize.simps) auto
qed

lemma initilize_only_connected:
  "initilize B b = Some b' \<Longrightarrow> \<exists>n. snd (connect_round B (after_rounds B n b)) \<and>
     b' = fst (connect_round B (after_rounds B n b))"
proof (rule initilize.raw_induct [of "\<lambda>B b b'. \<exists>n. snd (connect_round B (after_rounds B n b)) \<and>
     b' = fst (connect_round B (after_rounds B n b))"], goal_cases)
  case (1 f B b b')
  obtain b1 ok where r: "connect_round B b = (b1, ok)" by fastforce
  show ?case
  proof (cases ok)
    case True
    with 1(3) r show ?thesis by (intro exI [of _ 0]) (simp add: after_rounds_def)
  next
    case False
    with 1(3) r have "f B b1 = Some b'" by simp
    from 1(2) [OF this] obtain n where n: "snd (connect_round B (after_rounds B n b1))"
      "b' = fst (connect_round B (after_rounds B n b1))" by blast
    have "after_rounds B (Suc n) b = after_rounds B n b1"
      using r by (simp add: after_rounds_def funpow_swap1)
    with n show ?thesis by (intro exI [of _ "Suc n"]) simp
  qed
qed

section \<open>Stored numbers\<close>

lemma le_bytes_length [simp]: "length (le_bytes n x) = n"
  by (induction n arbitrary: x) auto

lemma le_val_bytes: "le_val n (le_bytes n x @ r) = x mod 256 ^ n"
proof (induction n arbitrary: x)
  case (Suc n)
  have "(of_char (char_of (x mod 256)) :: int) = x mod 256" by simp
  then show ?case using Suc zmod_zmult2_eq [of "256 ^ n" x 256] by simp
qed simp

lemma le_val_put: "le_val n (put_bytes (le_bytes n x) old) = x mod 256 ^ n"
  by (simp add: put_bytes_def le_val_bytes)

lemma signed_mod: "signed_take_bit n (x mod 2 ^ Suc n) = signed_take_bit n (x :: int)"
  using signed_take_bit_take_bit [of n "Suc n" x] by (simp add: take_bit_eq_mod)

lemma int_str_no_NUL: "NUL \<notin> set (int_str i)"
  using nat_str_digits [of NUL] by (auto simp: int_str_def isdigit_def)

lemma atol_int_str: "- (2 ^ 63) \<le> i \<Longrightarrow> i < 2 ^ 63 \<Longrightarrow> atol (int_str i) = i"
  by (simp add: atol_def strtol10_int_str int_str_no_NUL)

text \<open>A stored number, read as an unsigned one modulo the width it is stored in.\<close>

lemma print_stored_int:
  "paramtype m = hostIf_IntegerType \<or> paramtype m = hostIf_UnsignedIntType \<Longrightarrow>
     printParameterDetails (convertParamValues B m v) = Inr (int_str (atoi v) @ [NL])"
  using signed_mod [of 31 "atoi v"]
  by (auto simp: convertParamValues_def printParameterDetails_def le_val_put atoi_def)

lemma print_stored_long:
  "paramtype m = hostIf_UnsignedLongType \<Longrightarrow>
     printParameterDetails (convertParamValues B m v) = Inr (int_str (signed_take_bit 63 (atol v)) @ [NL])"
  using signed_mod [of 63 "atol v"]
  by (auto simp: convertParamValues_def printParameterDetails_def le_val_put)

section \<open>Properties\<close>

text \<open>The argument loop fails to return exactly when \<open>-v\<close>, read as an option, is the last argument.\<close>

lemma trset_parse_hangs:
  "trset_parseargs argv opts = None \<longleftrightarrow> dangling (\<lambda>a. is_opt a ''-v'') (\<lambda>_. False) (tl argv)"
  by (simp add: trset_parseargs_def trset_args.hangs_iff drop_Suc)

text \<open>Connecting to the bus returns exactly when some round initialises and connects it.\<close>

lemma connecting_returns:
  "(\<exists>b'. initilize B b = Some b') \<longleftrightarrow> (\<exists>n. snd (connect_round B (after_rounds B n b)))"
  by (meson initilize_connects initilize_only_connected)

text \<open>C23: a number given on the command line is printed back as its low 32 bits, read as a signed
  number, whether the parameter is signed or not: an unsigned value of \<open>2 ^ 31\<close> or more comes back
  negative.  The type long keeps all 64 bits.\<close>

theorem stored_number_printed:
  assumes "- (2 ^ 63) \<le> i" "i < 2 ^ 63"
  shows "printParameterDetails (convertParamValues B (m\<lparr>paramtype := hostIf_IntegerType\<rparr>) (int_str i)) =
      Inr (int_str (signed_take_bit 31 i) @ [NL]) \<and>
    printParameterDetails (convertParamValues B (m\<lparr>paramtype := hostIf_UnsignedIntType\<rparr>) (int_str i)) =
      Inr (int_str (signed_take_bit 31 i) @ [NL]) \<and>
    printParameterDetails (convertParamValues B (m\<lparr>paramtype := hostIf_UnsignedLongType\<rparr>) (int_str i)) =
      Inr (int_str i @ [NL])"
  using assms
  by (simp add: print_stored_int print_stored_long atoi_def atol_int_str signed_take_bit_int_eq_self)

text \<open>A bus that is always there and echoes the message.\<close>

definition zero_hostif :: HOSTIF_MsgData where
  "zero_hostif = \<lparr>paramName = [], paramValue = replicate 16 NUL, paramtype = hostIf_StringType,
     reqType = HOSTIF_GET, msg_fault = fcNoFault\<rparr>"

definition echo_bus :: "unit bus" where
  "echo_bus = \<lparr>msg_len = 16, zero_msg = zero_hostif, IARM_Bus_Init = (\<lambda>b. (b, True)),
     IARM_Bus_Connect = (\<lambda>b. (b, True)), IARM_Bus_Term = id, IARM_Bus_Disconnect = id,
     bus_sleep = (\<lambda>_. id), IARM_Bus_Call = (\<lambda>_ m b. (b, True, m))\<rparr>"

theorem stored_number_printed_witness:
  "printParameterDetails (convertParamValues echo_bus (zero_hostif\<lparr>paramtype := hostIf_UnsignedIntType\<rparr>) (int_str 3000000000)) =
     Inr (int_str (- 1294967296) @ [NL])"
proof -
  have "signed_take_bit 31 (3000000000 :: int) = - 1294967296" by (simp add: signed_take_bit_int_eq_self_iff signed_take_bit_eq_take_bit_shift take_bit_eq_mod)
  then show ?thesis using stored_number_printed [of 3000000000 echo_bus zero_hostif] by simp
qed

end
