(* ===== verification/Tr181_Utils.thy ===== *)
theory Tr181_Utils
  imports Tr181_Api Trset_Utils
begin

text \<open>
  utils/tr181utils.cpp: the command line tool over rfcapi and tr181api.  A run parses its
  arguments, reads, sets or clears one parameter, in the local store when the caller id starts
  with \<open>localOnly\<close> and through the service otherwise, and writes a value it read to the saved error
  stream.  Shown here: when the argument loop returns, that a value set in the local store is what
  a later run prints, and with which type a value is set while the service is not up.
\<close>

section \<open>Options\<close>

datatype REQ_TYPE = GET | SET | DELETE_ROW

record tr181_opts =
  value_type :: char
  opt_value :: "string option"
  opt_key :: "string option"
  opt_id :: "string option"
  opt_mode :: REQ_TYPE
  silent :: bool

definition tr181_opts0 :: tr181_opts where
  "tr181_opts0 = \<lparr>value_type = CHR ''u'', opt_value = None, opt_key = None, opt_id = None,
     opt_mode = GET, silent = True\<rparr>"

text \<open>The first character of an argument; \<open>argv[argc]\<close> is a null pointer.\<close>

definition first_char :: "string \<Rightarrow> char" where
  "first_char a = (if a = [] then NUL else hd a)"

definition argv_at :: "string list \<Rightarrow> nat \<Rightarrow> string option" where
  "argv_at argv i = (if i < length argv then Some (argv ! i) else None)"

definition tr181_step :: "string list \<Rightarrow> nat \<Rightarrow> tr181_opts \<Rightarrow> nat \<times> tr181_opts" where
  "tr181_step argv i opts = (let a = argv ! i in
     if is_opt a ''-s'' then (i + 1, opts\<lparr>opt_mode := SET\<rparr>)
     else if is_opt a ''-c'' then (i + 1, opts\<lparr>opt_mode := DELETE_ROW\<rparr>)
     else if is_opt a ''-t'' then
       (if i + 1 < length argv then (i + 2, opts\<lparr>value_type := first_char (argv ! (i + 1))\<rparr>) else (i, opts))
     else if is_opt a ''-v'' then
       (if i + 1 < length argv then (i + 2, opts\<lparr>opt_value := Some (argv ! (i + 1))\<rparr>) else (i, opts))
     else if not_dash a then (i + 1, opts\<lparr>opt_key := Some a\<rparr>)
     else if is_opt a ''-d'' then (i + 1, opts\<lparr>silent := False\<rparr>)
     else if is_opt a ''-n'' then (i + 2, opts\<lparr>opt_id := argv_at argv (i + 1)\<rparr>)
     else (i + 1, opts))"

definition parseargs :: "string list \<Rightarrow> tr181_opts \<Rightarrow> tr181_opts option" where
  "parseargs argv opts = arg_loop tr181_step argv 1 opts"

section \<open>Operations\<close>

text \<open>The writes to the saved stream; \<open>saved\<close> tells whether the stream could be saved.\<close>

definition write_value_line :: "bool \<Rightarrow> string \<Rightarrow> string list" where
  "write_value_line saved s =
     (if \<not> saved then [] else if length (cstr s) + 1 < 4096 then [cstr s @ [NL]] else [cstr s, [NL]])"

definition LEGACY_FILE :: string where
  [path_defs]: "LEGACY_FILE = ''/opt/RFC/.RFC_LegacyRFCEnabled.ini''"

definition legacyRfcEnabled :: "('e, 'z) world_scheme \<Rightarrow> bool" where
  "legacyRfcEnabled w \<longleftrightarrow> file_present LEGACY_FILE w"

definition getParamType ::
    "'e sys \<Rightarrow> string \<Rightarrow> ('e, 'z) world_scheme \<Rightarrow> (data_type option \<times> ('e, 'z) world_scheme) res" where
  "getParamType S pname w = rbind (getRFCParameter S None pname (param0\<lparr>prm_type := WDMP_NONE\<rparr>) w)
     (\<lambda>(_, p, w'). Inr (if prm_type p \<noteq> WDMP_NONE then Some (prm_type p) else None, w'))"

definition convertType :: "char \<Rightarrow> data_type" where
  "convertType t =
     (if t = CHR ''s'' then WDMP_STRING else if t = CHR ''i'' then WDMP_INT
      else if t = CHR ''b'' then WDMP_BOOLEAN else WDMP_INT)"

definition local_only :: "string option \<Rightarrow> bool" where
  "local_only ident \<longleftrightarrow> (case ident of None \<Rightarrow> False | Some i \<Rightarrow> strncmp_eq i ''localOnly'' 9)"

fun tr181_code :: "tr181_error \<Rightarrow> int" where
  "tr181_code tr181Success = 0" | "tr181_code tr181Failure = 1" | "tr181_code tr181Timeout = 2"
| "tr181_code tr181InvalidParameterName = 3" | "tr181_code tr181InvalidParameterValue = 4"
| "tr181_code tr181InvalidType = 5" | "tr181_code tr181NotWritable = 6" | "tr181_code tr181ValueIsEmpty = 7"
| "tr181_code tr181ValueIsNull = 8" | "tr181_code tr181InternalError = 9" | "tr181_code tr181DefaultValue = 10"

text \<open>\<open>junk\<close> and \<open>tjunk\<close> are the uninitialised local records.\<close>

definition getAttribute ::
    "'e sys \<Rightarrow> bool \<Rightarrow> RFC_ParamData \<Rightarrow> TR181_ParamData \<Rightarrow> string option \<Rightarrow> string \<Rightarrow> ('e, 'z) world_scheme
       \<Rightarrow> (int \<times> string list \<times> ('e, 'z) world_scheme) res" where
  "getAttribute S saved junk tjunk ident pname w =
     (if local_only ident
      then (case getLocalParam S ident pname tjunk w of (st, p) \<Rightarrow>
              Inr (tr181_code st, if st = tr181Success then write_value_line saved (t_value p) else [], w))
      else rbind (getRFCParameter S ident pname junk w) (\<lambda>(st, p, w').
             Inr (st, if st = WDMP_SUCCESS \<or> st = WDMP_ERR_DEFAULT_VALUE
                      then write_value_line saved (prm_value p) else [], w')))"

definition setAttribute ::
    "'e sys \<Rightarrow> string option \<Rightarrow> string \<Rightarrow> char \<Rightarrow> string \<Rightarrow> ('e, 'z) world_scheme
       \<Rightarrow> (int \<times> ('e, 'z) world_scheme) res" where
  "setAttribute S ident pname type v w =
     (if local_only ident
      then rbind (setLocalParam S ident pname v w) (\<lambda>(st, w'). Inr (tr181_code st, w'))
      else rbind (getParamType S pname w) (\<lambda>(t, w1).
             setRFCParameter S ident pname (Some v) (case t of Some ty \<Rightarrow> ty | None \<Rightarrow> convertType type) w1))"

definition clearAttribute ::
    "'e sys \<Rightarrow> string option \<Rightarrow> string \<Rightarrow> ('e, 'z) world_scheme \<Rightarrow> (int \<times> ('e, 'z) world_scheme) res" where
  "clearAttribute S ident pname w =
     rbind (clearParam S ident (Some pname) w) (\<lambda>(st, w'). Inr (tr181_code st, w'))"

text \<open>One run: the exit status, what is written to the error stream, the world and the bus.  The
  outer \<open>None\<close> is a run that does not end.\<close>

definition run_mode ::
    "'e sys \<Rightarrow> bool \<Rightarrow> RFC_ParamData \<Rightarrow> TR181_ParamData \<Rightarrow> tr181_opts \<Rightarrow> string \<Rightarrow> ('e, 'z) world_scheme
       \<Rightarrow> (int \<times> string list \<times> ('e, 'z) world_scheme) res" where
  "run_mode S saved junk tjunk opts key w = (case opt_mode opts of
       GET \<Rightarrow> getAttribute S saved junk tjunk (opt_id opts) key w
     | DELETE_ROW \<Rightarrow> rbind (clearAttribute S (opt_id opts) key w) (\<lambda>(rc, w'). Inr (rc, [], w'))
     | SET \<Rightarrow> (case opt_value opts of None \<Rightarrow> Inr (1, [], w)
         | Some v \<Rightarrow> rbind (setAttribute S (opt_id opts) key (value_type opts) v w)
             (\<lambda>(rc, w'). Inr (rc, [], w'))))"

definition tr181_main ::
    "'e sys \<Rightarrow> 'b bus \<Rightarrow> bool \<Rightarrow> RFC_ParamData \<Rightarrow> TR181_ParamData \<Rightarrow> string list \<Rightarrow> ('e, 'z) world_scheme \<Rightarrow> 'b
       \<Rightarrow> (int \<times> string list \<times> ('e, 'z) world_scheme \<times> 'b) res option" where
  "tr181_main S B saved junk tjunk argv w b =
     (if legacyRfcEnabled w
      then map_option (\<lambda>r. rbind r (\<lambda>(rc, out, b'). Inr (rc, [out], w, b'))) (trsetutil B argv b)
      else case parseargs argv tr181_opts0 of None \<Rightarrow> None
        | Some opts \<Rightarrow> Some (case opt_key opts of None \<Rightarrow> Inr (1, [], w, b)
            | Some key \<Rightarrow> if opt_mode opts = SET \<and> opt_value opts = None then Inr (1, [], w, b)
                else rbind (run_mode S saved junk tjunk opts key w) (\<lambda>(rc, out, w'). Inr (rc, out, w', b))))"

section \<open>The argument loop\<close>

definition waits_for_value :: "string \<Rightarrow> bool" where
  "waits_for_value a \<longleftrightarrow> is_opt a ''-t'' \<or> is_opt a ''-v''"

interpretation tr181_args: arg_words tr181_step waits_for_value "\<lambda>a. is_opt a ''-n''"
  by unfold_locales (auto simp: tr181_step_def waits_for_value_def Let_def dest: opt_clash is_opt_dash)

section \<open>A set and a get in the local store\<close>

lemma setValue_other_files:
  "setValue S key v w = Inr (st, w') \<Longrightarrow> q \<noteq> TR181_LOCAL_STORE_FILE \<Longrightarrow> files w' q = files w q"
  by (auto simp: setValue_def write_back_def Let_def write_dict_def split: if_splits)

lemma setLocalParam_legacy:
  "setLocalParam S ident key v w = Inr (st, w') \<Longrightarrow> legacyRfcEnabled w' = legacyRfcEnabled w"
  using setValue_other_files [of S key v w st w' LEGACY_FILE]
  by (auto simp: setLocalParam_def legacyRfcEnabled_def file_present_def path_defs split: if_splits)

text \<open>Reading the arguments of the two command lines.\<close>

text \<open>The states a run of the loop passes through.\<close>

fun arg_trace :: "string list \<Rightarrow> nat \<Rightarrow> tr181_opts \<Rightarrow> (nat \<times> tr181_opts) list \<Rightarrow> bool" where
  "arg_trace argv i opts [] \<longleftrightarrow> length argv \<le> i"
| "arg_trace argv i opts ((j, opts') # tr) \<longleftrightarrow>
     i < length argv \<and> tr181_step argv i opts = (j, opts') \<and> arg_trace argv j opts' tr"

lemma arg_trace_loop:
  "arg_trace argv i opts tr \<Longrightarrow> arg_loop tr181_step argv i opts = Some (if tr = [] then opts else snd (last tr))"
  by (induction tr arbitrary: i opts) (auto simp: tr181_args.loop_end tr181_args.loop_next)

lemma plain_not_opt: "not_dash a \<Longrightarrow> \<not> is_opt a [CHR ''-'', c]"
  using is_opt_dash by blast

lemmas opt_eval = tr181_step_def Let_def is_opt_def strncasecmp_eq_def not_dash_def argv_at_def
  tolower_def isupper_def cstr_def

lemma parse_set:
  "not_dash key \<Longrightarrow> parseargs [exe, ''-s'', ''-n'', ident, ''-v'', v, key] tr181_opts0 =
     Some (tr181_opts0\<lparr>opt_mode := SET, opt_id := Some ident, opt_value := Some v, opt_key := Some key\<rparr>)"
proof -
  assume key: "not_dash key"
  let ?argv = "[exe, ''-s'', ''-n'', ident, ''-v'', v, key]"
  let ?o1 = "tr181_opts0\<lparr>opt_mode := SET\<rparr>" let ?o2 = "?o1\<lparr>opt_id := Some ident\<rparr>"
  let ?o3 = "?o2\<lparr>opt_value := Some v\<rparr>" let ?o4 = "?o3\<lparr>opt_key := Some key\<rparr>"
  have "tr181_step ?argv 1 tr181_opts0 = (2, ?o1)" "tr181_step ?argv 2 ?o1 = (4, ?o2)"
      "tr181_step ?argv 4 ?o2 = (6, ?o3)"
    by (simp_all add: opt_eval)
  moreover have "tr181_step ?argv 6 ?o3 = (7, ?o4)"
    using key plain_not_opt [OF key] by (simp add: tr181_step_def Let_def)
  ultimately have "arg_trace ?argv 1 tr181_opts0 [(2, ?o1), (4, ?o2), (6, ?o3), (7, ?o4)]" by simp
  from arg_trace_loop [OF this] show ?thesis by (simp add: parseargs_def)
qed

lemma parse_get:
  "not_dash key \<Longrightarrow> parseargs [exe, ''-n'', ident, key] tr181_opts0 =
     Some (tr181_opts0\<lparr>opt_id := Some ident, opt_key := Some key\<rparr>)"
proof -
  assume key: "not_dash key"
  let ?argv = "[exe, ''-n'', ident, key]" let ?o1 = "tr181_opts0\<lparr>opt_id := Some ident\<rparr>"
  have "tr181_step ?argv 1 tr181_opts0 = (3, ?o1)" by (simp add: opt_eval)
  moreover have "tr181_step ?argv 3 ?o1 = (4, ?o1\<lparr>opt_key := Some key\<rparr>)"
    using key plain_not_opt [OF key] by (simp add: tr181_step_def Let_def)
  ultimately have "arg_trace ?argv 1 tr181_opts0 [(3, ?o1), (4, ?o1\<lparr>opt_key := Some key\<rparr>)]" by simp
  from arg_trace_loop [OF this] show ?thesis by (simp add: parseargs_def)
qed

section \<open>The type of a set while the service is down\<close>

lemma getParamType_down:
  assumes "pname \<noteq> []" "\<not> http_ready w" "\<not> file_present HTTP_READY_FILE w" "files w RFCDEFAULTS_FILE \<noteq> None"
  shows "getParamType S pname w = Inr (None, w)"
  using assms
  by (auto simp: getParamType_def getRFCParameter_def get_from_files_value fill_param_def split: option.splits)

section \<open>Properties\<close>

text \<open>C21: the argument loop fails to return exactly when \<open>-v\<close> or \<open>-t\<close>, read as an option, is the last
  argument.\<close>

theorem tr181_parse_hangs:
  "parseargs argv opts = None \<longleftrightarrow> dangling waits_for_value (\<lambda>a. is_opt a ''-n'') (tl argv)"
  by (simp add: parseargs_def tr181_args.hangs_iff drop_Suc)

text \<open>C7: a value set in the local store by one run of the tool is what the next run prints, on one
  line of its own, and both runs succeed.\<close>

theorem tr181_set_then_get:
  assumes "iter_ok S" "store_text w" "entry_ok (key, v)" "key \<noteq> TR181_CLEAR_PARAM"
    "v \<noteq> []" "length v < MAX_PARAM_LEN" "fopen_w S (env w) TR181_LOCAL_STORE_FILE" "sem_open_ok S (env w)"
    "local_only (Some ident)" "not_dash key" "\<not> legacyRfcEnabled w"
  shows "\<exists>w'. tr181_main S B True junk tjunk [exe, ''-s'', ''-n'', ident, ''-v'', v, key] w b = Some (Inr (0, [], w', b)) \<and>
     tr181_main S B True junk tjunk [exe, ''-n'', ident, key] w' b = Some (Inr (0, [v @ [NL]], w', b))"
proof -
  from set_get_value [OF assms(1-8), of "Some ident" tjunk] obtain w' where w':
    "setLocalParam S (Some ident) key v w = Inr (tr181Success, w')"
    "getLocalParam S (Some ident) key tjunk w' = (tr181Success, tjunk\<lparr>t_type := TR181_NONE, t_value := v\<rparr>)"
    by blast
  have "legacyRfcEnabled w' = legacyRfcEnabled w" using setLocalParam_legacy [OF w'(1)] .
  moreover have "write_value_line True v = [v @ [NL]]"
    using assms(3,6) by (simp add: write_value_line_def entry_ok_def MAX_PARAM_LEN_def)
  ultimately show ?thesis using w' assms(9,11) parse_set [OF assms(10)] parse_get [OF assms(10)]
    by (intro exI [of _ w']) (simp add: tr181_main_def run_mode_def setAttribute_def getAttribute_def tr181_opts0_def)
qed

theorem tr181_set_then_get_witness:
  "\<exists>w'. tr181_main ref_stb echo_bus True param0 \<lparr>t_value = [], t_type = TR181_INT\<rparr>
       [''tr181'', ''-s'', ''-n'', ''localOnly'', ''-v'', ''-1'', ''a.b''] ref_world () = Some (Inr (0, [], w', ())) \<and>
     tr181_main ref_stb echo_bus True param0 \<lparr>t_value = [], t_type = TR181_INT\<rparr>
       [''tr181'', ''-n'', ''localOnly'', ''a.b''] w' () = Some (Inr (0, [''-1'' @ [NL]], w', ()))"
proof -
  have "files ref_world LEGACY_FILE = None" by (simp add: ref_world_def)
  then show ?thesis
    by (intro tr181_set_then_get) (simp_all add: entry_ok_def key_ok_def TR181_CLEAR_PARAM_def MAX_PARAM_LEN_def local_only_def strncmp_eq_def
      not_dash_def legacyRfcEnabled_def file_present_def)
qed

text \<open>C22: while the service is not up the files give no type, so a value is sent with the type named
  on the command line, and as an integer when none is named.\<close>

theorem set_type_while_down:
  assumes "pname \<noteq> []" "\<not> http_ready w" "\<not> file_present HTTP_READY_FILE w" "files w RFCDEFAULTS_FILE \<noteq> None"
    "\<not> local_only ident"
  shows "setAttribute S ident pname t v w = setRFCParameter S ident pname (Some v)
     (if t = CHR ''s'' then WDMP_STRING else if t = CHR ''b'' then WDMP_BOOLEAN else WDMP_INT) w"
  using assms(5) getParamType_down [OF assms(1-4), of S] by (auto simp: setAttribute_def convertType_def)

theorem set_type_while_down_witness:
  "setAttribute ref_stb None ''a.b'' (CHR ''u'') ''text'' (ref_world\<lparr>files := [RFCDEFAULTS_FILE \<mapsto> []]\<rparr>) =
     setRFCParameter ref_stb None ''a.b'' (Some ''text'') WDMP_INT (ref_world\<lparr>files := [RFCDEFAULTS_FILE \<mapsto> []]\<rparr>)"
  using set_type_while_down [of "''a.b''" "ref_world\<lparr>files := [RFCDEFAULTS_FILE \<mapsto> []]\<rparr>" None ref_stb "CHR ''u''" "''text''"]
  by (simp add: ref_world_def file_present_def path_defs local_only_def)

end
