(* ===== verification/Json_Handler.thy ===== *)
theory Json_Handler
  imports Rfc_Json
begin

text \<open>
  utils/jsonhandler.cpp: the utility that saves the lists of a feature answer, one file per feature
  that declares a \<open>listType\<close>.  A cJSON node knows its later siblings (\<open>next\<close>), so a node is
  modelled as the list that starts with it.  Shown here: for features whose list is their own every
  list is saved under its name, one item per line, and counted; the file name format is never
  truncated; a declared list that is missing is filled from a later feature; and the text handed to
  the parser is read past the end of its buffer.
\<close>

section \<open>Reading the answer\<close>

definition JSON_ARRAY_IDENTIFIER :: string where "JSON_ARRAY_IDENTIFIER = ''listType''"
definition JSON_NAME_IDENTIFIER :: string where "JSON_NAME_IDENTIFIER = ''name''"
definition JSON_FEATURE_CONTROL_IDENTIFIER :: string where
  "JSON_FEATURE_CONTROL_IDENTIFIER = ''featureControl''"
definition JSON_FEATURES_IDENTIFIER :: string where "JSON_FEATURES_IDENTIFIER = ''features''"

text \<open>The buffer holds the bytes of the file and nothing after them.\<close>

definition readFromFile :: "string \<Rightarrow> ('e, 'z) world_scheme \<Rightarrow> string option" where
  "readFromFile absolutePath w = files w absolutePath"

text \<open>The buffer read as a C string: without a NUL among its bytes the read leaves the buffer.\<close>

definition buffer_text :: "string \<Rightarrow> string res" where
  "buffer_text b = (if NUL \<in> set b then Inr (cstr b) else Inl OutOfBounds)"

definition isNodeArrayType :: "json option \<Rightarrow> bool" where
  "isNodeArrayType item = (case item of None \<Rightarrow> False | Some j \<Rightarrow> json_is_array j)"

text \<open>The nodes of a child list, in order.\<close>

definition json_kids :: "json \<Rightarrow> json list" where
  "json_kids j = map snd (json_children j)"

lemma json_kids_size: "\<not> json_is_array n \<Longrightarrow> size_list size (json_kids n) \<le> size n"
proof (cases n)
  case (JObject kvs)
  have "size_list size (map (snd \<circ> (\<lambda>(k, v). (Some k, v))) kvs) \<le> size_list (size_prod (\<lambda>_. 0) size) kvs"
    for kvs :: "(string \<times> json) list"
    by (induction kvs) auto
  then show ?thesis by (simp add: JObject json_kids_def le_Suc_eq)
qed (auto simp: json_kids_def)

function getArrayNode :: "json list \<Rightarrow> json option" where
  "getArrayNode [] = None"
| "getArrayNode (node # next) =
     (if isNodeArrayType (Some node) then Some node
      else case getArrayNode (json_kids node) of
             Some childNode \<Rightarrow> Some childNode
           | None \<Rightarrow> getArrayNode next)"
  by pat_completeness auto
termination
  by (relation "measure (size_list size)") (auto simp: isNodeArrayType_def dest!: json_kids_size)

section \<open>Saving a list\<close>

text \<open>\<open>printf\<close> of a format with one string argument; what needs a second argument or any other
  conversion is undefined.\<close>

fun format_rest :: "string \<Rightarrow> string res" where
  "format_rest [] = Inr []"
| "format_rest (c # f) =
     (if c = CHR ''%'' then (case f of d # g \<Rightarrow>
          if d = CHR ''%'' then rbind (format_rest g) (\<lambda>t. Inr (CHR ''%'' # t)) else Inl OutOfBounds
        | [] \<Rightarrow> Inl OutOfBounds)
      else rbind (format_rest f) (\<lambda>t. Inr (c # t)))"

fun format_name :: "string \<Rightarrow> string \<Rightarrow> string res" where
  "format_name [] name = Inr []"
| "format_name (c # f) name =
     (if c = CHR ''%'' then (case f of d # g \<Rightarrow>
          if d = CHR ''s'' then rbind (format_rest g) (\<lambda>t. Inr (cstr name @ t))
          else if d = CHR ''%'' then rbind (format_name g name) (\<lambda>t. Inr (CHR ''%'' # t))
          else Inl OutOfBounds
        | [] \<Rightarrow> Inl OutOfBounds)
      else rbind (format_name f name) (\<lambda>t. Inr (c # t)))"

text \<open>The lines of the items \<open>is\<close>; an item that is not a string has no \<open>valuestring\<close>.\<close>

fun item_lines :: "'e sys \<Rightarrow> json \<Rightarrow> nat list \<Rightarrow> string res" where
  "item_lines S arrayNode [] = Inr []"
| "item_lines S arrayNode (i # is) = (case cJSON_GetArrayItem S arrayNode i of
       None \<Rightarrow> Inl NullDereference
     | Some aItem \<Rightarrow> (case json_valuestring aItem of
           None \<Rightarrow> Inl NullDereference
         | Some v \<Rightarrow> rbind (item_lines S arrayNode is) (\<lambda>t. Inr (cstr v @ NL # t))))"

text \<open>When the file cannot be opened the status is still the length of its name.\<close>

definition saveToFile ::
    "'e sys \<Rightarrow> json \<Rightarrow> string \<Rightarrow> string option \<Rightarrow> ('e, 'z) world_scheme \<Rightarrow> (nat \<times> ('e, 'z) world_scheme) res" where
  "saveToFile S arrayNode format name w = (case name of None \<Rightarrow> Inl NullDereference
     | Some n \<Rightarrow> rbind (format_name format n) (\<lambda>full.
         if full = [] then Inr (0, w)
         else let fileName = buf_copy 255 full in
           if fopen_w S (env w) fileName
           then rbind (item_lines S arrayNode [0..<cJSON_GetArraySize S arrayNode])
                  (\<lambda>t. Inr (1, write_file S fileName t w))
           else Inr (length full, w)))"

definition saveIfNodeContainsLists ::
    "'e sys \<Rightarrow> json list \<Rightarrow> string \<Rightarrow> ('e, 'z) world_scheme \<Rightarrow> (nat \<times> ('e, 'z) world_scheme) res" where
  "saveIfNodeContainsLists S nodes absolutepath w = (case nodes of [] \<Rightarrow> Inr (0, w)
     | node # next \<Rightarrow>
         if cJSON_GetObjectItem S node JSON_ARRAY_IDENTIFIER = None then Inr (0, w)
         else case cJSON_GetObjectItem S node JSON_NAME_IDENTIFIER of
             None \<Rightarrow> Inr (0, w)
           | Some name \<Rightarrow> (case getArrayNode (node # next) of
                 None \<Rightarrow> Inr (0, w)
               | Some childNode \<Rightarrow> saveToFile S childNode absolutepath (json_valuestring name) w))"

text \<open>The loop over the child list of \<open>features\<close>.\<close>

fun save_nodes ::
    "'e sys \<Rightarrow> string \<Rightarrow> json list \<Rightarrow> nat \<Rightarrow> ('e, 'z) world_scheme \<Rightarrow> (nat \<times> ('e, 'z) world_scheme) res" where
  "save_nodes S absolutePath [] count w = Inr (count, w)"
| "save_nodes S absolutePath (node # next) count w =
     rbind (saveIfNodeContainsLists S (node # next) absolutePath w)
       (\<lambda>(result, w'). save_nodes S absolutePath next (if result = 1 then count + 1 else count) w')"

definition iterateAndSaveArrayNodes ::
    "'e sys \<Rightarrow> string \<Rightarrow> string \<Rightarrow> ('e, 'z) world_scheme \<Rightarrow> (nat \<times> ('e, 'z) world_scheme) res" where
  "iterateAndSaveArrayNodes S absolutePath json_data w = (case cJSON_Parse S json_data of
       None \<Rightarrow> Inr (0, w)
     | Some root \<Rightarrow> (case cJSON_GetObjectItem S root JSON_FEATURE_CONTROL_IDENTIFIER of
           None \<Rightarrow> Inr (0, w)
         | Some fc \<Rightarrow> (case cJSON_GetObjectItem S fc JSON_FEATURES_IDENTIFIER of
               None \<Rightarrow> Inr (0, w)
             | Some head \<Rightarrow> save_nodes S absolutePath (json_kids head) 0 w)))"

section \<open>The file name format\<close>

definition env_or :: "(string \<Rightarrow> string option) \<Rightarrow> string \<Rightarrow> string \<Rightarrow> string" where
  "env_or getenv k d = (case getenv k of None \<Rightarrow> d | Some v \<Rightarrow> cstr v)"

definition root_path :: "(string \<Rightarrow> string option) \<Rightarrow> string" where
  "root_path getenv = env_or getenv ''RFC_PATH'' ''/opt/secure/RFC''"
definition filename_prefix :: "(string \<Rightarrow> string option) \<Rightarrow> string" where
  "filename_prefix getenv = env_or getenv ''RFC_LIST_FILE_NAME_PREFIX'' ''.RFC_LIST_''"
definition filename_suffix :: "(string \<Rightarrow> string option) \<Rightarrow> string" where
  "filename_suffix getenv = env_or getenv ''RFC_LIST_FILE_NAME_SUFFIX'' ''.ini''"

definition getFilePath :: "(string \<Rightarrow> string option) \<Rightarrow> string" where
  "getFilePath getenv =
     (let path_size = length (root_path getenv) + length (filename_prefix getenv) +
                      length (filename_suffix getenv) + 4
      in buf_copy path_size
           (root_path getenv @ ''/'' @ filename_prefix getenv @ ''%s'' @ filename_suffix getenv))"

text \<open>\<open>main\<close>: the exit status and the number of lists saved.\<close>

definition jsonhandler_main ::
    "'e sys \<Rightarrow> (string \<Rightarrow> string option) \<Rightarrow> string list \<Rightarrow> ('e, 'z) world_scheme
       \<Rightarrow> (int \<times> nat \<times> ('e, 'z) world_scheme) res" where
  "jsonhandler_main S getenv argv w =
     (if length argv \<noteq> 2 then Inr (1, 0, w)
      else case readFromFile (argv ! 1) w of
        None \<Rightarrow> Inr (0, 0, w)
      | Some b \<Rightarrow> rbind (buffer_text b) (\<lambda>json_string.
          rbind (iterateAndSaveArrayNodes S (getFilePath getenv) json_string w)
            (\<lambda>(count, w'). Inr (0, count, w'))))"

section \<open>File names\<close>

lemma env_or_no_NUL [simp]: "NUL \<notin> set d \<Longrightarrow> NUL \<notin> set (env_or getenv k d)"
  by (simp add: env_or_def split: option.splits)

lemma path_parts_no_NUL [simp]:
  "NUL \<notin> set (root_path g)" "NUL \<notin> set (filename_prefix g)" "NUL \<notin> set (filename_suffix g)"
  by (simp_all add: root_path_def filename_prefix_def filename_suffix_def)

lemma getFilePath_whole:
  "getFilePath g = root_path g @ ''/'' @ filename_prefix g @ ''%s'' @ filename_suffix g"
  unfolding getFilePath_def Let_def by (rule buf_copy_fits) auto

lemma format_rest_plain: "CHR ''%'' \<notin> set f \<Longrightarrow> format_rest f = Inr f"
  by (induction f) auto

lemma format_name_plain:
  "CHR ''%'' \<notin> set f \<Longrightarrow> format_name (f @ g) name = rbind (format_name g name) (\<lambda>t. Inr (f @ t))"
proof (induction f)
  case Nil
  show ?case by (cases "format_name g name") auto
next
  case (Cons c f)
  then show ?case by (cases "format_name g name") auto
qed

definition list_file :: "(string \<Rightarrow> string option) \<Rightarrow> string \<Rightarrow> string" where
  "list_file g name = root_path g @ ''/'' @ filename_prefix g @ cstr name @ filename_suffix g"

definition plain_env :: "(string \<Rightarrow> string option) \<Rightarrow> bool" where
  "plain_env g \<longleftrightarrow> CHR ''%'' \<notin> set (root_path g @ filename_prefix g @ filename_suffix g)"

lemma format_list_file: "plain_env g \<Longrightarrow> format_name (getFilePath g) name = Inr (list_file g name)"
  using format_name_plain [of "root_path g @ ''/'' @ filename_prefix g" "''%s'' @ filename_suffix g" name]
  by (simp add: getFilePath_whole list_file_def plain_env_def format_rest_plain)

section \<open>Lists that belong to their feature\<close>

text \<open>The name and the items of a feature that declares a list and holds it.\<close>

fun string_items :: "json list \<Rightarrow> string list option" where
  "string_items [] = Some []"
| "string_items (JString s # js) = map_option ((#) s) (string_items js)"
| "string_items (_ # js) = None"

definition own_list :: "'e sys \<Rightarrow> json \<Rightarrow> (string \<times> string list) option" where
  "own_list S n = (case (cJSON_GetObjectItem S n JSON_NAME_IDENTIFIER, getArrayNode [n]) of
       (Some (JString name), Some (JArray xs)) \<Rightarrow> map_option (Pair name) (string_items xs)
     | _ \<Rightarrow> None)"

definition declares_list :: "'e sys \<Rightarrow> json \<Rightarrow> bool" where
  "declares_list S n \<longleftrightarrow> cJSON_GetObjectItem S n JSON_ARRAY_IDENTIFIER \<noteq> None"

definition well_listed :: "'e sys \<Rightarrow> json \<Rightarrow> bool" where
  "well_listed S n \<longleftrightarrow> declares_list S n \<longrightarrow> own_list S n \<noteq> None"

definition declared_lists :: "'e sys \<Rightarrow> json list \<Rightarrow> (string \<times> string list) list" where
  "declared_lists S ns = map (the \<circ> own_list S) (filter (declares_list S) ns)"

lemma getArrayNode_own: "getArrayNode [n] = Some a \<Longrightarrow> getArrayNode (n # ns) = Some a"
  by (auto split: if_splits option.splits)

lemma item_lines_strings:
  assumes "cjson_arrays S" "string_items (drop k xs) = Some ss" "k \<le> length xs"
  shows "item_lines S (JArray xs) [k..<length xs] = Inr (unlines (map cstr ss))"
  using assms(2,3)
proof (induction "length xs - k" arbitrary: k ss)
  case (Suc m)
  then have k: "k < length xs" by simp
  then obtain j where j: "drop k xs = j # drop (Suc k) xs" "xs ! k = j" by (simp add: Cons_nth_drop_Suc [symmetric])
  with Suc.prems obtain s ts where s: "j = JString s" "string_items (drop (Suc k) xs) = Some ts" "ss = s # ts"
    by (cases j) auto
  have "item_lines S (JArray xs) [Suc k..<length xs] = Inr (unlines (map cstr ts))"
    using Suc.hyps(1) [of "Suc k" ts] Suc.hyps(2) s(2) k by simp
  with assms(1) k j s show ?case
    by (simp add: upt_rec [of k] cjson_arrays_def)
qed simp

lemma save_own:
  assumes "cjson_arrays S" "plain_env g" "declares_list S n" "own_list S n = Some (name, ss)"
    "fopen_w S (env w) (buf_copy 255 (list_file g name))"
  shows "saveIfNodeContainsLists S (n # ns) (getFilePath g) w =
    Inr (1, w\<lparr>files := (files w)(buf_copy 255 (list_file g name) \<mapsto> unlines (map cstr ss))\<rparr>)"
proof -
  from assms(4) obtain xs where xs: "cJSON_GetObjectItem S n JSON_NAME_IDENTIFIER = Some (JString name)"
      "getArrayNode [n] = Some (JArray xs)" "string_items xs = Some ss"
    by (auto simp: own_list_def split: option.splits json.splits simp del: getArrayNode.simps)
  have "item_lines S (JArray xs) [0..<length xs] = Inr (unlines (map cstr ss))"
    using item_lines_strings [OF assms(1), of 0 xs ss] xs(3) by simp
  moreover have "list_file g name \<noteq> []" by (simp add: list_file_def)
  ultimately show ?thesis
    using assms(1,3,5) xs(1) getArrayNode_own [OF xs(2), of ns] format_list_file [OF assms(2), of name]
    by (simp add: saveIfNodeContainsLists_def declares_list_def saveToFile_def cjson_arrays_def
        write_file_def Let_def del: getArrayNode.simps)
qed

text \<open>What saving the lists \<open>ls\<close> makes of the files.\<close>

definition put_lists ::
    "(string \<Rightarrow> string option) \<Rightarrow> (string \<times> string list) list \<Rightarrow> (string \<rightharpoonup> string) \<Rightarrow> (string \<rightharpoonup> string)" where
  "put_lists g ls f = fold (\<lambda>(name, ss) f. f(buf_copy 255 (list_file g name) \<mapsto> unlines (map cstr ss))) ls f"

lemma save_nodes_own:
  assumes "cjson_arrays S" "plain_env g" "\<And>p. fopen_w S (env w) p" "\<forall>n\<in>set ns. well_listed S n"
  shows "save_nodes S (getFilePath g) ns c w =
    Inr (c + length (declared_lists S ns), w\<lparr>files := put_lists g (declared_lists S ns) (files w)\<rparr>)"
  using assms(3,4)
proof (induction ns arbitrary: c w)
  case (Cons n ns)
  show ?case
  proof (cases "declares_list S n")
    case True
    with Cons.prems(2) obtain name ss where l: "own_list S n = Some (name, ss)"
      by (auto simp: well_listed_def)
    let ?w = "w\<lparr>files := (files w)(buf_copy 255 (list_file g name) \<mapsto> unlines (map cstr ss))\<rparr>"
    have "saveIfNodeContainsLists S (n # ns) (getFilePath g) w = Inr (1, ?w)"
      using save_own [OF assms(1,2) True l] Cons.prems(1) by blast
    moreover have "save_nodes S (getFilePath g) ns (c + 1) ?w =
        Inr (c + 1 + length (declared_lists S ns), ?w\<lparr>files := put_lists g (declared_lists S ns) (files ?w)\<rparr>)"
      using Cons by simp
    ultimately show ?thesis using True l by (simp add: declared_lists_def put_lists_def)
  next
    case False
    then have "saveIfNodeContainsLists S (n # ns) (getFilePath g) w = Inr (0, w)"
      by (simp add: saveIfNodeContainsLists_def declares_list_def)
    with False Cons show ?thesis by (simp add: declared_lists_def)
  qed
qed (simp add: declared_lists_def put_lists_def)

lemma getArrayNode_next: "getArrayNode [n] = None \<Longrightarrow> getArrayNode (n # ns) = getArrayNode ns"
  by (auto split: if_splits option.splits)

text \<open>Every file the device writes lacks a NUL, so the parser is handed an unterminated buffer.\<close>

lemma unterminated_read:
  "files w f = Some b \<Longrightarrow> NUL \<notin> set b \<Longrightarrow> jsonhandler_main S g [exe, f] w = Inl OutOfBounds"
  by (simp add: jsonhandler_main_def readFromFile_def buffer_text_def)

section \<open>Properties\<close>

text \<open>C16: when every feature that declares a list has a name and holds an array of strings, the lists
  are saved under their names, one item per line, in the order of the features, nothing else changes,
  and the count is the number of lists.\<close>

theorem lists_saved:
  assumes "cjson_arrays S" "plain_env g" "\<And>p. fopen_w S (env w) p"
    "cJSON_Parse S text = Some root" "cJSON_GetObjectItem S root ''featureControl'' = Some fc"
    "cJSON_GetObjectItem S fc ''features'' = Some (JArray fs)" "\<forall>n\<in>set fs. well_listed S n"
  shows "iterateAndSaveArrayNodes S (getFilePath g) text w =
    Inr (length (declared_lists S fs), w\<lparr>files := put_lists g (declared_lists S fs) (files w)\<rparr>)"
proof -
  have "json_kids (JArray fs) = fs" by (simp add: json_kids_def o_def)
  with assms(4-6) show ?thesis
    using save_nodes_own [OF assms(1,2) assms(3) assms(7), of 0]
    by (simp add: iterateAndSaveArrayNodes_def JSON_FEATURE_CONTROL_IDENTIFIER_def JSON_FEATURES_IDENTIFIER_def)
qed

definition list_feature :: "string \<Rightarrow> string list \<Rightarrow> json" where
  "list_feature name ss = JObject [(''name'', JString name), (''listType'', JString ''t''),
     (''list'', JArray (map JString ss))]"

definition list_doc :: "json list \<Rightarrow> json" where
  "list_doc fs = JObject [(''featureControl'', JObject [(''features'', JArray fs)])]"

definition two_lists :: "json list" where
  "two_lists = [list_feature ''a'' [''x'', ''y''], JObject [(''name'', JString ''p'')], list_feature ''b'' [''z'']]"

lemmas ref_json = ref_sys_def ref_json_item_def tolower_def isupper_def
  JSON_ARRAY_IDENTIFIER_def JSON_NAME_IDENTIFIER_def

theorem lists_saved_witness:
  "iterateAndSaveArrayNodes (ref_sys STB (\<lambda>_. Some (list_doc two_lists))) (getFilePath (\<lambda>_. None)) [] ref_world =
     Inr (2, ref_world\<lparr>files := [''/opt/secure/RFC/.RFC_LIST_a.ini'' \<mapsto> ''x'' @ NL # ''y'' @ [NL],
                               ''/opt/secure/RFC/.RFC_LIST_b.ini'' \<mapsto> ''z'' @ [NL]]\<rparr>)"
proof -
  let ?S = "ref_sys STB (\<lambda>_. Some (list_doc two_lists))" and ?g = "\<lambda>_::string. None :: string option"
  have plain: "plain_env ?g" "buf_copy 255 (list_file ?g ''a'') = ''/opt/secure/RFC/.RFC_LIST_a.ini''"
      "buf_copy 255 (list_file ?g ''b'') = ''/opt/secure/RFC/.RFC_LIST_b.ini''"
    by (simp_all add: plain_env_def list_file_def buf_copy_def root_path_def filename_prefix_def
        filename_suffix_def env_or_def)
  have lists: "declared_lists ?S two_lists = [(''a'', [''x'', ''y'']), (''b'', [''z''])]"
      "\<forall>n\<in>set two_lists. well_listed ?S n"
    by (simp_all add: declared_lists_def well_listed_def declares_list_def own_list_def two_lists_def
        list_feature_def isNodeArrayType_def json_kids_def ref_json)
  have doc: "cJSON_Parse ?S [] = Some (list_doc two_lists)"
      "cJSON_GetObjectItem ?S (list_doc two_lists) ''featureControl'' = Some (JObject [(''features'', JArray two_lists)])"
      "cJSON_GetObjectItem ?S (JObject [(''features'', JArray two_lists)]) ''features'' = Some (JArray two_lists)"
    by (simp_all add: list_doc_def ref_json)
  have "iterateAndSaveArrayNodes ?S (getFilePath ?g) [] ref_world = Inr (length (declared_lists ?S two_lists),
      ref_world\<lparr>files := put_lists ?g (declared_lists ?S two_lists) (files ref_world)\<rparr>)"
    by (rule lists_saved [OF ref_cjson_arrays plain(1) _ doc lists(2)]) (simp add: ref_sys_def)
  then show ?thesis by (simp add: lists plain put_lists_def ref_world_def)
qed

text \<open>The buffer allocated for the file name format is exactly long enough: the format is the
  whole of root, prefix, conversion and suffix whatever the environment holds.\<close>

lemma list_format_whole:
  "getFilePath g = root_path g @ ''/'' @ filename_prefix g @ ''%s'' @ filename_suffix g \<and>
   length (getFilePath g) + 1 = length (root_path g) + length (filename_prefix g) + length (filename_suffix g) + 4"
  by (simp add: getFilePath_whole)

text \<open>C26: the search for a list goes on to the next features: a feature that declares a list but holds
  none is saved with the list of the feature after it.\<close>

theorem missing_list_from_sibling:
  assumes "cjson_arrays S" "plain_env g" "declares_list S n" "getArrayNode [n] = None"
    "cJSON_GetObjectItem S n ''name'' = Some (JString a)" "own_list S m = Some (b, ss)"
    "fopen_w S (env w) (buf_copy 255 (list_file g a))"
  shows "saveIfNodeContainsLists S (n # m # ns) (getFilePath g) w =
    Inr (1, w\<lparr>files := (files w)(buf_copy 255 (list_file g a) \<mapsto> unlines (map cstr ss))\<rparr>)"
proof -
  from assms(6) obtain xs where xs: "getArrayNode [m] = Some (JArray xs)" "string_items xs = Some ss"
    by (auto simp: own_list_def split: option.splits json.splits simp del: getArrayNode.simps)
  have "item_lines S (JArray xs) [0..<length xs] = Inr (unlines (map cstr ss))"
    using item_lines_strings [OF assms(1), of 0 xs ss] xs(2) by simp
  moreover have "getArrayNode (n # m # ns) = Some (JArray xs)"
    using getArrayNode_next [OF assms(4)] getArrayNode_own [OF xs(1)] by simp
  moreover have "list_file g a \<noteq> []" by (simp add: list_file_def)
  ultimately show ?thesis
    using assms(1,3,5,7) format_list_file [OF assms(2), of a]
    by (simp add: saveIfNodeContainsLists_def declares_list_def saveToFile_def cjson_arrays_def
        write_file_def Let_def JSON_NAME_IDENTIFIER_def del: getArrayNode.simps)
qed

theorem missing_list_from_sibling_witness:
  "saveIfNodeContainsLists ref_stb
     [JObject [(''name'', JString ''a''), (''listType'', JString ''t'')], list_feature ''b'' [''z'']]
     (getFilePath (\<lambda>_. None)) ref_world =
   Inr (1, ref_world\<lparr>files := [''/opt/secure/RFC/.RFC_LIST_a.ini'' \<mapsto> ''z'' @ [NL]]\<rparr>)"
proof -
  let ?g = "\<lambda>_::string. None :: string option" and ?n = "JObject [(''name'', JString ''a''), (''listType'', JString ''t'')]"
  have plain: "plain_env ?g" "buf_copy 255 (list_file ?g ''a'') = ''/opt/secure/RFC/.RFC_LIST_a.ini''"
    by (simp_all add: plain_env_def list_file_def buf_copy_def root_path_def filename_prefix_def
        filename_suffix_def env_or_def)
  have n: "declares_list ref_stb ?n" "getArrayNode [?n] = None"
      "cJSON_GetObjectItem ref_stb ?n ''name'' = Some (JString ''a'')"
      "own_list ref_stb (list_feature ''b'' [''z'']) = Some (''b'', [''z''])"
    by (simp_all add: declares_list_def own_list_def list_feature_def isNodeArrayType_def json_kids_def ref_json)
  have "fopen_w ref_stb (env ref_world) (buf_copy 255 (list_file ?g ''a''))" by (simp add: ref_sys_def)
  from missing_list_from_sibling [OF ref_cjson_arrays plain(1) n this, of "[]"]
  show ?thesis by (simp add: plain ref_world_def)
qed

end
