(* ===== verification/Json_Vars.thy ===== *)
theory Json_Vars
  imports Rfc_Json
begin

text \<open>
  The part of json_parse.c that turns a JSON document into shell text: reading a document from a file
  (\<open>GetJson\<close>, \<open>ParseJsonStr\<close>), looking values up by name or by a part of a name
  (\<open>GetJsonValFromString\<close>, \<open>GetJsonValContaining\<close>), and exporting every name and value to a file that
  can be sourced and to the environment of the process (\<open>SetJsonVars\<close>).  Shown here: the list of the values whose
  names contain a text is cut at the caller's buffer and nowhere else, and an exported document reads
  back from the file and from the environment.
\<close>

section \<open>Reading a document\<close>

text \<open>The mapping of an empty file fails; the copy stops at a NUL byte.\<close>

definition GetJson :: "'e sys \<Rightarrow> string option \<Rightarrow> ('e, 'z) world_scheme \<Rightarrow> string option" where
  "GetJson S filename_in w = (case filename_in of None \<Rightarrow> None
     | Some path \<Rightarrow> (case files w path of None \<Rightarrow> None
         | Some c \<Rightarrow> if c = [] \<or> \<not> alloc_ok S (env w) (length c + 1) then None else Some (cstr c)))"

definition ParseJsonStr :: "'e sys \<Rightarrow> string option \<Rightarrow> json option" where
  "ParseJsonStr S pJsonStr = (case pJsonStr of None \<Rightarrow> None | Some s \<Rightarrow> cJSON_Parse S s)"

definition FreeJson :: "json option \<Rightarrow> int" where
  "FreeJson pJson = (case pJson of None \<Rightarrow> -1 | Some _ \<Rightarrow> 0)"

text \<open>The output is \<open>None\<close> where the caller's buffer is not written.\<close>

definition GetJsonValFromString ::
    "'e sys \<Rightarrow> string option \<Rightarrow> string \<Rightarrow> nat \<Rightarrow> (nat \<times> string option) res" where
  "GetJsonValFromString S pJsonStr k maxlen = (case ParseJsonStr S pJsonStr of None \<Rightarrow> Inr (0, None)
     | Some j \<Rightarrow> rbind (GetJsonVal S (Some j) k maxlen)
         (\<lambda>(n, out). Inr (n, if maxlen = 0 then None else Some out)))"

section \<open>Names that a shell accepts\<close>

text \<open>Whether \<open>char\<close> is signed does not matter: bytes from 128 are below \<open>'0'\<close> or above \<open>'z'\<close>.\<close>

definition convert_char :: "char \<Rightarrow> char" where
  "convert_char c = (let n = of_char c :: nat in
     if n < 48 \<or> 57 < n \<and> n < 65 \<or> 90 < n \<and> n < 97 \<and> c \<noteq> CHR ''_'' \<or> 122 < n then CHR ''_'' else c)"

definition convertInvalidChars :: "string \<Rightarrow> string" where
  "convertInvalidChars s = map convert_char s"

definition shell_name :: "string \<Rightarrow> bool" where
  "shell_name s \<longleftrightarrow> (\<forall>c\<in>set s. isalnum c \<or> c = CHR ''_'')"

lemma convert_char_ok: "isalnum (convert_char c) \<or> convert_char c = CHR ''_''"
  by (auto simp: convert_char_def isalnum_def isdigit_def isupper_def islower_def Let_def)

lemma convert_char_id: "isalnum c \<or> c = CHR ''_'' \<Longrightarrow> convert_char c = c"
  by (auto simp: convert_char_def isalnum_def isdigit_def isupper_def islower_def Let_def)

lemma convertInvalidChars_ok: "shell_name (convertInvalidChars s)"
  using convert_char_ok by (auto simp: shell_name_def convertInvalidChars_def)

lemma convertInvalidChars_id: "shell_name s \<Longrightarrow> convertInvalidChars s = s"
  by (simp add: shell_name_def convertInvalidChars_def convert_char_id map_idI)

lemma shell_name_key_ok: "shell_name k \<Longrightarrow> key_ok k"
  by (auto simp: shell_name_def key_ok_def isalnum_def isdigit_def isupper_def islower_def)

section \<open>Values by a part of their name\<close>

text \<open>A \<open>size_t\<close> stored in an \<open>int\<close>, and an \<open>int\<close> added to a \<open>size_t\<close>.\<close>

definition int_of_size :: "nat \<Rightarrow> int" where
  "int_of_size n = (int n + 2 ^ 31) mod 2 ^ 32 - 2 ^ 31"

definition size_plus :: "nat \<Rightarrow> int \<Rightarrow> nat" where
  "size_plus n i = nat ((int n + i) mod 2 ^ 64)"

text \<open>
  The loop over the children: \<open>i\<close> is the length of the last value, \<open>len\<close> the position in the buffer,
  \<open>out\<close> what the buffer holds.  The names of the children the loop has visited are converted in the
  document itself, which is returned.
\<close>

fun containing_loop ::
    "string \<Rightarrow> nat \<Rightarrow> int \<Rightarrow> nat \<Rightarrow> string \<Rightarrow> (string option \<times> json) list \<Rightarrow>
       (nat \<times> string \<times> (string option \<times> json) list) res" where
  "containing_loop sub maxlen i len out [] = Inr (len, out, [])"
| "containing_loop sub maxlen i len out ((None, item) # cs) =
     rbind (containing_loop sub maxlen i len out cs) (\<lambda>(n, t, ds). Inr (n, t, (None, item) # ds))"
| "containing_loop sub maxlen i len out ((Some k, item) # cs) =
     (let name = convertInvalidChars k; rest = (\<lambda>i len out.
            rbind (containing_loop sub maxlen i len out cs) (\<lambda>(n, t, ds). Inr (n, t, (Some name, item) # ds)))
      in if \<not> str_contains name sub then rest i len out
      else let rem = int_of_size (maxlen - len);
               comma = (i \<noteq> 0 \<and> 2 \<le> rem);
               at = take len out @ (if comma then '','' else []);
               len1 = (if comma then Suc len else len);
               rem1 = (if comma then rem - 1 else rem)
           in if rem1 \<le> 0 then rest i len1 at
           else rbind (getitemval item (nat rem1)) (\<lambda>(n, v).
             let i' = int_of_size n; len' = size_plus len1 i'; out' = at @ v
             in if maxlen \<le> len' then Inr (len', out', (Some name, item) # cs)
                else rest i' len' out'))"

definition with_children :: "json \<Rightarrow> (string option \<times> json) list \<Rightarrow> json" where
  "with_children j cs = (case j of
       JObject _ \<Rightarrow> JObject (map (\<lambda>(k, v). (case k of None \<Rightarrow> [] | Some s \<Rightarrow> s, v)) cs)
     | _ \<Rightarrow> j)"

definition GetJsonValContaining ::
    "json option \<Rightarrow> string \<Rightarrow> nat \<Rightarrow> (nat \<times> string option \<times> json option) res" where
  "GetJsonValContaining pJson k maxlen = (if maxlen = 0 then Inr (0, None, pJson)
     else (case pJson of None \<Rightarrow> Inr (0, Some [], None)
       | Some j \<Rightarrow> if k = [] then Inr (0, Some [], Some j)
           else rbind (containing_loop k maxlen 0 0 [] (json_children j))
             (\<lambda>(len, out, cs). Inr (len, Some out, Some (with_children j cs)))))"

definition GetJsonValContainingFromString ::
    "'e sys \<Rightarrow> string option \<Rightarrow> string \<Rightarrow> nat \<Rightarrow> (nat \<times> string option) res" where
  "GetJsonValContainingFromString S pJsonStr k maxlen = (case ParseJsonStr S pJsonStr of
       None \<Rightarrow> Inr (0, None)
     | Some j \<Rightarrow> rbind (GetJsonValContaining (Some j) k maxlen) (\<lambda>(n, out, _). Inr (n, out)))"

section \<open>Exporting a document\<close>

text \<open>\<open>setenv(name, value, 1)\<close> refuses an empty name and a name with an equals sign.\<close>

type_synonym vars = "string \<rightharpoonup> string"

definition setenv :: "string \<Rightarrow> string \<Rightarrow> vars \<Rightarrow> int \<times> vars" where
  "setenv k v m = (if k = [] \<or> CHR ''='' \<in> set k then (-1, m) else (0, m(k \<mapsto> v)))"

text \<open>\<open>fpout\<close> is what has been written to the output file, \<open>None\<close> when there is none.\<close>

definition writeItemVal ::
    "string option \<Rightarrow> string option \<Rightarrow> string option \<Rightarrow> bool \<Rightarrow> vars \<Rightarrow> int \<times> string option \<times> vars" where
  "writeItemVal fpout pName pVal setenvvars m = (case pName of None \<Rightarrow> (1, fpout, m)
     | Some name \<Rightarrow>
         (let printed = (case pVal of None \<Rightarrow> [] | Some v \<Rightarrow> DQ # v @ [DQ, NL]);
              fpout' = map_option (\<lambda>t. t @ name @ ''='' @ printed) fpout;
              iRet = (if fpout \<noteq> None \<and> pVal = None then 1 else 0)
          in (case pVal of None \<Rightarrow> (iRet, fpout', m)
            | Some v \<Rightarrow> if setenvvars then (let (r, m') = setenv name v m in (r, fpout', m'))
                else (iRet, fpout', m))))"

fun export_loop :: "bool \<Rightarrow> (string option \<times> json) list \<Rightarrow> int \<Rightarrow> string option \<Rightarrow> vars \<Rightarrow>
    (int \<times> string option \<times> vars) res" where
  "export_loop setenvvars [] iRet fpout m = Inr (iRet, fpout, m)"
| "export_loop setenvvars ((k, item) # cs) iRet fpout m =
     (if fpout \<noteq> None \<or> setenvvars
      then (case k of None \<Rightarrow> export_loop setenvvars cs iRet fpout m
        | Some name \<Rightarrow> rbind (getitemval item 100) (\<lambda>(_, v).
            let (r, fpout', m') = writeItemVal fpout (Some (convertInvalidChars name)) (Some v) setenvvars m
            in export_loop setenvvars cs r fpout' m'))
      else export_loop setenvvars cs iRet fpout m)"

definition SetJsonVars :: "'e sys \<Rightarrow> string option \<Rightarrow> string option \<Rightarrow> bool \<Rightarrow>
    vars \<Rightarrow> ('e, 'z) world_scheme \<Rightarrow> (int \<times> vars \<times> ('e, 'z) world_scheme) res" where
  "SetJsonVars S fileIn fileOut setenvvars m w = (case ParseJsonStr S (GetJson S fileIn w) of
       None \<Rightarrow> Inr (1, m, w)
     | Some j \<Rightarrow>
         (let fpout = (case fileOut of None \<Rightarrow> None
                | Some p \<Rightarrow> if fopen_w S (env w) p then Some [] else None)
          in rbind (export_loop setenvvars (json_children j) 1 fpout m) (\<lambda>(iRet, text, m').
            Inr (iRet, m', (case (fileOut, text) of
              (Some p, Some t) \<Rightarrow> write_file S p t w | _ \<Rightarrow> w)))))"

section \<open>The text of a value\<close>

definition value_text :: "json \<Rightarrow> string" where
  "value_text v = (case v of JString s \<Rightarrow> cstr s | JBool b \<Rightarrow> (if b then ''true'' else ''false'')
     | JNumber _ t \<Rightarrow> number_text t | _ \<Rightarrow> [])"

text \<open>Numbers that fit the buffer they are printed to; texts no longer than an \<open>int\<close> counts.\<close>

definition printable :: "json \<Rightarrow> bool" where
  "printable v \<longleftrightarrow> length (value_text v) < 2 ^ 31 \<and>
     (case v of JNumber _ t \<Rightarrow> length t < 50 \<and> NUL \<notin> set t | _ \<Rightarrow> True)"

lemma number_text_chars: "set (number_text t) \<subseteq> set t"
proof (cases t)
  case (Cons c s)
  define z where "z = c # rev (dropWhile (\<lambda>x. x = CHR ''0'') (rev s))"
  have "set z \<subseteq> set t" by (auto simp: z_def Cons dest: set_dropWhileD)
  moreover have "number_text t = (if last z = CHR ''.'' then butlast z else z)"
    by (simp only: number_text_def Cons list.case Let_def z_def)
  ultimately show ?thesis by (auto dest: in_set_butlastD)
qed (simp add: number_text_def)

lemma value_text_no_NUL: "printable v \<Longrightarrow> NUL \<notin> set (value_text v)"
  using number_text_chars by (auto simp: value_text_def printable_def split: json.splits)

lemma getitemval_text:
  assumes "printable v"
  shows "getitemval v n = Inr (length (value_text v), take (n - 1) (value_text v))"
  using assms value_text_no_NUL [OF assms]
  by (auto simp: getitemval_def value_text_def printable_def buf_copy_def Let_def split: json.splits)

section \<open>The list of matching values\<close>

text \<open>What the list means to hold: a comma before a value when the one before it was not empty.\<close>

fun join_values :: "bool \<Rightarrow> string list \<Rightarrow> string" where
  "join_values prev [] = []"
| "join_values prev (v # vs) = (if prev then '','' else []) @ v @ join_values (v \<noteq> []) vs"

definition name_matches :: "string \<Rightarrow> string option \<times> json \<Rightarrow> bool" where
  "name_matches sub c \<longleftrightarrow> (case fst c of None \<Rightarrow> False | Some k \<Rightarrow> sublist sub (convertInvalidChars k))"

definition matching_values :: "string \<Rightarrow> (string option \<times> json) list \<Rightarrow> string list" where
  "matching_values sub cs = map (value_text \<circ> snd) (filter (name_matches sub) cs)"

definition converted :: "(string option \<times> json) list \<Rightarrow> (string option \<times> json) list" where
  "converted cs = map (\<lambda>(k, v). (map_option convertInvalidChars k, v)) cs"

lemma matching_simps [simp]:
  "matching_values sub [] = []" "matching_values sub ((None, v) # cs) = matching_values sub cs"
  "matching_values sub ((Some k, v) # cs) = (if sublist sub (convertInvalidChars k)
     then value_text v # matching_values sub cs else matching_values sub cs)"
  by (simp_all add: matching_values_def name_matches_def)

lemma converted_simps [simp]:
  "converted [] = []" "converted ((k, v) # cs) = (map_option convertInvalidChars k, v) # converted cs"
  by (simp_all add: converted_def)

lemma int_of_size_small: "n < 2 ^ 31 \<Longrightarrow> int_of_size n = int n"
  by (simp add: int_of_size_def)

lemma size_plus_small: "n < 2 ^ 32 \<Longrightarrow> m < 2 ^ 32 \<Longrightarrow> size_plus n (int m) = n + m"
  by (simp add: size_plus_def nat_add_distrib)

text \<open>What the loop promises for a buffer whose first \<open>length out\<close> bytes are filled.\<close>

definition cut_at :: "nat \<Rightarrow> string \<Rightarrow> (string option \<times> json) list \<Rightarrow>
    (nat \<times> string \<times> (string option \<times> json) list) res \<Rightarrow> bool" where
  "cut_at maxlen full cs r \<longleftrightarrow> (\<exists>n ds. r = Inr (n, take (maxlen - 1) full, ds) \<and>
     (length full < maxlen \<longrightarrow> n = length full \<and> ds = converted cs))"

lemma cut_at_rest:
  assumes "cut_at maxlen full cs r" "map_option convertInvalidChars k = k'"
  shows "cut_at maxlen full ((k, v) # cs) (rbind r (\<lambda>(n, t, ds). Inr (n, t, (k', v) # ds)))"
  using assms by (auto simp: cut_at_def)

lemma cut_at_cong:
  assumes "cut_at maxlen full cs r" "take (maxlen - 1) full = take (maxlen - 1) full'"
    "length full' < maxlen \<Longrightarrow> full = full'"
  shows "cut_at maxlen full' cs r"
  using assms by (auto simp: cut_at_def)

lemma containing_step:
  assumes "maxlen < 2 ^ 31" "length out < maxlen" "sublist sub (convertInvalidChars nm)" "printable v"
    "at = out @ (if i \<noteq> 0 \<and> length out + 2 \<le> maxlen then '','' else [])"
  shows "containing_loop sub maxlen i (length out) out ((Some nm, v) # cs) =
    (if maxlen \<le> length (at @ value_text v)
     then Inr (length (at @ value_text v), take (maxlen - 1) (at @ value_text v), (Some (convertInvalidChars nm), v) # cs)
     else rbind (containing_loop sub maxlen (int (length (value_text v))) (length (at @ value_text v)) (at @ value_text v) cs)
       (\<lambda>(n, t, ds). Inr (n, t, (Some (convertInvalidChars nm), v) # ds)))"
proof -
  let ?x = "value_text v"
  let ?comma = "i \<noteq> 0 \<and> 2 \<le> int_of_size (maxlen - length out)"
  have rem: "int_of_size (maxlen - length out) = int (maxlen - length out)"
    using assms(1) by (intro int_of_size_small) simp
  then have comma: "?comma \<longleftrightarrow> i \<noteq> 0 \<and> length out + 2 \<le> maxlen" using assms(2) by auto
  have e: "take (length out) out @ (if ?comma then '','' else []) = at"
      "(if ?comma then Suc (length out) else length out) = length at"
      "(if ?comma then int_of_size (maxlen - length out) - 1 else int_of_size (maxlen - length out)) =
         int (maxlen - length at)"
    unfolding comma rem using assms(2) by (auto simp: assms(5))
  have x: "length ?x < 2 ^ 31" using assms(4) by (simp add: printable_def)
  have at: "length at < maxlen" "length at < 2 ^ 31" using assms(1,2) by (auto simp: assms(5))
  have sz: "size_plus (length at) (int (length ?x)) = length at + length ?x"
    using x at(2) by (simp add: size_plus_small)
  have cut: "take (maxlen - 1) (at @ ?x) = at @ take (maxlen - length at - 1) ?x" using at(1) by (simp add: take_append)
  show ?thesis
    unfolding containing_loop.simps Let_def e nat_int
    using assms(3) at(1) sz cut by (simp add: str_find_None getitemval_text [OF assms(4)] int_of_size_small [OF x])
qed

lemma containing_loop_cut:
  assumes "maxlen < 2 ^ 31" "length out < maxlen" "\<forall>c\<in>set cs. name_matches sub c \<longrightarrow> printable (snd c)"
  shows "cut_at maxlen (out @ join_values (i \<noteq> 0) (matching_values sub cs)) cs
    (containing_loop sub maxlen i (length out) out cs)"
  using assms
proof (induction cs arbitrary: i out)
  case Nil
  then show ?case by (simp add: cut_at_def)
next
  case (Cons c cs)
  obtain k v where c: "c = (k, v)" by (cases c)
  have tl: "\<forall>c\<in>set cs. name_matches sub c \<longrightarrow> printable (snd c)" using Cons.prems(3) by simp
  show ?case
  proof (cases k)
    case None
    show ?thesis unfolding c None containing_loop.simps matching_simps
      by (rule cut_at_rest [OF Cons.IH [OF Cons.prems(1,2) tl]]) simp
  next
    case (Some nm)
    show ?thesis
    proof (cases "sublist sub (convertInvalidChars nm)")
      case False
      show ?thesis unfolding c Some containing_loop.simps matching_simps Let_def str_contains_sublist if_not_P [OF False]
        by (simp only: False not_False_eq_True if_True)
          (rule cut_at_rest [OF Cons.IH [OF Cons.prems(1,2) tl]], simp)
    next
      case True
      have pr: "printable v" using Cons.prems(3) True by (simp add: c Some name_matches_def)
      define at where "at = out @ (if i \<noteq> 0 \<and> length out + 2 \<le> maxlen then '','' else [])"
      let ?x = "value_text v" and ?full = "out @ join_values (i \<noteq> 0) (matching_values sub (c # cs))"
      note step = containing_step [OF Cons.prems(1,2) True pr at_def, of cs]
      have at: "take (maxlen - 1) (at @ ?x @ r) = take (maxlen - 1) (out @ (if i \<noteq> 0 then '','' else []) @ ?x @ r)" for r
        using Cons.prems(2) by (cases "length out + 2 \<le> maxlen") (auto simp: at_def le_Suc_eq)
      show ?thesis
      proof (cases "maxlen \<le> length (at @ ?x)")
        case True': True
        then have "maxlen \<le> length ?full" using True by (auto simp: at_def c Some split: if_splits)
        with True' True show ?thesis unfolding c Some step using at [of "join_values (?x \<noteq> []) (matching_values sub cs)"]
          by (simp add: cut_at_def)
      next
        case False
        have "cut_at maxlen ((at @ ?x) @ join_values (int (length ?x) \<noteq> 0) (matching_values sub cs)) cs
            (containing_loop sub maxlen (int (length ?x)) (length (at @ ?x)) (at @ ?x) cs)"
          using False by (intro Cons.IH [OF Cons.prems(1) _ tl]) simp
        then have "cut_at maxlen ((at @ ?x) @ join_values (int (length ?x) \<noteq> 0) (matching_values sub cs)) (c # cs)
            (containing_loop sub maxlen i (length out) out (c # cs))"
          unfolding c Some step if_not_P [OF False] by (rule cut_at_rest) simp
        then show ?thesis by (rule cut_at_cong) (use Cons.prems(2) at True in \<open>auto simp: c Some at_def split: if_splits\<close>)
      qed
    qed
  qed
qed

text \<open>C37: \<open>GetJsonValContaining\<close> collects the values of all items whose converted name contains the search
  text, separated by commas, and cuts this list exactly at the end of the caller's buffer, for every buffer
  size an \<open>int\<close> can count; a list that fits is returned whole with its length, and the names of all
  items are then converted in the document.\<close>

theorem GetJsonValContaining_cuts:
  assumes "sub \<noteq> []" "0 < maxlen" "maxlen < 2 ^ 31"
    "\<forall>c\<in>set (json_children j). name_matches sub c \<longrightarrow> printable (snd c)"
    "full = join_values False (matching_values sub (json_children j))"
  shows "\<exists>n j'. GetJsonValContaining (Some j) sub maxlen = Inr (n, Some (take (maxlen - 1) full), Some j') \<and>
     (length full < maxlen \<longrightarrow> n = length full \<and> j' = with_children j (converted (json_children j)))"
  using containing_loop_cut [OF assms(3) _ assms(4), of "[]" 0] assms(1,2,5)
  by (auto simp: GetJsonValContaining_def cut_at_def)

definition partner_doc :: json where
  "partner_doc = JObject [(''a.url'', JString ''x''), (''b'', JBool True), (''c.url'', JNumber 2 ''2.500000'')]"

theorem GetJsonValContaining_cuts_witness:
  "\<exists>n j'. GetJsonValContaining (Some partner_doc) ''_url'' 5 = Inr (n, Some ''x,2.'', Some j')"
  using GetJsonValContaining_cuts [of "''_url''" 5 partner_doc "''x,2.5''"]
  by (auto simp: partner_doc_def name_matches_def matching_values_def convertInvalidChars_def convert_char_def
      printable_def value_text_def number_text_def cstr_def sublist_code Let_def)

text \<open>A search text with a character that names lose in the conversion is never found.\<close>

lemma containing_converted_only:
  assumes "\<not> shell_name sub"
  shows "matching_values sub cs = []"
proof -
  have "\<not> sublist sub (convertInvalidChars k)" for k
    using assms convertInvalidChars_ok [of k] by (auto simp: shell_name_def dest: set_mono_sublist)
  then show ?thesis by (auto simp: matching_values_def name_matches_def filter_empty_conv split: option.splits)
qed

section \<open>What an export leaves behind\<close>

definition put_var :: "string \<Rightarrow> string \<Rightarrow> vars \<Rightarrow> vars" where
  "put_var k v m = m(k \<mapsto> v)"

definition get_var :: "vars \<Rightarrow> string \<Rightarrow> string option" where
  "get_var m k = m k"

interpretation env_vars: map_store Map.empty put_var get_var "\<lambda>_. True"
  by unfold_locales (auto simp: put_var_def get_var_def)

definition exported :: "(string \<times> json) list \<Rightarrow> (string \<times> string) list" where
  "exported kvs = map (\<lambda>(k, v). (convertInvalidChars k, take 99 (value_text v))) kvs"

definition dquoted :: "string \<Rightarrow> string" where
  "dquoted v = DQ # v @ [DQ]"

lemma exported_simps [simp]:
  "exported [] = []" "exported ((k, v) # kvs) = (convertInvalidChars k, take 99 (value_text v)) # exported kvs"
  by (simp_all add: exported_def)

lemma setenv_shell_name: "shell_name k \<Longrightarrow> k \<noteq> [] \<Longrightarrow> setenv k v m = (0, put_var k v m)"
  using shell_name_key_ok by (auto simp: setenv_def key_ok_def put_var_def)

lemma printed_Cons:
  "plain_ini.printed ((k, v) # kvs) = k @ CHR ''='' # v @ NL # plain_ini.printed kvs"
  by (simp add: plain_ini.printed_def render_plain_def)

lemma export_loop_all:
  assumes "\<forall>(k, v)\<in>set kvs. k \<noteq> [] \<and> printable v"
  shows "export_loop True (map (\<lambda>(k, v). (Some k, v)) kvs) iRet (Some t) m =
    Inr (if kvs = [] then iRet else 0,
      Some (t @ plain_ini.printed (map (\<lambda>(k, v). (k, dquoted v)) (exported kvs))),
      env_vars.put_all (exported kvs) m)"
  using assms
proof (induction kvs arbitrary: iRet t m)
  case Nil
  then show ?case by (simp add: plain_ini.printed_def env_vars.put_all_def)
next
  case (Cons p kvs)
  obtain k v where p: "p = (k, v)" by (cases p)
  with Cons.prems have "k \<noteq> []" "printable v" by auto
  then have ok: "setenv (convertInvalidChars k) x m = (0, put_var (convertInvalidChars k) x m)" for x
    using setenv_shell_name [OF convertInvalidChars_ok] by (simp add: convertInvalidChars_def)
  from Cons \<open>printable v\<close> show ?case
    by (simp add: p getitemval_text writeItemVal_def ok printed_Cons env_vars.put_all_def dquoted_def)
qed

lemma exported_lookup:
  assumes "\<forall>(k, v)\<in>set kvs. NL \<notin> set (value_text v)"
  shows "ini_lookup split_eq key (getlines (plain_ini.printed (map (\<lambda>(k, v). (k, dquoted v)) (exported kvs)))) =
     map_option dquoted (map_of (exported kvs) key)"
proof -
  have "NL \<notin> set (take n (value_text v))" if "(k, v) \<in> set kvs" for n k v
    using assms that by (auto dest: in_set_takeD)
  then have "\<forall>(k, v)\<in>set (map (\<lambda>(k, v). (k, dquoted v)) (exported kvs)). key_ok k \<and> NL \<notin> set v"
    by (auto simp: exported_def dquoted_def shell_name_key_ok convertInvalidChars_ok)
  then have "ini_lookup split_eq key (getlines (plain_ini.printed (map (\<lambda>(k, v). (k, dquoted v)) (exported kvs)))) =
      map_of (map (\<lambda>(k, v). (k, dquoted v)) (exported kvs)) key"
    by (rule plain_ini.lookup_printed)
  also have "\<dots> = map_option dquoted (map_of (exported kvs) key)" by (simp add: map_of_map)
  finally show ?thesis .
qed

text \<open>C36: exporting a document (\<open>SetJsonVars\<close> with an output file and the environment) succeeds, and every
  name, with the characters a shell does not accept replaced, is afterwards bound to the first 99
  characters of its value: in the environment to the value of its last occurrence, and the scanner of key=value
  files finds that of its first occurrence in quotes.\<close>

theorem SetJsonVars_exports:
  assumes "files w inp = Some c" "c \<noteq> []" "alloc_ok S (env w) (length c + 1)"
    "cJSON_Parse S (cstr c) = Some (JObject kvs)" "kvs \<noteq> []" "fopen_w S (env w) outp"
    "\<forall>(k, v)\<in>set kvs. k \<noteq> [] \<and> printable v \<and> NL \<notin> set (value_text v)"
  shows "\<exists>m' w' t. SetJsonVars S (Some inp) (Some outp) True m w = Inr (0, m', w') \<and>
     files w' = (files w)(outp \<mapsto> t) \<and>
     ini_lookup split_eq key (getlines t) = map_option dquoted (map_of (exported kvs) key) \<and>
     m' key = (case map_of (rev (exported kvs)) key of None \<Rightarrow> m key | Some v \<Rightarrow> Some v)"
proof -
  let ?t = "plain_ini.printed (map (\<lambda>(k, v). (k, dquoted v)) (exported kvs))"
  have "\<forall>(k, v)\<in>set kvs. k \<noteq> [] \<and> printable v" using assms(7) by auto
  note loop = export_loop_all [OF this, of 1 "[]" m]
  have "SetJsonVars S (Some inp) (Some outp) True m w =
      Inr (0, env_vars.put_all (exported kvs) m, write_file S outp ?t w)"
    using assms(1-6) loop by (simp add: SetJsonVars_def ParseJsonStr_def GetJson_def del: rbind_eq_Inr)
  moreover have "files (write_file S outp ?t w) = (files w)(outp \<mapsto> ?t)" using assms(6) by (simp add: write_file_files)
  moreover have "ini_lookup split_eq key (getlines ?t) = map_option dquoted (map_of (exported kvs) key)"
    by (rule exported_lookup) (use assms(7) in auto)
  moreover have "env_vars.put_all (exported kvs) m key =
      (case map_of (rev (exported kvs)) key of None \<Rightarrow> m key | Some v \<Rightarrow> Some v)"
    using env_vars.get_put_all [where m = m and kvs = "exported kvs" and k = key]
    unfolding get_var_def by simp
  ultimately show ?thesis by blast
qed

definition doc_world :: "refenv world" where
  "doc_world = ref_world\<lparr>files := [''in.json'' \<mapsto> ''{}'']\<rparr>"

theorem SetJsonVars_exports_witness:
  "\<exists>m' w' t. SetJsonVars (ref_sys STB (\<lambda>_. Some partner_doc)) (Some ''in.json'') (Some ''out.sh'') True
       Map.empty doc_world = Inr (0, m', w') \<and>
     files w' = (files doc_world)(''out.sh'' \<mapsto> t) \<and>
     ini_lookup split_eq ''a_url'' (getlines t) = Some (dquoted ''x'') \<and> m' ''a_url'' = Some ''x''"
  using SetJsonVars_exports [of doc_world "''in.json''" "''{}''" "ref_sys STB (\<lambda>_. Some partner_doc)"
      "[(''a.url'', JString ''x''), (''b'', JBool True), (''c.url'', JNumber 2 ''2.500000'')]"
      "''out.sh''" Map.empty "''a_url''"]
  by (simp add: doc_world_def ref_world_def ref_sys_def partner_doc_def exported_def convertInvalidChars_def
      convert_char_def printable_def value_text_def number_text_def cstr_def)

end
