(* ===== verification/Spec2Isabelle.thy ===== *)
theory Spec2Isabelle
  imports Device_Api Rfc_Manager Rfc_Lock Rfc_Apply Host_Run Rfc_Mtls Store_Lock Tr181_Utils Json_Handler Json_Vars
begin

text \<open>
  RFC, the remote feature control of RDK devices (set-top boxes, broadband gateways with and without
  the extender build, cameras).

  \<^bold>\<open>The program.\<close>  A manager process (rfcMgr/rfc_main.cpp, rfc_manager.cpp) runs at boot and from
  cron.  It takes a lock, waits until the device is online and runs one Xconf processor
  (rfcMgr/xconf_handler.cpp, rfc_xconf_handler.cpp), which collects the identity of the device, asks
  the Xconf server for the features of this device, and writes the answer to the parameter store, to
  files below /opt/secure/RFC and to telemetry.  Other programs read parameters through
  rfcapi (rfcapi/rfcapi.cpp) and through its typed front tr181api (tr181api/tr181api.cpp), which adds
  a local store.  Three tools sit on top: tr181 (utils/tr181utils.cpp) with its legacy variant
  (utils/trsetutils.cpp), and rfctool (utils/jsonhandler.cpp), which saves the lists of an answer.

  \<^bold>\<open>How code becomes definitions.\<close>  The C and C++ library the sources use on strings is
  in \<open>Rfc_Prelude\<close>; a C string is a list of characters without NUL, a fixed-size array is the string it
  holds with its size written out at every copy (\<open>buf_copy\<close>).  Operations that can do
  what the code does not survive return \<open>fault + 'a\<close>; every early return is a branch with the status
  code of the source.  The world (\<open>Rfc_World\<close>) is a record of the files, the state of everything
  outside, the trace of visible actions and the static flag of rfcapi; the processor's record \<open>proc\<close>
  extends it by the members of the class.  Code that is not in the repository (cJSON, cURL, rbus, the
  device API, shell commands, the IARM bus) is a field of \<open>sys\<close>, \<open>os\<close> or \<open>bus\<close>, about which nothing is
  assumed except in named hypotheses (\<open>cjson_arrays\<close>, \<open>iter_ok\<close>, \<open>sed_deletes\<close>, \<open>always_answers\<close>;
  \<open>bus_law\<close> and \<open>host_law\<close>, that the data model keeps what is set over rbus or over the parameter service;
  \<open>keeps_outside\<close>, that downloads and pauses leave it alone; and the like); \<open>ref_sys\<close>, \<open>ref_os\<close>,
  \<open>echo_bus\<close> and \<open>shelf_sys\<close> are concrete outsides on which the witnesses evaluate these hypotheses.  Build variants are tests of \<open>plat\<close>;
  the builds are those with \<open>EN_MAINTENANCE_MANAGER\<close>, in which the events of the maintenance manager are sent.

  \<^bold>\<open>Interfaces.\<close>  \<open>Std_Map\<close> states the contract of an ordered map as a locale and interprets it
  on association lists; \<open>Ini_File\<close> states printing and scanning of key=value files as a locale,
  interpreted for plain and for \<open>export\<close> lines; \<open>Poll_Loop\<close> states a bounded polling loop, interpreted
  for the route flag and for the interface addresses in \<open>Rfc_Connectivity\<close>; \<open>Arg_Loop\<close> states the
  argument loop of the tools, interpreted in \<open>Trset_Utils\<close> and \<open>Tr181_Utils\<close>; \<open>Retry_Loop\<close> states a loop
  that repeats its body while a test says so and may never return, interpreted for the loop over the
  certificates in \<open>Rfc_Mtls\<close>; \<open>Config_Target\<close> states what processing an answer needs of the place the
  parameters live in (\<open>config_target\<close>), interpreted for the bus in \<open>Rfc_Apply\<close> and for the parameter
  service in \<open>Rfc_Host\<close>; \<open>Rfc_Request\<close> states what a run of the request loop keeps (\<open>answered_run\<close>),
  interpreted there for the bus builds and in \<open>Host_Run\<close> for the set-top box; \<open>Json_Vars\<close> interprets the
  map contract on the environment of the process.

  \<^bold>\<open>The theories and what they show.\<close>
  \<^item> \<open>Rfc_Api\<close> (rfcapi.cpp): the search order over the ini files and that a read changes nothing but create
    missing combined defaults; the arrays of the parameter record are never overrun; what the combined defaults file holds; which
    entries the scanner misses.
  \<^item> \<open>Tr181_Api\<close> (tr181api.cpp): setting and clearing in the local store refine a map update and the
    removal of a name, or of every name that contains a text ending in a dot.  \<open>Store_Lock\<close> lets any number of callers interleave, the
    read and the write-back of a change being separate steps between the wait and the post of the
    semaphore: the store and every answer are those of serving the requests one after the other, and an
    interrupted wait can lose an update.
  \<^item> \<open>Rfc_Common\<close> (rfc_common.cpp): parameter reads stay within the caller's buffer, except for quoted
    values that are too long; waiting is bounded; \<open>RemoveSubstring\<close> ends exactly for non-empty
    substrings.
  \<^item> \<open>Rfc_Json\<close> (json_parse.c and the feature fields), \<open>Rfc_Processor\<close> (identity, initialisation, debug
    unlock), \<open>Rfc_Store\<close> (persistence), \<open>Rfc_Download\<close> (requests and their classification),
    \<open>Rfc_Features\<close> (answers on set-top boxes and cameras), \<open>Rfc_Rdkb\<close> (answers on broadband) and
    \<open>Rfc_Request\<close> (the request loop): a successful initialisation leaves a server URL; production
    builds unlock only under the three conditions; hash, time and account id read back as
    stored; the configuration map holds the last value of a key; features after one without
    configData are dropped; pre-processing refines an
    abstract phase machine; an unknown account id does not replace the stored one when an entry is
    processed on set-top boxes and cameras; a blocked device makes no request; a reboot is asked for only on a change.
    The processing of an answer follows the parsed document (\<open>doc\<close>): it is a parameter of every
    routine that releases it, and a second release is the fault \<open>UseAfterFree\<close>.
  \<^item> \<open>Config_Target\<close>, \<open>Rfc_Apply\<close> (what an answer leaves in the data model over rbus): a whole run on a camera,
    and the processing of an answer on a broadband gateway, leave every configuration entry of the answer
    readable with the value it had there last, and the camera sends the new hash with its next request, given
    that the data model keeps what is set (\<open>bus_law\<close>), that every feature of the answer carries configData
    (\<open>all_have_config\<close>) and that the entries can be set (\<open>entry_settable\<close>).
  \<^item> \<open>Host_Service\<close>, \<open>Rfc_Host\<close>, \<open>Host_Run\<close> (the same on a set-top box): a set followed by a get through
    rfcapi, the requests and replies being the JSON texts the code builds and reads; then a whole run, after
    which the entries read back and the next request is sent with the new hash.  The properties of the
    loop on every build stand in \<open>Host_Run\<close>: a run that is answered reaches the processing of a usable
    answer, and a 304 answer to an ordinary request ends it with success.  \<open>host_law\<close> is what is
    assumed of the service: a get is answered with the value held, and a post stores what it
    sends or nothing (clearing keeps the types of the parameters).  Texts that need JSON escapes are excluded
    (\<open>plain_text\<close>, \<open>query_plain\<close>), because the code builds its requests without escaping.
  \<^item> \<open>Device_Api\<close> (common_device_api.c, rdk_fwdl_utils.c under gtest/mocks, the copies of the device library
    in the repository): the identity a set-top box sends is the one its files state.  The other theories
    keep the device API a parameter; \<open>device_files\<close> ties it to these functions.
  \<^item> \<open>Json_Vars\<close> (the rest of json_parse.c): values collected by a part of their name are cut at the caller's
    buffer and nowhere else; an exported document reads back from the file and the environment.
  \<^item> \<open>Rfc_Mtls\<close> (mtlsUtils.cpp and the \<open>LIBRDKCERTSELECTOR\<close> build of the download): the loop over the
    certificates returns after at most one request per certificate, and both builds agree
    when the first certificate will do.
    The other theories compose the build without a selector.
  \<^item> \<open>Rfc_Connectivity\<close>, \<open>Rfc_Cron\<close>, \<open>Rfc_Manager\<close> (rfc_manager.cpp, rfc_main.cpp): how the online checks
    decide and that they are bounded; the schedule moves three minutes back on the clock and its entry
    replaces the old ones (appended to the last kept line when that has no newline); one execution makes at most five requests and sends at most one report,
    which on a set-top box tells the result of the run.  \<open>Rfc_Lock\<close> lets several
    instances interleave: exclusion holds until the first exit among the instances that could open the
    lock file (one that cannot runs without a lock), and is broken by an instance that is turned away.
  \<^item> \<open>Trset_Utils\<close>, \<open>Tr181_Utils\<close>, \<open>Json_Handler\<close> (utils): when the argument and connection loops
    return, what a set followed by a get prints, with which type a value is sent, how numbers survive
    the byte layout of a message, and which lists are saved under which names.
  \<^item> This theory spans components: the feature switches the manager writes are what rfcapi
    reads back.

  \<^bold>\<open>Loops.\<close>  Every bounded loop is recursion over its bound (3 requests, 2 validations, 10 reads of the
  bootstrap URL, 5 route tests, 30 address tests) with a termination proof, no fuel is used.
  Loops that may not end are \<open>partial_function (option)\<close> (\<open>RemoveSubstring\<close>, \<open>arg_loop\<close>,
  \<open>initilize\<close>, \<open>cert_loop\<close>), and it is shown exactly when they return.

  \<^bold>\<open>Not modelled.\<close>  Logging; the transport of IARM, rbus and HTTP; the certificate-selector library; a
  reader that sees the store's file half written, which the semaphore excludes; the start of the logger; short reads and failing writes of a
  file that is open; unit tests and the other stand-ins under gtest/mocks
  (cURL, IARM, shell wrappers), the functions that
  exist only in test builds, scripts and build files.  The lines of the sources that no definition models are
  includes, declarations, comments between functions, usage texts and log messages.
\<close>

section \<open>Feature switches, from the server's answer to the shell variable\<close>

text \<open>The two variables the manager writes for a feature.\<close>

definition feature_entries :: "feature_obj \<Rightarrow> (string \<times> string) list" where
  "feature_entries f =
     [(''RFC_ENABLE_'' @ ft_name f, flag_text (ft_enable f)),
      (''RFC_'' @ ft_name f @ ''_effectiveImmediate'', flag_text (ft_immediate f))]"

definition plain_name :: "string \<Rightarrow> bool" where
  "plain_name n \<longleftrightarrow> CHR ''='' \<notin> set n \<and> NL \<notin> set n \<and> CHR ''.'' \<notin> set n"

lemma flag_text_plain: "NL \<notin> set (flag_text b)" "flag_text b \<noteq> []" "[] \<noteq> flag_text b"
  by (simp_all add: flag_text_def)

lemma feature_entries_ok:
  assumes "plain_name (ft_name f)" "(k, v) \<in> set (feature_entries f)"
  shows "key_ok k \<and> NL \<notin> set v \<and> v \<noteq> [] \<and> is_rfc_variable k \<and> k \<noteq> [] \<and> last k \<noteq> CHR ''.''"
proof -
  have k: "CHR ''.'' \<notin> set k" "key_ok k" "NL \<notin> set v" "v \<noteq> []" "\<exists>r. k = ''RFC_'' @ r"
    using assms by (auto simp: feature_entries_def plain_name_def key_ok_def flag_text_plain)
  moreover from k(5) have "k \<noteq> []" by auto
  moreover from this have "last k \<noteq> CHR ''.''" using k(1) last_in_set by metis
  ultimately show ?thesis by (auto simp: is_rfc_variable_def strncmp_eq_def cstr_def split: if_splits)
qed

lemma render_feature:
  "unlines [''export RFC_ENABLE_'' @ ft_name f @ ''='' @ flag_text (ft_enable f),
            ''export RFC_'' @ ft_name f @ ''_effectiveImmediate='' @ flag_text (ft_immediate f)] =
   export_ini.printed (feature_entries f)"
  by (simp add: export_ini.printed_def feature_entries_def render_export_def)

lemma printed_append: "export_ini.printed (xs @ ys) = export_ini.printed xs @ export_ini.printed ys"
  by (simp add: export_ini.printed_def unlines_def)

lemma printed_Nil: "export_ini.printed [] = []"
  by (simp add: export_ini.printed_def)

lemma varfile_path: "DIRECTORY_PATH @ ''rfcVariable.ini'' = RFCVAR_FILE"
  by (simp add: path_defs)

lemma write_switches:
  assumes "fopen_w S (env w) RFCVAR_FILE"
  shows "fold (writeRemoteFeatureCntrlFile S ''rfcVariable.ini'') fs w = (if fs = [] then w else
     w\<lparr>files := (files w)(RFCVAR_FILE \<mapsto>
        (case files w RFCVAR_FILE of None \<Rightarrow> [] | Some c \<Rightarrow> c) @
          export_ini.printed (concat (map feature_entries fs)))\<rparr>)"
  using assms
proof (induction fs arbitrary: w)
  case (Cons f fs)
  let ?w = "writeRemoteFeatureCntrlFile S ''rfcVariable.ini'' f w"
  have w: "?w = w\<lparr>files := (files w)(RFCVAR_FILE \<mapsto>
      (case files w RFCVAR_FILE of None \<Rightarrow> [] | Some c \<Rightarrow> c) @ export_ini.printed (feature_entries f))\<rparr>"
    unfolding writeRemoteFeatureCntrlFile_def varfile_path render_feature
    using Cons.prems by (simp add: append_file_def write_file_def)
  with Cons.IH [of ?w] Cons.prems show ?case by (simp add: printed_append printed_Nil)
qed simp

text \<open>C17: the switches of the features of an answer, written in order to a new variable file, are what
  rfcapi returns for the corresponding shell variables as long as the data-model service is not up;
  of several features that define a variable the first counts.\<close>

theorem feature_switch_readback:
  assumes "fopen_w S (env w) RFCVAR_FILE" "files w RFCVAR_FILE = None"
    "\<not> http_ready w" "files w HTTP_READY_FILE = None"
    "\<forall>f\<in>set fs. plain_name (ft_name f)"
    "map_of (concat (map feature_entries fs)) key = Some v"
  shows "\<exists>w'. fold (writeRemoteFeatureCntrlFile S ''rfcVariable.ini'') fs w = w' \<and>
     getRFCParameter S caller key prm w' = Inr (WDMP_SUCCESS, fill_param key v WDMP_NONE prm, w')"
proof -
  let ?kvs = "concat (map feature_entries fs)" and ?w' = "fold (writeRemoteFeatureCntrlFile S ''rfcVariable.ini'') fs w"
  from assms(6) have "fs \<noteq> []" by auto
  then have w': "?w' = w\<lparr>files := (files w)(RFCVAR_FILE \<mapsto> export_ini.printed ?kvs)\<rparr>"
    using write_switches [of S w fs] assms(1,2) by simp
  have ok: "\<forall>(k, v)\<in>set ?kvs. key_ok k \<and> NL \<notin> set v" using assms(5) feature_entries_ok by fastforce
  obtain f where "f \<in> set fs" "(key, v) \<in> set (feature_entries f)" using map_of_SomeD [OF assms(6)] by auto
  with feature_entries_ok assms(5) have key: "is_rfc_variable key" "key \<noteq> []" "last key \<noteq> CHR ''.''" "v \<noteq> []"
    by blast+
  have "ini_lookup rfc_entry key (getlines (export_ini.printed ?kvs)) = Some v"
    using export_ini.lookup_printed [OF ok] assms(6) by simp
  then have "usable_value (files ?w') RFCVAR_FILE key = Some v" by (simp add: usable_value_def w' key)
  moreover have "HTTP_READY_FILE \<noteq> RFCVAR_FILE" by (simp add: path_defs)
  ultimately have "getRFCParameter S caller key prm ?w' = Inr (WDMP_SUCCESS, fill_param key v WDMP_NONE prm, ?w')"
    using assms(3,4) key
    by (simp add: getRFCParameter_def is_wildcard_def file_present_def get_from_files_def getValue_no_create
        file_status_def w')
  then show ?thesis by blast
qed

definition moca_feature :: feature_obj where
  "moca_feature = \<lparr>ft_name = ''MOCA'', ft_instance = [], ft_enable = True, ft_immediate = False\<rparr>"

theorem feature_switch_readback_witness:
  "\<exists>w'. fold (writeRemoteFeatureCntrlFile ref_stb ''rfcVariable.ini'') [moca_feature] ref_world = w' \<and>
     getRFCParameter ref_stb None ''RFC_ENABLE_MOCA'' param0 w' =
       Inr (WDMP_SUCCESS, fill_param ''RFC_ENABLE_MOCA'' ''true'' WDMP_NONE param0, w')"
  by (rule feature_switch_readback)
    (simp_all add: ref_sys_def ref_world_def plain_name_def moca_feature_def feature_entries_def flag_text_def)

end
